(* ===== verification/Prelude.thy ===== *)
theory Prelude
  imports Main "HOL-Library.AList" "HOL-Library.List_Lexorder" "HOL-Library.Char_ord"
    "HOL-Library.Product_Lexorder"
begin

text \<open>
  Shared vocabulary of the development: Python values, exceptions and the ways a module run can
  end, the error monad in which every fallible routine is written, dictionaries as association
  lists in iteration order, and the lemma collections the component theories use.
\<close>

section \<open>Lemma collections\<close>

named_theorems err_simps \<open>inversion of the error monad\<close>
named_theorems dict_simps \<open>lookups after dictionary updates\<close>
named_theorems frame_simps \<open>fields an operation leaves alone\<close>

section \<open>Python values\<close>

text \<open>
  The values that occur in module parameters, JSON documents and request bodies. A dictionary is
  the list of its items in iteration order; the interpreter does not fix that order, so properties
  are stated about lookups and sets of keys, for every order of the inputs.
\<close>

datatype pyval =
    PNone
  | PBool bool
  | PInt int
  | PStr string
  | PList "pyval list"
  | PDict "(string \<times> pyval) list"

type_synonym pydict = "(string \<times> pyval) list"

fun is_PStr :: "pyval \<Rightarrow> bool" where
  "is_PStr (PStr _) = True"
| "is_PStr _ = False"

fun is_PList :: "pyval \<Rightarrow> bool" where
  "is_PList (PList _) = True"
| "is_PList _ = False"

section \<open>Exceptions and exits\<close>

text \<open>
  An exception carries the text \<open>str(e)\<close> that the code prints. \<open>OutOfModel\<close> marks a
  value shape on which this development does not follow the interpreter any further; the
  theorems state where it cannot arise. \<open>FailJson\<close> is the \<open>SystemExit\<close> that
  \<open>module.fail_json\<close> raises: no \<open>except Exception\<close> clause of the code catches it.
\<close>

datatype py_exc =
    AttributeError string
  | TypeError string
  | ValueError string
  | KeyError string
  | IndexError string
  | OverflowError string
  | EnvironmentError string
  | OutOfModel string

fun exc_str :: "py_exc \<Rightarrow> string" where
  "exc_str (AttributeError m) = m"
| "exc_str (TypeError m) = m"
| "exc_str (ValueError m) = m"
| "exc_str (KeyError k) = CHR 0x27 # k @ [CHR 0x27]"
| "exc_str (IndexError m) = m"
| "exc_str (OverflowError m) = m"
| "exc_str (EnvironmentError m) = m"
| "exc_str (OutOfModel m) = m"

datatype exit =
    Raise py_exc
  | FailJson "pyval option" pyval

section \<open>The error monad\<close>

fun ebind :: "'e + 'a \<Rightarrow> ('a \<Rightarrow> 'e + 'b) \<Rightarrow> 'e + 'b" where
  "ebind (Inl e) f = Inl e"
| "ebind (Inr x) f = f x"

fun emap :: "('a \<Rightarrow> 'e + 'b) \<Rightarrow> 'a list \<Rightarrow> 'e + 'b list" where
  "emap f [] = Inr []"
| "emap f (x # xs) = ebind (f x) (\<lambda>y. ebind (emap f xs) (\<lambda>ys. Inr (y # ys)))"

fun efold :: "('a \<Rightarrow> 'b \<Rightarrow> 'e + 'b) \<Rightarrow> 'a list \<Rightarrow> 'b \<Rightarrow> 'e + 'b" where
  "efold f [] acc = Inr acc"
| "efold f (x # xs) acc = ebind (f x acc) (efold f xs)"

fun efilter :: "('a \<Rightarrow> 'e + bool) \<Rightarrow> 'a list \<Rightarrow> 'e + 'a list" where
  "efilter p [] = Inr []"
| "efilter p (x # xs) =
     ebind (p x) (\<lambda>b. ebind (efilter p xs) (\<lambda>ys. Inr (if b then x # ys else ys)))"

lemma ebind_Inr_iff [err_simps]: "ebind m f = Inr y \<longleftrightarrow> (\<exists>x. m = Inr x \<and> f x = Inr y)"
  by (cases m) auto

lemma ebind_Inl_iff [err_simps]:
  "ebind m f = Inl e \<longleftrightarrow> m = Inl e \<or> (\<exists>x. m = Inr x \<and> f x = Inl e)"
  by (cases m) auto

lemma ebind_assoc [simp]: "ebind (ebind m f) g = ebind m (\<lambda>x. ebind (f x) g)"
  by (cases m) auto

lemma ebind_Inr_right [simp]: "ebind m Inr = m"
  by (cases m) auto

lemma ebind_cong [fundef_cong]:
  assumes "m = m'" and "\<And>x. m' = Inr x \<Longrightarrow> f x = f' x"
  shows "ebind m f = ebind m' f'"
  using assms by (cases m') auto

lemma emap_Inr_set: "emap f xs = Inr ys \<Longrightarrow> x \<in> set xs \<Longrightarrow> \<exists>y \<in> set ys. f x = Inr y"
  by (induction xs arbitrary: ys) (auto simp: err_simps)

lemma emap_length: "emap f xs = Inr ys \<Longrightarrow> length ys = length xs"
  by (induction xs arbitrary: ys) (auto simp: err_simps)

lemma emap_pure [simp]: "emap (\<lambda>x. Inr (f x)) xs = Inr (map f xs)"
  by (induction xs) auto

lemma efold_append: "efold f (xs @ ys) acc = ebind (efold f xs acc) (efold f ys)"
proof (induction xs arbitrary: acc)
  case (Cons x xs)
  then have "efold f (xs @ ys) = (\<lambda>a. ebind (efold f xs a) (efold f ys))"
    by (rule ext)
  then show ?case by simp
qed simp

lemma efold_pure [simp]: "efold (\<lambda>x acc. Inr (f x acc)) xs acc = Inr (fold f xs acc)"
  by (induction xs arbitrary: acc) auto

lemma efold_invariant:
  assumes "efold f xs acc = Inr r" and "P acc"
    and "\<And>x a a'. x \<in> set xs \<Longrightarrow> P a \<Longrightarrow> f x a = Inr a' \<Longrightarrow> P a'"
  shows "P r"
  using assms by (induction xs arbitrary: acc) (auto simp: err_simps)

lemma efilter_pure [simp]: "efilter (\<lambda>x. Inr (p x)) xs = Inr (filter p xs)"
  by (induction xs) auto

lemma efilter_subset: "efilter p xs = Inr ys \<Longrightarrow> set ys \<subseteq> set xs"
  by (induction xs arbitrary: ys) (auto simp: err_simps split: if_splits)

section \<open>Images\<close>

lemma image_Collect_notin: "g ` {x \<in> A. g x \<notin> B} = g ` A - B"
  by blast

lemma image_Collect_in: "g ` {x \<in> A. g x \<in> B} = g ` A \<inter> B"
  by blast

section \<open>Dictionaries\<close>

text \<open>
  \<open>d[k] = v\<close> replaces the value in place when the key is present and adds the item at the
  end of the iteration order otherwise; \<open>d.get(k)\<close> is \<open>map_of\<close>.
\<close>

definition dset :: "string \<Rightarrow> 'v \<Rightarrow> (string \<times> 'v) list \<Rightarrow> (string \<times> 'v) list" where
  "dset = AList.update"

definition ddel :: "string \<Rightarrow> (string \<times> 'v) list \<Rightarrow> (string \<times> 'v) list" where
  "ddel k d = filter (\<lambda>(k', _). k' \<noteq> k) d"

definition dget :: "(string \<times> 'v) list \<Rightarrow> string \<Rightarrow> 'v \<Rightarrow> 'v" where
  "dget d k dflt = (case map_of d k of Some v \<Rightarrow> v | None \<Rightarrow> dflt)"

abbreviation dkeys :: "(string \<times> 'v) list \<Rightarrow> string list" where
  "dkeys d \<equiv> map fst d"

abbreviation dhas :: "(string \<times> 'v) list \<Rightarrow> string \<Rightarrow> bool" where
  "dhas d k \<equiv> map_of d k \<noteq> None"

definition wf_dict :: "(string \<times> 'v) list \<Rightarrow> bool" where
  "wf_dict d \<longleftrightarrow> distinct (map fst d)"

text \<open>\<open>d[k]\<close>, which raises \<open>KeyError\<close> when the key is missing.\<close>

definition dindex :: "(string \<times> 'v) list \<Rightarrow> string \<Rightarrow> exit + 'v" where
  "dindex d k = (case map_of d k of Some v \<Rightarrow> Inr v | None \<Rightarrow> Inl (Raise (KeyError k)))"

lemma map_of_dset [simp, dict_simps]: "map_of (dset k v d) = (map_of d)(k \<mapsto> v)"
  by (simp add: dset_def AList.update_conv')

lemma map_of_filter_key:
  "map_of (filter (\<lambda>(k, _). P k) d) k = (if P k then map_of d k else None)"
  by (induction d) auto

lemma map_of_ddel [simp, dict_simps]: "map_of (ddel k d) = (map_of d)(k := None)"
  by (rule ext) (simp add: ddel_def map_of_filter_key)

lemma set_dkeys_dset [simp, dict_simps]: "fst ` set (dset k v d) = insert k (fst ` set d)"
  by (simp add: dset_def AList.dom_update)

lemma set_dkeys_ddel [simp, dict_simps]: "fst ` set (ddel k d) = fst ` set d - {k}"
  by (auto simp: ddel_def)

lemma dset_not_Nil [simp]: "dset k v d \<noteq> []"
  by (simp add: dset_def)

lemma dset_Nil [simp]: "dset k v [] = [(k, v)]"
  by (simp add: dset_def)

lemma dset_Cons [simp]:
  "dset k v (p # d) = (if fst p = k then (k, v) # d else p # dset k v d)"
  by (simp add: dset_def)

lemma wf_dict_Nil [simp, intro]: "wf_dict []"
  by (simp add: wf_dict_def)

lemma wf_dict_Cons [simp]: "wf_dict ((k, v) # d) \<longleftrightarrow> k \<notin> fst ` set d \<and> wf_dict d"
  by (auto simp: wf_dict_def)

lemma wf_dict_dset [simp, intro]: "wf_dict d \<Longrightarrow> wf_dict (dset k v d)"
  by (simp add: wf_dict_def dset_def AList.distinct_update)

lemma wf_dict_filter [simp, intro]: "wf_dict d \<Longrightarrow> wf_dict (filter P d)"
  by (simp add: wf_dict_def distinct_map_filter)

lemma wf_dict_ddel [simp, intro]: "wf_dict d \<Longrightarrow> wf_dict (ddel k d)"
  by (simp add: ddel_def)

lemma wf_dict_map_of: "wf_dict d \<Longrightarrow> (k, v) \<in> set d \<longleftrightarrow> map_of d k = Some v"
  by (simp add: wf_dict_def map_of_eq_Some_iff)

lemma dhas_iff: "dhas d k \<longleftrightarrow> k \<in> fst ` set d"
  by (simp add: map_of_eq_None_iff)

lemma dindex_Inr [err_simps]: "dindex d k = Inr v \<longleftrightarrow> map_of d k = Some v"
  by (simp add: dindex_def split: option.splits)

lemma dindex_Inl [err_simps]:
  "dindex d k = Inl e \<longleftrightarrow> map_of d k = None \<and> e = Raise (KeyError k)"
  by (auto simp: dindex_def split: option.splits)

lemma dget_dset [simp]: "dget (dset k v d) k' x = (if k' = k then v else dget d k' x)"
  by (simp add: dget_def)

lemma dget_None: "map_of d k = None \<Longrightarrow> dget d k x = x"
  by (simp add: dget_def)

lemma dget_Some: "map_of d k = Some v \<Longrightarrow> dget d k x = v"
  by (simp add: dget_def)

text \<open>A loop that stores one computed value per key.\<close>

definition store_step :: "('k \<Rightarrow> 'e + 'd) \<Rightarrow> ('k \<Rightarrow> string) \<Rightarrow> ('k \<Rightarrow> 'd \<Rightarrow> 'v) \<Rightarrow> 'k \<Rightarrow>
    (string \<times> 'v) list \<Rightarrow> 'e + (string \<times> 'v) list" where
  "store_step g key h x acc = ebind (g x) (\<lambda>d. Inr (dset (key x) (h x d) acc))"

lemma store_step_Inr [err_simps]:
  "store_step g key h x acc = Inr d \<longleftrightarrow> (\<exists>v. g x = Inr v \<and> d = dset (key x) (h x v) acc)"
  by (auto simp: store_step_def err_simps)

lemma efold_store:
  assumes "efold (store_step g (\<lambda>k. k) h) ks acc = Inr d"
  shows "map_of d k = (if k \<in> set ks then (case g k of Inr v \<Rightarrow> Some (h k v) | Inl _ \<Rightarrow> None)
                       else map_of acc k)"
    and "\<forall>k \<in> set ks. \<exists>v. g k = Inr v"
  using assms by (induction ks arbitrary: acc) (auto simp: err_simps)

lemma wf_dict_efold_store:
  "efold (store_step g key h) xs acc = Inr d \<Longrightarrow> wf_dict acc \<Longrightarrow> wf_dict d"
  by (erule efold_invariant) (auto simp: err_simps)

lemma efold_store_total:
  "\<forall>x \<in> set xs. \<exists>v. g x = Inr v \<Longrightarrow> \<exists>d. efold (store_step g key h) xs acc = Inr d"
  by (induction xs arbitrary: acc) (auto simp: store_step_def)

section \<open>Strings\<close>

fun join :: "string \<Rightarrow> string list \<Rightarrow> string" where
  "join sep [] = []"
| "join sep [x] = x"
| "join sep (x # y # zs) = x @ sep @ join sep (y # zs)"

text \<open>\<open>s.split(c)\<close> for a one-character separator: never empty, empty fields kept.\<close>

fun split_on :: "char \<Rightarrow> string \<Rightarrow> string list" where
  "split_on c [] = [[]]"
| "split_on c (x # xs) =
     (if x = c then [] # split_on c xs
      else case split_on c xs of f # fs \<Rightarrow> (x # f) # fs | [] \<Rightarrow> [[x]])"

lemma split_on_not_Nil [simp]: "split_on c s \<noteq> []"
  by (cases s) (auto split: list.splits)

lemma join_split_on [simp]: "join [c] (split_on c s) = s"
proof (induction s)
  case Nil
  then show ?case by simp
next
  case (Cons x xs)
  obtain f fs where "split_on c xs = f # fs"
    by (meson list.exhaust split_on_not_Nil)
  with Cons show ?case by (cases fs) auto
qed

lemma split_on_no_sep: "f \<in> set (split_on c s) \<Longrightarrow> c \<notin> set f"
proof (induction s arbitrary: f)
  case (Cons x xs)
  obtain g gs where "split_on c xs = g # gs"
    by (meson list.exhaust split_on_not_Nil)
  with Cons show ?case by (auto split: if_splits)
qed simp

lemma split_on_no_sep_single: "c \<notin> set s \<Longrightarrow> split_on c s = [s]"
  by (induction s) auto

lemma split_on_sep: "split_on c (s @ c # t) = split_on c s @ split_on c t"
proof (induction s)
  case (Cons x xs)
  obtain f fs where "split_on c xs = f # fs"
    by (meson list.exhaust split_on_not_Nil)
  with Cons show ?case by simp
qed simp

lemma split_on_append: "c \<notin> set s \<Longrightarrow> split_on c (s @ c # t) = s # split_on c t"
  by (simp add: split_on_sep split_on_no_sep_single)

lemma split_on_subset: "f \<in> set (split_on c s) \<Longrightarrow> set f \<subseteq> set s"
proof (induction s arbitrary: f)
  case (Cons x xs)
  obtain g gs where "split_on c xs = g # gs"
    by (meson list.exhaust split_on_not_Nil)
  with Cons show ?case by (auto split: if_splits) blast+
qed simp

lemma split_on_join:
  assumes "fs \<noteq> []" and "\<forall>f \<in> set fs. c \<notin> set f"
  shows "split_on c (join [c] fs) = fs"
  using assms
  by (induction "[c]" fs rule: join.induct) (auto simp: split_on_no_sep_single split_on_append)

end
