(* ===== verification/PyValue.thy ===== *)
theory PyValue
  imports Prelude
begin

text \<open>
  The operations of the Python 2 language and its standard library that the modelled code applies
  to values: equality, truth, containment, hashing and \<open>set()\<close>, iteration, \<open>int()\<close>,
  \<open>"%s"\<close>, \<open>str.format\<close> and the orderings behind \<open>sort\<close> and \<open>count > 0\<close>.
\<close>

section \<open>Equality, hashing and order\<close>

fun hashable :: "pyval \<Rightarrow> bool" where
  "hashable (PList _) = False"
| "hashable (PDict _) = False"
| "hashable _ = True"

text \<open>
  Hashable values are equal exactly when their keys are (\<open>True == 1\<close>), and Python 2 sorts
  values of different types by these keys: \<open>None\<close>, then numbers, then strings.
\<close>

fun hkey :: "pyval \<Rightarrow> nat \<times> int \<times> string" where
  "hkey PNone = (0, 0, [])"
| "hkey (PBool b) = (1, if b then 1 else 0, [])"
| "hkey (PInt i) = (1, i, [])"
| "hkey (PStr s) = (2, 0, s)"
| "hkey (PList _) = (3, 0, [])"
| "hkey (PDict _) = (4, 0, [])"

fun py_eq :: "pyval \<Rightarrow> pyval \<Rightarrow> bool"
  and py_eq_list :: "pyval list \<Rightarrow> pyval list \<Rightarrow> bool"
  and py_eq_items :: "pydict \<Rightarrow> pydict \<Rightarrow> bool" where
  "py_eq (PList xs) w = (case w of PList ys \<Rightarrow> py_eq_list xs ys | _ \<Rightarrow> False)"
| "py_eq (PDict d) w =
     (case w of PDict e \<Rightarrow> length d = length e \<and> py_eq_items d e | _ \<Rightarrow> False)"
| "py_eq v w = (hkey v = hkey w)"
| "py_eq_list [] ys = (ys = [])"
| "py_eq_list (x # xs) ys =
     (case ys of [] \<Rightarrow> False | y # ys' \<Rightarrow> py_eq x y \<and> py_eq_list xs ys')"
| "py_eq_items [] e = True"
| "py_eq_items (p # d) e =
     (case map_of e (fst p) of None \<Rightarrow> False | Some w \<Rightarrow> py_eq (snd p) w \<and> py_eq_items d e)"

fun wf_val :: "pyval \<Rightarrow> bool"
  and wf_vals :: "pyval list \<Rightarrow> bool"
  and wf_items :: "pydict \<Rightarrow> bool" where
  "wf_val (PList xs) = wf_vals xs"
| "wf_val (PDict d) = (wf_dict d \<and> wf_items d)"
| "wf_val _ = True"
| "wf_vals [] = True"
| "wf_vals (x # xs) = (wf_val x \<and> wf_vals xs)"
| "wf_items [] = True"
| "wf_items (p # d) = (wf_val (snd p) \<and> wf_items d)"

lemma py_eq_hashable: "hashable v \<Longrightarrow> py_eq v w \<longleftrightarrow> hkey v = hkey w"
  by (cases v) auto

lemma hkey_hashable: "hkey v = hkey w \<Longrightarrow> hashable v \<Longrightarrow> hashable w"
  by (cases v; cases w) auto

lemma hkey_PStr: "hkey v = hkey (PStr s) \<longleftrightarrow> v = PStr s"
  by (cases v) auto

lemma py_eq_refl:
  "wf_val v \<Longrightarrow> py_eq v v"
  "wf_vals vs \<Longrightarrow> py_eq_list vs vs"
  "wf_items d \<Longrightarrow> (\<forall>p \<in> set d. map_of e (fst p) = Some (snd p)) \<Longrightarrow> py_eq_items d e"
proof (induction v and vs and d arbitrary: and and e rule: wf_val_wf_vals_wf_items.induct)
  case (2 d)
  then show ?case by (auto simp: wf_dict_def)
qed auto

lemma py_eq_refl_hashable [simp]: "hashable v \<Longrightarrow> py_eq v v"
  by (cases v) auto

text \<open>
  \<open>count > 0\<close> compares by type name when the operands are not both numbers: \<open>None\<close> is
  below every number, every other type above.
\<close>

fun py_gt0 :: "pyval \<Rightarrow> bool" where
  "py_gt0 PNone = False"
| "py_gt0 (PBool b) = b"
| "py_gt0 (PInt i) = (0 < i)"
| "py_gt0 _ = True"

fun py_truth :: "pyval \<Rightarrow> bool" where
  "py_truth PNone = False"
| "py_truth (PBool b) = b"
| "py_truth (PInt i) = (i \<noteq> 0)"
| "py_truth (PStr s) = (s \<noteq> [])"
| "py_truth (PList xs) = (xs \<noteq> [])"
| "py_truth (PDict d) = (d \<noteq> [])"

section \<open>Sets\<close>

definition py_mem :: "pyval \<Rightarrow> pyval list \<Rightarrow> bool" where
  "py_mem x xs = list_ex (py_eq x) xs"

fun dedup :: "pyval list \<Rightarrow> pyval list" where
  "dedup [] = []"
| "dedup (x # xs) = x # filter (\<lambda>y. \<not> py_eq x y) (dedup xs)"

text \<open>\<open>set(xs)\<close>: the first of equal elements is kept; an unhashable element raises.\<close>

definition py_set :: "pyval list \<Rightarrow> exit + pyval list" where
  "py_set xs = (if list_all hashable xs then Inr (dedup xs)
                else Inl (Raise (TypeError ''unhashable type'')))"

lemma py_mem_hkey: "hashable x \<Longrightarrow> py_mem x xs \<longleftrightarrow> hkey x \<in> hkey ` set xs"
  by (auto simp: py_mem_def list_ex_iff py_eq_hashable)

lemma py_mem_refl: "hashable x \<Longrightarrow> x \<in> set xs \<Longrightarrow> py_mem x xs"
  by (auto simp: py_mem_hkey)

lemma py_mem_PStr: "py_mem (PStr s) xs \<longleftrightarrow> PStr s \<in> set xs"
proof -
  have "py_eq (PStr s) v \<longleftrightarrow> v = PStr s" for v
    by (cases v) auto
  then show ?thesis by (auto simp: py_mem_def list_ex_iff)
qed

lemma set_dedup_subset: "set (dedup xs) \<subseteq> set xs"
  by (induction xs) auto

lemma hkey_dedup: "\<forall>x \<in> set xs. hashable x \<Longrightarrow> hkey ` set (dedup xs) = hkey ` set xs"
proof (induction xs)
  case (Cons x xs)
  have "hkey ` set (filter (\<lambda>y. \<not> py_eq x y) (dedup xs)) = hkey ` set (dedup xs) - {hkey x}"
    using Cons.prems by (auto simp: py_eq_hashable)
  with Cons show ?case by auto
qed simp

lemma distinct_hkey_dedup: "\<forall>x \<in> set xs. hashable x \<Longrightarrow> distinct (map hkey (dedup xs))"
proof (induction xs)
  case (Cons x xs)
  then have "distinct (map hkey (filter (\<lambda>y. \<not> py_eq x y) (dedup xs)))"
    by (simp add: distinct_map_filter)
  moreover have "hkey x \<notin> hkey ` set (filter (\<lambda>y. \<not> py_eq x y) (dedup xs))"
    using Cons.prems by (auto simp: py_eq_hashable)
  ultimately show ?case by simp
qed simp

lemma py_set_Inr [err_simps]:
  "py_set xs = Inr ys \<longleftrightarrow> (\<forall>x \<in> set xs. hashable x) \<and> ys = dedup xs"
  by (auto simp: py_set_def list_all_iff)

section \<open>Containment and iteration\<close>

fun is_infix :: "string \<Rightarrow> string \<Rightarrow> bool" where
  "is_infix xs [] = (xs = [])"
| "is_infix xs (y # ys) = (take (length xs) (y # ys) = xs \<or> is_infix xs ys)"

lemma is_infix_iff: "is_infix xs ys \<longleftrightarrow> (\<exists>as bs. ys = as @ xs @ bs)"
proof (induction ys)
  case (Cons y ys)
  show ?case
  proof
    assume "is_infix xs (y # ys)"
    then consider "take (length xs) (y # ys) = xs" | "is_infix xs ys" by auto
    then show "\<exists>as bs. y # ys = as @ xs @ bs"
    proof cases
      case 1
      then have "y # ys = [] @ xs @ drop (length xs) (y # ys)"
        by (metis append_Nil append_take_drop_id)
      then show ?thesis by blast
    next
      case 2
      with Cons.IH obtain as bs where "ys = as @ xs @ bs" by blast
      then have "y # ys = (y # as) @ xs @ bs" by simp
      then show ?thesis by blast
    qed
  next
    assume "\<exists>as bs. y # ys = as @ xs @ bs"
    then obtain as bs where eq: "y # ys = as @ xs @ bs" by blast
    show "is_infix xs (y # ys)"
    proof (cases as)
      case Nil
      with eq have "take (length xs) (y # ys) = xs" by simp
      then show ?thesis by simp
    next
      case (Cons a as')
      with eq Cons.IH show ?thesis by auto
    qed
  qed
qed simp

text \<open>\<open>x in c\<close>: list membership, dictionary key, substring; other containers raise.\<close>

fun py_in :: "pyval \<Rightarrow> pyval \<Rightarrow> exit + bool" where
  "py_in x (PList ys) = Inr (py_mem x ys)"
| "py_in x (PDict d) =
     (if \<not> hashable x then Inl (Raise (TypeError ''unhashable type''))
      else Inr (case x of PStr s \<Rightarrow> dhas d s | _ \<Rightarrow> False))"
| "py_in x (PStr t) =
     (case x of PStr s \<Rightarrow> Inr (is_infix s t)
      | _ \<Rightarrow> Inl (Raise (TypeError ''in <string> requires string as left operand'')))"
| "py_in _ _ = Inl (Raise (TypeError ''argument is not iterable''))"

text \<open>\<open>for v in x\<close>.\<close>

fun py_iter :: "pyval \<Rightarrow> exit + pyval list" where
  "py_iter (PList xs) = Inr xs"
| "py_iter (PDict d) = Inr (map (\<lambda>p. PStr (fst p)) d)"
| "py_iter (PStr s) = Inr (map (\<lambda>c. PStr [c]) s)"
| "py_iter _ = Inl (Raise (TypeError ''object is not iterable''))"

text \<open>\<open>x.get(k, dflt)\<close> and \<open>x.items()\<close> need a dictionary.\<close>

fun py_get :: "pyval \<Rightarrow> string \<Rightarrow> pyval \<Rightarrow> exit + pyval" where
  "py_get (PDict d) k dflt = Inr (dget d k dflt)"
| "py_get _ k dflt = Inl (Raise (AttributeError ''object has no attribute get''))"

text \<open>\<open>v[k]\<close> for a string \<open>k\<close>: only a dictionary takes one.\<close>

fun py_index :: "pyval \<Rightarrow> string \<Rightarrow> exit + pyval" where
  "py_index (PDict d) k = dindex d k"
| "py_index _ k = Inl (Raise (TypeError ''indices must be integers''))"

fun py_items :: "pyval \<Rightarrow> exit + pydict" where
  "py_items (PDict d) = Inr d"
| "py_items _ = Inl (Raise (AttributeError ''object has no attribute items''))"

section \<open>Numbers\<close>

definition is_digit :: "char \<Rightarrow> bool" where
  "is_digit c \<longleftrightarrow> 48 \<le> (of_char c :: nat) \<and> (of_char c :: nat) \<le> 57"

definition digit_val :: "char \<Rightarrow> nat" where
  "digit_val c = of_char c - 48"

definition digit_char :: "nat \<Rightarrow> char" where
  "digit_char n = char_of (48 + n)"

definition is_space :: "char \<Rightarrow> bool" where
  "is_space c \<longleftrightarrow> (of_char c :: nat) \<in> {9, 10, 11, 12, 13, 32}"

definition strip :: "string \<Rightarrow> string" where
  "strip s = rev (dropWhile is_space (rev (dropWhile is_space s)))"

definition nat_of_digits :: "string \<Rightarrow> nat" where
  "nat_of_digits ds = foldl (\<lambda>n c. 10 * n + digit_val c) 0 ds"

definition parse_nat :: "string \<Rightarrow> int option" where
  "parse_nat ds = (if ds \<noteq> [] \<and> list_all is_digit ds then Some (int (nat_of_digits ds)) else None)"

text \<open>\<open>int(s)\<close> for a string: surrounding white space and one sign are accepted.\<close>

definition py_int :: "string \<Rightarrow> exit + int" where
  "py_int s =
     (let t = strip s;
          r = (case t of
                 [] \<Rightarrow> None
               | c # ds \<Rightarrow> if c = CHR ''-'' then map_option uminus (parse_nat ds)
                           else if c = CHR ''+'' then parse_nat ds
                           else parse_nat t)
      in case r of Some i \<Rightarrow> Inr i
         | None \<Rightarrow> Inl (Raise (ValueError (''invalid literal for int() with base 10: '' @ s))))"

fun show_nat :: "nat \<Rightarrow> string" where
  "show_nat n = (if n < 10 then [digit_char n] else show_nat (n div 10) @ [digit_char (n mod 10)])"

declare show_nat.simps [simp del]

definition show_int :: "int \<Rightarrow> string" where
  "show_int i = (if i < 0 then CHR ''-'' # show_nat (nat (- i)) else show_nat (nat i))"

lemma of_char_digit_char: "n < 10 \<Longrightarrow> (of_char (digit_char n) :: nat) = 48 + n"
  by (simp add: digit_char_def)

lemma is_digit_digit_char: "n < 10 \<Longrightarrow> is_digit (digit_char n)"
  by (simp add: is_digit_def of_char_digit_char)

lemma digit_val_digit_char: "n < 10 \<Longrightarrow> digit_val (digit_char n) = n"
  by (simp add: digit_val_def of_char_digit_char)

lemma is_digit_not_space: "is_digit c \<Longrightarrow> \<not> is_space c"
  by (auto simp: is_digit_def is_space_def)

lemma is_digit_not_sign: "is_digit c \<Longrightarrow> c \<noteq> CHR ''-'' \<and> c \<noteq> CHR ''+''"
  by (auto simp: is_digit_def)

lemma show_nat_digits: "show_nat n \<noteq> [] \<and> list_all is_digit (show_nat n)"
proof (induction n rule: show_nat.induct)
  case (1 n)
  then show ?case
    by (cases "n < 10") (simp_all add: show_nat.simps [of n] is_digit_digit_char)
qed

lemma nat_of_digits_show_nat: "nat_of_digits (show_nat n) = n"
proof (induction n rule: show_nat.induct)
  case (1 n)
  then show ?case
    by (cases "n < 10")
      (simp_all add: show_nat.simps [of n] nat_of_digits_def digit_val_digit_char)
qed

lemma strip_digits: "list_all is_digit ds \<Longrightarrow> strip ds = ds"
proof -
  assume d: "list_all is_digit ds"
  then have "dropWhile is_space ds = ds"
    by (cases ds) (auto simp: is_digit_not_space)
  moreover have "dropWhile is_space (rev ds) = rev ds"
    using d by (cases ds rule: rev_cases) (auto simp: is_digit_not_space)
  ultimately show ?thesis by (simp add: strip_def)
qed

lemma strip_sign_digits: "list_all is_digit ds \<Longrightarrow> strip (CHR ''-'' # ds) = CHR ''-'' # ds"
proof -
  assume d: "list_all is_digit ds"
  have minus: "\<not> is_space CHR ''-''"
    by (simp add: is_space_def)
  have "dropWhile is_space (rev ds @ [CHR ''-'']) = rev ds @ [CHR ''-'']"
    using d by (cases ds rule: rev_cases) (auto simp: is_digit_not_space minus)
  with minus show ?thesis by (simp add: strip_def)
qed

lemma py_int_show_int: "py_int (show_int i) = Inr i"
proof (cases "i < 0")
  case True
  let ?ds = "show_nat (nat (- i))"
  have "?ds \<noteq> []" "list_all is_digit ?ds" using show_nat_digits by blast+
  with True show ?thesis
    by (simp add: show_int_def py_int_def strip_sign_digits parse_nat_def nat_of_digits_show_nat)
next
  case False
  let ?ds = "show_nat (nat i)"
  have d: "?ds \<noteq> []" "list_all is_digit ?ds" using show_nat_digits by blast+
  then obtain c cs where c: "?ds = c # cs" "is_digit c" by (cases ?ds) auto
  have "parse_nat ?ds = Some i"
    using d False by (simp add: parse_nat_def nat_of_digits_show_nat)
  with False d(2) c is_digit_not_sign [OF c(2)] show ?thesis
    by (simp add: show_int_def py_int_def strip_digits)
qed

section \<open>Formatting\<close>

definition lower_char :: "char \<Rightarrow> char" where
  "lower_char c = (if 65 \<le> (of_char c :: nat) \<and> (of_char c :: nat) \<le> 90
                   then char_of ((of_char c :: nat) + 32) else c)"

definition lower :: "string \<Rightarrow> string" where
  "lower s = map lower_char s"

text \<open>\<open>"%s" % v\<close>; the \<open>repr\<close> text of containers is not modelled.\<close>

fun fmt_s :: "pyval \<Rightarrow> exit + string" where
  "fmt_s PNone = Inr ''None''"
| "fmt_s (PBool b) = Inr (if b then ''True'' else ''False'')"
| "fmt_s (PInt i) = Inr (show_int i)"
| "fmt_s (PStr s) = Inr s"
| "fmt_s _ = Inl (Raise (OutOfModel ''repr of a container''))"

lemma fmt_s_hashable: "hashable v \<Longrightarrow> \<exists>s. fmt_s v = Inr s"
  by (cases v) auto

text \<open>
  \<open>tmpl.format(arg)\<close> with one positional argument: \<open>{{\<close> and \<open>}}\<close> are literal braces,
  \<open>{}\<close> takes the next argument, \<open>{0}\<close> the first; the counter is the number of automatic
  fields met so far, \<open>None\<close> once a numbered field was used.
\<close>

fun format_go :: "string \<Rightarrow> nat option \<Rightarrow> string \<Rightarrow> exit + string" where
  "format_go arg n [] = Inr []"
| "format_go arg n (c # rest) =
     (if c = CHR ''{'' then
        (case rest of
           [] \<Rightarrow> Inl (Raise (ValueError ''Single { encountered in format string''))
         | d # rest' \<Rightarrow>
             if d = CHR ''{'' then ebind (format_go arg n rest') (\<lambda>r. Inr (CHR ''{'' # r))
             else if d = CHR ''}'' then
               (case n of
                  None \<Rightarrow> Inl (Raise (ValueError ''cannot switch from manual to automatic field numbering''))
                | Some 0 \<Rightarrow> ebind (format_go arg (Some 1) rest') (\<lambda>r. Inr (arg @ r))
                | Some _ \<Rightarrow> Inl (Raise (IndexError ''tuple index out of range'')))
             else
               (case rest' of
                  [] \<Rightarrow> Inl (Raise (OutOfModel ''format field''))
                | e # rest'' \<Rightarrow>
                    if d = CHR ''0'' \<and> e = CHR ''}'' then
                      (if n = None \<or> n = Some 0
                       then ebind (format_go arg None rest'') (\<lambda>r. Inr (arg @ r))
                       else Inl (Raise (ValueError ''cannot switch from automatic to manual field numbering'')))
                    else Inl (Raise (OutOfModel ''format field''))))
      else if c = CHR ''}'' then
        (case rest of
           d # rest' \<Rightarrow>
             if d = CHR ''}'' then ebind (format_go arg n rest') (\<lambda>r. Inr (CHR ''}'' # r))
             else Inl (Raise (ValueError ''Single } encountered in format string''))
         | [] \<Rightarrow> Inl (Raise (ValueError ''Single } encountered in format string'')))
      else ebind (format_go arg n rest) (\<lambda>r. Inr (c # r)))"

definition str_format :: "string \<Rightarrow> string \<Rightarrow> exit + string" where
  "str_format tmpl arg = format_go arg (Some 0) tmpl"

lemma format_go_literal:
  "CHR ''{'' \<notin> set s \<Longrightarrow> CHR ''}'' \<notin> set s \<Longrightarrow> format_go arg n s = Inr s"
  by (induction s) auto

text \<open>The method name patterns: one leading field, then literal text.\<close>

lemma str_format_prefix:
  assumes "CHR ''{'' \<notin> set s" and "CHR ''}'' \<notin> set s"
  shows "str_format (''{}'' @ s) arg = Inr (arg @ s)"
  using assms by (simp add: str_format_def format_go_literal)

lemma of_char_div16: "(of_char c :: nat) div 16 < 16"
proof -
  have "(of_char c :: nat) < 16 * 16" by simp
  then show ?thesis by (rule less_mult_imp_div_less)
qed

end
