(* ===== verification/PyFloat.thy ===== *)
theory PyFloat
  imports PyValue Complex_Main "HOL-Library.Log_Nat"
begin

text \<open>
  Python's \<open>float\<close>, the 64-bit binary format of IEEE 754, as far as the sources compute with it:
  a finite float is the rational number it denotes, and an operation is the exact one followed by
  rounding to 53 significant bits, ties to even. There is no negative infinity and no NaN, which the
  sources cannot produce.
\<close>

section \<open>Rounding\<close>

datatype pyfloat = Fin rat | Inf

text \<open>The nearest integer, ties to even, and the nearest integer, ties away from zero.\<close>

definition round_even :: "rat \<Rightarrow> int" where
  "round_even x =
     (let f = floor x; r = x - of_int f
      in if r < 1 / 2 then f else if r > 1 / 2 then f + 1 else if even f then f else f + 1)"

definition round_away :: "rat \<Rightarrow> int" where
  "round_away x = (if x < 0 then - floor (1 / 2 - x) else floor (x + 1 / 2))"

text \<open>
  The exponent of the last place of \<open>x\<close>: \<open>x / 2 ^ e\<close> lies between \<open>2 ^ 52\<close> and \<open>2 ^ 53\<close>
  unless \<open>x\<close> is below the normal range.
\<close>

definition ulp_exp :: "rat \<Rightarrow> int" where
  "ulp_exp x =
     (let (n, d) = quotient_of \<bar>x\<bar>; e = bitlen n - bitlen d - 53
      in max (- 1074) (if \<bar>x\<bar> < 2 powi (e + 53) then e else e + 1))"

definition flo :: "rat \<Rightarrow> rat" where
  "flo x = (if x = 0 then 0
            else let u = 2 powi ulp_exp x in of_int (round_even (x / u)) * u)"

definition double :: "rat \<Rightarrow> pyfloat" where
  "double x = (let r = flo x in if \<bar>r\<bar> < 2 ^ 1024 then Fin r else Inf)"

section \<open>Text and numbers\<close>

text \<open>\<open>float(s)\<close> for a text of digits and points.\<close>

definition is_decimal :: "char \<Rightarrow> bool" where
  "is_decimal c \<longleftrightarrow> is_digit c \<or> c = CHR ''.''"

definition float_of_text :: "string \<Rightarrow> exit + pyfloat" where
  "float_of_text s =
     (let bad = Inl (Raise (ValueError (''could not convert string to float: '' @ s)))
      in if list_all is_decimal s then
           (case split_on CHR ''.'' s of
              [a] \<Rightarrow> if a = [] then bad else Inr (double (of_nat (nat_of_digits a)))
            | [a, b] \<Rightarrow> if a @ b = [] then bad
                        else Inr (double (of_nat (nat_of_digits (a @ b)) / 10 ^ length b))
            | _ \<Rightarrow> bad)
         else Inl (Raise (OutOfModel ''text of a float'')))"

text \<open>An integer that meets a float is converted first.\<close>

definition float_of_int :: "int \<Rightarrow> exit + rat" where
  "float_of_int i =
     (case double (of_int i) of
        Fin r \<Rightarrow> Inr r
      | Inf \<Rightarrow> Inl (Raise (OverflowError ''long int too large to convert to float'')))"

text \<open>\<open>int(x)\<close> drops the fraction; \<open>round(x, p)\<close> rounds the decimal value, ties away from zero.\<close>

definition trunc :: "rat \<Rightarrow> int" where
  "trunc x = (if x < 0 then - floor (- x) else floor x)"

definition py_round :: "rat \<Rightarrow> nat \<Rightarrow> rat" where
  "py_round x p = flo (of_int (round_away (x * 10 ^ p)) / 10 ^ p)"

section \<open>Integers\<close>

lemma round_even_int [simp]: "round_even (of_int i) = i"
  by (simp add: round_even_def)

lemma round_away_int [simp]: "round_away (of_int i) = i"
proof -
  have "floor (of_int i + 1 / 2 :: rat) = i" by (simp add: floor_eq_iff)
  moreover have "floor (1 / 2 - of_int i :: rat) = - i" by (simp add: floor_eq_iff)
  ultimately show ?thesis by (simp add: round_away_def)
qed

lemma bitlen_le: "\<bar>i\<bar> < 2 ^ 53 \<Longrightarrow> bitlen \<bar>i\<bar> \<le> 53"
  by (cases "i = 0") (simp_all add: bitlen_le_iff_power)

lemma ulp_exp_int: "\<bar>i\<bar> < 2 ^ 53 \<Longrightarrow> ulp_exp (of_int i) \<le> 0"
proof -
  assume b: "\<bar>i\<bar> < 2 ^ 53"
  have q: "quotient_of \<bar>of_int i\<bar> = (\<bar>i\<bar>, 1)"
    using quotient_of_int [of "\<bar>i\<bar>"] by (simp add: of_int_abs [symmetric] del: of_int_abs)
  have "bitlen 1 = 1" by (simp add: bitlen_alt_def)
  with bitlen_le [OF b] show ?thesis by (simp add: ulp_exp_def q Let_def)
qed

lemma flo_scaled_int:
  assumes "x = of_int j * 2 powi ulp_exp x"
  shows "flo x = x"
proof (cases "x = 0")
  case False
  have "x / 2 powi ulp_exp x = of_int j"
    by (subst assms) simp
  with assms False show ?thesis by (simp add: flo_def Let_def)
qed (simp add: flo_def)

lemma flo_int:
  assumes "\<bar>i\<bar> < 2 ^ 53"
  shows "flo (of_int i) = of_int i"
proof (rule flo_scaled_int [where j = "i * 2 ^ nat (- ulp_exp (of_int i))"])
  let ?e = "ulp_exp (of_int i)"
  have "2 powi (- ?e) = (2 ^ nat (- ?e) :: rat)"
    using ulp_exp_int [OF assms] by (simp add: power_int_def)
  moreover have "2 powi (- ?e) * 2 powi ?e = (1 :: rat)"
    by (simp add: power_int_add [symmetric] del: power_int_minus)
  ultimately have "2 ^ nat (- ?e) * 2 powi ?e = (1 :: rat)" by simp
  then show "(of_int i :: rat) = of_int (i * 2 ^ nat (- ?e)) * 2 powi ulp_exp (of_int i :: rat)"
    by (simp add: mult.assoc)
qed

lemma py_round_int: "\<bar>i\<bar> < 2 ^ 53 \<Longrightarrow> py_round (of_int i) p = of_int i"
proof -
  assume b: "\<bar>i\<bar> < 2 ^ 53"
  have "round_away (of_int i * 10 ^ p) = i * 10 ^ p"
    using round_away_int [of "i * 10 ^ p"] by simp
  then have "py_round (of_int i) p = flo (of_int i)" by (simp add: py_round_def)
  with flo_int [OF b] show ?thesis by simp
qed

lemma double_int: "\<bar>i\<bar> < 2 ^ 53 \<Longrightarrow> double (of_int i) = Fin (of_int i)"
proof -
  assume b: "\<bar>i\<bar> < 2 ^ 53"
  then have "\<bar>of_int i\<bar> < (of_int (2 ^ 53) :: rat)"
    by (simp only: of_int_abs [symmetric] of_int_less_iff)
  also have "\<dots> < 2 ^ 1024" by simp
  finally show ?thesis by (simp add: double_def flo_int [OF b])
qed

lemma float_of_int_exact: "\<bar>i\<bar> < 2 ^ 53 \<Longrightarrow> float_of_int i = Inr (of_int i)"
  by (simp add: float_of_int_def double_int)

lemma float_of_digits:
  assumes "a \<noteq> []" and "list_all is_digit a" and "nat_of_digits a < 2 ^ 53"
  shows "float_of_text a = Inr (Fin (of_nat (nat_of_digits a)))"
proof -
  have "list_all is_decimal a" "CHR ''.'' \<notin> set a"
    using assms(2) by (auto simp: list_all_iff is_decimal_def is_digit_def)
  moreover have "double (of_nat (nat_of_digits a)) = Fin (of_nat (nat_of_digits a))"
    using double_int [of "int (nat_of_digits a)"] assms(3) by simp
  ultimately show ?thesis
    using assms(1) by (simp add: float_of_text_def split_on_no_sep_single)
qed

lemma float_of_text_decimal: "float_of_text a = Inr x \<Longrightarrow> a \<noteq> [] \<and> list_all is_decimal a"
  by (auto simp: float_of_text_def Let_def split: if_splits)

section \<open>Error of a rounding\<close>

lemma round_even_error: "\<bar>of_int (round_even x) - x\<bar> \<le> 1 / 2"
proof -
  have "of_int (floor x) \<le> x" "x < of_int (floor x) + 1" by linarith+
  then show ?thesis by (auto simp: round_even_def Let_def abs_if) linarith+
qed

lemma quotient_bitlen:
  assumes "quotient_of y = (n, d)" and "0 < y"
  shows "2 powi (bitlen n - bitlen d - 1) \<le> y"
proof -
  have d: "0 < d" using quotient_of_denom_pos [OF assms(1)] .
  have y: "y = of_int n / of_int d" using quotient_of_div [OF assms(1)] .
  with assms(2) d have n: "0 < n" by (simp add: zero_less_divide_iff)
  have bn: "1 \<le> bitlen n" and bd: "1 \<le> bitlen d"
    using n d by (simp_all add: bitlen_ge_iff_power)
  have "(2 :: int) ^ nat (bitlen n - 1) \<le> n" "d < 2 ^ nat (bitlen d)"
    using bitlen_bounds [OF n] bitlen_bounds [OF d] by auto
  then have "of_int (2 ^ nat (bitlen n - 1)) \<le> (of_int n :: rat)"
    "(of_int d :: rat) \<le> of_int (2 ^ nat (bitlen d))"
    by (simp_all only: of_int_le_iff less_imp_le)
  then have "2 ^ nat (bitlen n - 1) / 2 ^ nat (bitlen d) \<le> y"
    using d n unfolding y by (intro frac_le) simp_all
  moreover have "(2 :: rat) powi (bitlen n - bitlen d - 1) =
      2 powi (bitlen n - 1) / 2 powi (bitlen d)"
    by (simp add: power_int_diff [symmetric] algebra_simps)
  ultimately show ?thesis using bn bd by (simp add: power_int_def)
qed

text \<open>In the normal range the last place is at most \<open>2 ^ -52\<close> of the number.\<close>

lemma ulp_exp_bound:
  assumes "2 powi (- 1022) \<le> \<bar>x\<bar>"
  shows "2 powi (ulp_exp x + 52) \<le> \<bar>x\<bar>"
proof -
  obtain n d where q: "quotient_of \<bar>x\<bar> = (n, d)" by fastforce
  have "0 < \<bar>x\<bar>" using assms by (rule less_le_trans [rotated]) simp
  note l = quotient_bitlen [OF q this]
  define e where "e = bitlen n - bitlen d - 53"
  have u: "ulp_exp x = max (- 1074) (if \<bar>x\<bar> < 2 powi (e + 53) then e else e + 1)"
    by (simp add: ulp_exp_def q e_def Let_def)
  have low: "2 powi (e + 52) \<le> \<bar>x\<bar>" using l by (simp add: e_def)
  show ?thesis
  proof (cases "ulp_exp x = - 1074")
    case True
    with assms show ?thesis by simp
  next
    case False
    with u low show ?thesis by (auto simp: add.commute max_def split: if_splits)
  qed
qed

lemma flo_error:
  assumes "2 powi (- 1022) \<le> \<bar>x\<bar>"
  shows "\<bar>flo x - x\<bar> \<le> \<bar>x\<bar> / 2 ^ 53"
proof -
  let ?u = "2 powi ulp_exp x :: rat"
  have u: "0 < ?u" by simp
  have x: "x \<noteq> 0" using assms by auto
  have "flo x - x = (of_int (round_even (x / ?u)) - x / ?u) * ?u"
    using x u by (simp add: flo_def Let_def left_diff_distrib)
  then have "\<bar>flo x - x\<bar> = \<bar>of_int (round_even (x / ?u)) - x / ?u\<bar> * ?u"
    by (simp add: abs_mult)
  also have "\<dots> \<le> 1 / 2 * ?u"
    using round_even_error u by (intro mult_right_mono) auto
  also have "\<dots> = 2 powi (ulp_exp x + 52) / 2 ^ 53"
    by (simp add: power_int_add)
  also have "\<dots> \<le> \<bar>x\<bar> / 2 ^ 53"
    using ulp_exp_bound [OF assms] by (intro divide_right_mono) auto
  finally show ?thesis .
qed

lemma flo_one_tenth: "flo (1 / 10) = 3602879701896397 / 36028797018963968"
  by code_simp

lemma correction_is_one: "flo (1 + flo (1 / 10 ^ 16)) = 1"
  by code_simp

end
