(* ===== verification/OS_Files.thy ===== *)
theory OS_Files
  imports Prelude
begin

text \<open>
  The part of the operating system interface the OpenSSL modules use (\<open>os\<close>, \<open>os.path\<close>,
  \<open>open\<close>): a store of files by path, and what its calls do and raise in Python 2, where
  \<open>os.open\<close>, \<open>os.write\<close> and \<open>os.remove\<close> raise \<open>OSError\<close> and \<open>open\<close> raises \<open>IOError\<close>,
  two unrelated classes. Which accesses the permissions forbid is an argument.
\<close>

unbundle bit_operations_syntax

section \<open>Files\<close>

datatype node = RegFile string int | Directory

type_synonym fs = "(string \<times> node) list"

text \<open>The errors a missing file or a directory gives, and those permissions and the device give.\<close>

datatype refusal = EACCES | EROFS | ENOSPC | EIO

datatype errno = ENOENT | EISDIR | Refused refusal

datatype file_op = OpenRead | OpenWrite | WriteData | Unlink

type_synonym denials = "file_op \<Rightarrow> string \<Rightarrow> refusal option"

datatype file_exc =
    IOError errno
  | OSError errno
  | PyTypeError string
  | PyValueError string
  | PyUnicodeError string
  | CryptoError string
  | WrappedError file_exc

definition os_path_exists :: "fs \<Rightarrow> string \<Rightarrow> bool" where
  "os_path_exists f p \<longleftrightarrow> dhas f p"

definition os_path_isdir :: "fs \<Rightarrow> string \<Rightarrow> bool" where
  "os_path_isdir f p \<longleftrightarrow> map_of f p = Some Directory"

text \<open>\<open>posixpath\<close>: the part after the last slash, and the part before it without the slashes
  that end it unless it is made of slashes only.\<close>

definition rfind_slash :: "string \<Rightarrow> nat" where
  "rfind_slash p = length p - length (takeWhile (\<lambda>c. c \<noteq> CHR ''/'') (rev p))"

definition os_path_basename :: "string \<Rightarrow> string" where
  "os_path_basename p = drop (rfind_slash p) p"

definition os_path_dirname :: "string \<Rightarrow> string" where
  "os_path_dirname p =
     (let head = take (rfind_slash p) p in
      if head \<noteq> [] \<and> \<not> list_all (\<lambda>c. c = CHR ''/'') head
      then rev (dropWhile (\<lambda>c. c = CHR ''/'') (rev head)) else head)"

definition os_remove :: "denials \<Rightarrow> string \<Rightarrow> fs \<Rightarrow> errno + fs" where
  "os_remove deny p f =
     (case map_of f p of
        None \<Rightarrow> Inl ENOENT
      | Some Directory \<Rightarrow> Inl EISDIR
      | Some (RegFile c m) \<Rightarrow>
          (case deny Unlink p of Some e \<Rightarrow> Inl (Refused e) | None \<Rightarrow> Inr (ddel p f)))"

text \<open>
  Opening for writing creates the file with the requested mode less the \<open>umask\<close>, or truncates
  it and keeps its mode.
\<close>

definition open_trunc :: "denials \<Rightarrow> int \<Rightarrow> int \<Rightarrow> string \<Rightarrow> fs \<Rightarrow> errno + fs" where
  "open_trunc deny umask mode p f =
     (case map_of f p of
        Some Directory \<Rightarrow> Inl EISDIR
      | r \<Rightarrow>
          (case deny OpenWrite p of
             Some e \<Rightarrow> Inl (Refused e)
           | None \<Rightarrow>
               Inr (dset p (RegFile '''' (case r of Some (RegFile c m) \<Rightarrow> m
                                              | _ \<Rightarrow> mode AND NOT umask)) f)))"

definition write_data :: "denials \<Rightarrow> string \<Rightarrow> string \<Rightarrow> fs \<Rightarrow> errno + fs" where
  "write_data deny p data f =
     (case deny WriteData p of
        Some e \<Rightarrow> Inl (Refused e)
      | None \<Rightarrow>
          (case map_of f p of
             Some (RegFile c m) \<Rightarrow> Inr (dset p (RegFile (c @ data) m) f)
           | _ \<Rightarrow> Inl ENOENT))"

definition read_file :: "denials \<Rightarrow> string \<Rightarrow> fs \<Rightarrow> errno + string" where
  "read_file deny p f =
     (case map_of f p of
        None \<Rightarrow> Inl ENOENT
      | Some Directory \<Rightarrow> Inl EISDIR
      | Some (RegFile c m) \<Rightarrow> (case deny OpenRead p of Some e \<Rightarrow> Inl (Refused e) | None \<Rightarrow> Inr c))"

section \<open>Contents\<close>

definition contents :: "fs \<Rightarrow> string \<Rightarrow> string option" where
  "contents f p = (case map_of f p of Some (RegFile c m) \<Rightarrow> Some c | _ \<Rightarrow> None)"

definition file_mode :: "fs \<Rightarrow> string \<Rightarrow> int option" where
  "file_mode f p = (case map_of f p of Some (RegFile c m) \<Rightarrow> Some m | _ \<Rightarrow> None)"

lemma contents_exists: "contents f p = Some c \<Longrightarrow> os_path_exists f p"
  by (auto simp: contents_def os_path_exists_def split: option.splits)

lemma os_remove_Inr:
  "os_remove deny p f = Inr f' \<Longrightarrow> f' = ddel p f \<and> os_path_exists f p"
  by (auto simp: os_remove_def os_path_exists_def split: option.splits node.splits)

lemma os_remove_ENOENT:
  "\<not> os_path_exists f p \<Longrightarrow> os_remove deny p f = Inl ENOENT"
  by (simp add: os_remove_def os_path_exists_def)

lemma open_write_contents:
  assumes "open_trunc deny umask mode p f = Inr f1" and "write_data deny p data f1 = Inr f2"
  shows "contents f2 = (contents f)(p \<mapsto> data)"
    and "file_mode f2 p =
           (case file_mode f p of Some m \<Rightarrow> Some m | None \<Rightarrow> Some (mode AND NOT umask))"
proof -
  from assms obtain m where f1: "f1 = dset p (RegFile '''' m) f"
    and m: "m = (case file_mode f p of Some m \<Rightarrow> m | None \<Rightarrow> mode AND NOT umask)"
    by (auto simp: open_trunc_def file_mode_def split: option.splits node.splits)
  with assms(2) have f2: "f2 = dset p (RegFile data m) f1"
    by (auto simp: write_data_def split: option.splits)
  show "contents f2 = (contents f)(p \<mapsto> data)"
    by (rule ext) (simp add: contents_def f1 f2)
  show "file_mode f2 p =
      (case file_mode f p of Some m \<Rightarrow> Some m | None \<Rightarrow> Some (mode AND NOT umask))"
    using m by (simp add: file_mode_def f2 split: option.splits)
qed

text \<open>Nothing outside \<open>p\<close> changes.\<close>

definition only_at :: "string \<Rightarrow> fs \<Rightarrow> fs \<Rightarrow> bool" where
  "only_at p f f' \<longleftrightarrow> (\<forall>q. q \<noteq> p \<longrightarrow> map_of f' q = map_of f q)"

lemma only_at_refl [simp, intro]: "only_at p f f"
  by (simp add: only_at_def)

lemma only_at_trans [trans]: "only_at p f g \<Longrightarrow> only_at p g h \<Longrightarrow> only_at p f h"
  by (simp add: only_at_def)

lemma only_at_ops:
  "os_remove deny p f = Inr f' \<Longrightarrow> only_at p f f'"
  "open_trunc deny umask mode p f = Inr f' \<Longrightarrow> only_at p f f'"
  "write_data deny p data f = Inr f' \<Longrightarrow> only_at p f f'"
  by (auto simp: only_at_def os_remove_def open_trunc_def write_data_def
      split: option.splits node.splits)

section \<open>Attributes\<close>

text \<open>
  \<open>module.set_fs_attributes_if_different\<close> of Ansible: an argument, whether it changed the file
  and the new store. Its documented behaviour: it changes owner, mode and the like of that path,
  reports a change exactly when it made one, and never touches what a file holds.
\<close>

type_synonym set_attrs = "string \<Rightarrow> fs \<Rightarrow> bool \<times> fs"

definition attrs_ok :: "set_attrs \<Rightarrow> bool" where
  "attrs_ok sa \<longleftrightarrow>
     (\<forall>p f. contents (snd (sa p f)) = contents f \<and> only_at p f (snd (sa p f)) \<and>
        (os_path_exists (snd (sa p f)) p \<longleftrightarrow> os_path_exists f p) \<and>
        (fst (sa p f) \<longleftrightarrow> snd (sa p f) \<noteq> f))"

lemma attrs_okD:
  assumes "attrs_ok sa" and "sa p f = (b, f')"
  shows "contents f' = contents f" "only_at p f f'"
    "os_path_exists f' p \<longleftrightarrow> os_path_exists f p" "b \<longleftrightarrow> f' \<noteq> f"
  using assms unfolding attrs_ok_def by (metis fst_conv snd_conv)+

text \<open>The environment of a module that uses the library functions \<open>'l\<close>.\<close>

record 'l os_env =
  denied :: denials
  umask :: int
  fs_attrs :: set_attrs
  lib :: 'l
  pyopenssl_found :: bool

section \<open>The interface of a file managed by a module\<close>

text \<open>
  \<open>generate\<close> makes the file at the path and says whether anything changed; \<open>force\<close> asks for it
  to be made again. In an environment that behaves (\<open>behaves\<close>) the provider promises to leave an
  existing file's content alone when not forced, to have made the file when it returns, and to
  stay at its path.
\<close>

locale managed_file =
  fixes path_of :: "'p \<Rightarrow> string" and force_of :: "'p \<Rightarrow> bool" and behaves :: "'p \<Rightarrow> bool"
    and generate_at :: "'p \<Rightarrow> fs \<Rightarrow> (file_exc + bool) \<times> fs"
  assumes keeps:
      "behaves p \<Longrightarrow> os_path_exists f (path_of p) \<Longrightarrow> \<not> force_of p \<Longrightarrow>
         generate_at p f = (r, f') \<Longrightarrow> contents f' = contents f"
    and makes:
      "behaves p \<Longrightarrow> generate_at p f = (Inr ch, f') \<Longrightarrow> os_path_exists f' (path_of p)"
    and stays: "behaves p \<Longrightarrow> generate_at p f = (r, f') \<Longrightarrow> only_at (path_of p) f f'"
    and reports:
      "behaves p \<Longrightarrow> generate_at p f = (Inr ch, f') \<Longrightarrow> os_path_exists f (path_of p) \<Longrightarrow>
         \<not> force_of p \<Longrightarrow> ch = (f' \<noteq> f)"
begin

text \<open>A second run leaves what the first one made, and reports exactly what it changed.\<close>

lemma second_run:
  assumes "behaves p" and "\<not> force_of p"
    and "generate_at p f = (Inr ch, f1)" and "generate_at p f1 = (r, f2)"
  shows "contents f2 = contents f1 \<and> only_at (path_of p) f f2 \<and>
    (\<forall>ch2. r = Inr ch2 \<longrightarrow> ch2 = (f2 \<noteq> f1))"
proof (intro conjI allI impI)
  note ex = makes [OF assms(1,3)]
  show "contents f2 = contents f1" by (rule keeps [OF assms(1) ex assms(2,4)])
  show "only_at (path_of p) f f2"
    using stays [OF assms(1,3)] stays [OF assms(1,4)] by (rule only_at_trans)
  show "ch2 = (f2 \<noteq> f1)" if "r = Inr ch2" for ch2
    using reports [OF assms(1) _ ex assms(2)] assms(4) that by simp
qed

end

section \<open>How a module ends\<close>

text \<open>
  \<open>exit_json\<close> with a result, \<open>fail_json\<close> with a text of the module or with that of an
  exception it caught, or an exception nobody caught.
\<close>

datatype 'r file_outcome = Exited 'r | Failed string | FailedExc file_exc | Crashed file_exc

end
