(* ===== verification/Parted_Info.thy ===== *)
theory Parted_Info
  imports PyFloat OS_Files
begin

text \<open>
  The text side of \<open>lib/modules/parted.py\<close>: what the module reads from the output of
  \<open>parted\<close>, from \<open>/sys\<close> and from its parameters, and the size format it computes itself.
\<close>

section \<open>Units and sizes\<close>

definition units_si :: "string list" where
  "units_si = [''B'', ''KB'', ''MB'', ''GB'', ''TB'']"

definition units_iec :: "string list" where
  "units_iec = [''B'', ''KiB'', ''MiB'', ''GiB'', ''TiB'']"

definition parted_units :: "string list" where
  "parted_units = units_si @ units_iec @ [''s'', ''%'', ''cyl'', ''chs'', ''compact'']"

text \<open>A size is a number, a cylinder, head and sector, or the empty text of CHS partitions.\<close>

datatype psize = Num pyfloat | Chs int int int | NoSize

definition is_word :: "char \<Rightarrow> bool" where
  "is_word c \<longleftrightarrow> (let n = (of_char c :: nat) in
     is_digit c \<or> 65 \<le> n \<and> n \<le> 90 \<or> 97 \<le> n \<and> n \<le> 122 \<or> n = 95)"

definition is_unit_char :: "char \<Rightarrow> bool" where
  "is_unit_char c \<longleftrightarrow> is_word c \<or> c = CHR ''%''"

text \<open>The end of a pattern also matches before one newline at the end of the text.\<close>

definition drop_newline :: "string \<Rightarrow> string" where
  "drop_newline s = (if s \<noteq> [] \<and> last s = CHR 0x0A then butlast s else s)"

text \<open>The pattern \<open>^([\d.]+)([\w%]+)?$\<close>: where the longest first group fails, a shorter one fails.\<close>

definition match_size :: "string \<Rightarrow> (string \<times> string option) option" where
  "match_size s =
     (let t = drop_newline s; a = takeWhile is_decimal t; b = dropWhile is_decimal t
      in if a = [] then None
         else if b = [] then Some (a, None)
         else if list_all is_unit_char b then Some (a, Some b) else None)"

definition all_digits :: "string \<Rightarrow> bool" where
  "all_digits s \<longleftrightarrow> s \<noteq> [] \<and> list_all is_digit s"

text \<open>The pattern \<open>^(\d+),(\d+),(\d+)$\<close>.\<close>

definition match_chs :: "string \<Rightarrow> (string \<times> string \<times> string) option" where
  "match_chs s =
     (case split_on CHR '','' (drop_newline s) of
        [a, b, c] \<Rightarrow> if all_digits a \<and> all_digits b \<and> all_digits c then Some (a, b, c) else None
      | _ \<Rightarrow> None)"

definition parse_unit :: "string \<Rightarrow> string \<Rightarrow> exit + psize \<times> string" where
  "parse_unit size_str unit =
     (case match_size size_str of
        Some (a, b) \<Rightarrow>
          ebind (float_of_text a) (\<lambda>x. Inr (Num x, case b of Some u \<Rightarrow> u | None \<Rightarrow> unit))
      | None \<Rightarrow>
          (case match_chs size_str of
             Some (a, b, c) \<Rightarrow>
               Inr (Chs (int (nat_of_digits a)) (int (nat_of_digits b)) (int (nat_of_digits c)), ''chs'')
           | None \<Rightarrow>
               Inl (FailJson None (PStr (''Error interpreting parted size output: '' @
                      [CHR 0x27] @ size_str @ [CHR 0x27])))))"

definition check_size_format :: "string \<Rightarrow> exit + bool" where
  "check_size_format size_str =
     ebind (parse_unit size_str '''') (\<lambda>(size, unit). Inr (unit \<in> set parted_units))"

section \<open>The machine readable listing\<close>

record chs_info =
  cylinders :: int
  heads :: int
  sectors :: int
  cyl_size :: psize
  cyl_size_unit :: string

record generic_info =
  dev :: string
  g_size :: psize
  g_unit :: string
  table :: string
  model :: string
  logical_block :: int
  physical_block :: int
  g_chs :: "chs_info option"

record part =
  num :: int
  p_begin :: psize
  p_end :: psize
  p_size :: psize
  fstype :: string
  p_flags :: "string list"
  p_unit :: string

record device_info =
  generic :: generic_info
  partitions :: "part list"

definition py_nth :: "'a list \<Rightarrow> nat \<Rightarrow> exit + 'a" where
  "py_nth xs i = (if i < length xs then Inr (xs ! i)
                  else Inl (Raise (IndexError ''list index out of range'')))"

definition rstrip_char :: "char \<Rightarrow> string \<Rightarrow> string" where
  "rstrip_char c s = rev (dropWhile (\<lambda>x. x = c) (rev s))"

text \<open>\<open>line.rstrip(';').split(':')\<close>\<close>

definition split_fields :: "string \<Rightarrow> string list" where
  "split_fields line = split_on CHR '':'' (rstrip_char CHR '';'' line)"

definition nonblank_lines :: "string \<Rightarrow> string list" where
  "nonblank_lines out = filter (\<lambda>x. strip x \<noteq> []) (split_on CHR 0x0A out)"

text \<open>\<open>s.split(', ')\<close>\<close>

fun split_comma :: "string \<Rightarrow> string list" where
  "split_comma [] = [[]]"
| "split_comma (c # xs) =
     (if c = CHR '','' \<and> xs \<noteq> [] \<and> hd xs = CHR '' '' then [] # split_comma (tl xs)
      else case split_comma xs of f # fs \<Rightarrow> (c # f) # fs | [] \<Rightarrow> [[c]])"

definition parse_flags :: "string \<Rightarrow> string list" where
  "parse_flags flags = map strip (filter (\<lambda>f. f \<noteq> []) (split_comma flags))"

definition parse_generic :: "string list \<Rightarrow> psize \<Rightarrow> string \<Rightarrow> exit + generic_info" where
  "parse_generic ps sz unit =
     ebind (py_nth ps 0) (\<lambda>d.
     ebind (py_nth ps 5) (\<lambda>t.
     ebind (py_nth ps 6) (\<lambda>m.
     ebind (ebind (py_nth ps 3) py_int) (\<lambda>lb.
     ebind (ebind (py_nth ps 4) py_int) (\<lambda>pb.
       Inr \<lparr>dev = d, g_size = sz, g_unit = lower unit, table = t, model = m,
            logical_block = lb, physical_block = pb, g_chs = None\<rparr>)))))"

definition parse_chs_info :: "string list \<Rightarrow> exit + chs_info" where
  "parse_chs_info ps =
     ebind (py_nth ps 3) (\<lambda>s.
     ebind (parse_unit s '''') (\<lambda>(sz, unit).
     ebind (ebind (py_nth ps 0) py_int) (\<lambda>c.
     ebind (ebind (py_nth ps 1) py_int) (\<lambda>h.
     ebind (ebind (py_nth ps 2) py_int) (\<lambda>s.
       Inr \<lparr>cylinders = c, heads = h, sectors = s, cyl_size = sz, cyl_size_unit = lower unit\<rparr>)))))"

text \<open>The size, file system and flags of a line; CHS lines have no size.\<close>

definition part_fields :: "string \<Rightarrow> string list \<Rightarrow> exit + psize \<times> string \<times> string" where
  "part_fields unit ps =
     (if unit \<noteq> ''chs'' then
        ebind (ebind (py_nth ps 3) (\<lambda>s. parse_unit s '''')) (\<lambda>(sz, _).
        ebind (py_nth ps 4) (\<lambda>fs.
        ebind (py_nth ps 6) (\<lambda>fl. Inr (sz, fs, fl))))
      else
        ebind (py_nth ps 3) (\<lambda>fs.
        ebind (py_nth ps 5) (\<lambda>fl. Inr (NoSize, fs, fl))))"

definition parse_part :: "string \<Rightarrow> string \<Rightarrow> exit + part" where
  "parse_part unit line =
     (let ps = split_fields line in
      ebind (part_fields unit ps) (\<lambda>(sz, fs, fl).
      ebind (ebind (py_nth ps 0) py_int) (\<lambda>n.
      ebind (ebind (py_nth ps 1) (\<lambda>s. parse_unit s '''')) (\<lambda>(b, _).
      ebind (ebind (py_nth ps 2) (\<lambda>s. parse_unit s '''')) (\<lambda>(e, _).
        Inr \<lparr>num = n, p_begin = b, p_end = e, p_size = sz, fstype = fs,
             p_flags = parse_flags fl, p_unit = lower unit\<rparr>)))))"

definition parse_partition_info :: "string \<Rightarrow> string \<Rightarrow> exit + device_info" where
  "parse_partition_info parted_output unit =
     (let lines = nonblank_lines parted_output in
      ebind (py_nth lines 1) (\<lambda>line.
      ebind (py_nth (split_fields line) 1) (\<lambda>s.
      ebind (parse_unit s unit) (\<lambda>(sz, unit).
      ebind (parse_generic (split_fields line) sz unit) (\<lambda>g.
      ebind (if unit = ''cyl'' \<or> unit = ''chs'' then
               ebind (py_nth lines 2) (\<lambda>l.
               ebind (parse_chs_info (split_fields l)) (\<lambda>c. Inr (g\<lparr>g_chs := Some c\<rparr>, drop 1 lines)))
             else Inr (g, lines)) (\<lambda>(g, lines).
      ebind (emap (parse_part unit) (drop 2 lines)) (\<lambda>ps.
        Inr \<lparr>generic = g, partitions = ps\<rparr>)))))))"

section \<open>The version\<close>

text \<open>
  The pattern \<open>^parted.+(\d+)\.(\d+)(?:\.(\d+))?$\<close>. \<open>version_at\<close> matches its groups from a given
  position to the end of the line; since \<open>.+\<close> takes as much as it can, the match is the one
  that starts last.
\<close>

definition version_at :: "string \<Rightarrow> (int \<times> int \<times> int) option" where
  "version_at s =
     (case split_on CHR ''.'' s of
        [a, b] \<Rightarrow> if all_digits a \<and> all_digits b
                  then Some (int (nat_of_digits a), int (nat_of_digits b), 0) else None
      | [a, b, c] \<Rightarrow> if all_digits a \<and> all_digits b \<and> all_digits c
                  then Some (int (nat_of_digits a), int (nat_of_digits b), int (nat_of_digits c))
                  else None
      | _ \<Rightarrow> None)"

fun version_search :: "string \<Rightarrow> (int \<times> int \<times> int) option" where
  "version_search [] = None"
| "version_search (c # cs) =
     (case version_search cs of Some v \<Rightarrow> Some v | None \<Rightarrow> version_at (c # cs))"

definition parse_version :: "string \<Rightarrow> exit + int \<times> int \<times> int" where
  "parse_version out =
     (let failed = Inl (FailJson None (PStr ''Failed to get parted version.'')) in
      case nonblank_lines out of
        [] \<Rightarrow> failed
      | line # _ \<Rightarrow>
          if take 6 line = ''parted'' \<and> length line > 6
          then (case version_search (drop 7 line) of Some v \<Rightarrow> Inr v | None \<Rightarrow> failed)
          else failed)"

section \<open>Unlabelled devices\<close>

fun index_of :: "'a \<Rightarrow> 'a list \<Rightarrow> nat option" where
  "index_of x [] = None"
| "index_of x (y # ys) = (if x = y then Some 0 else map_option Suc (index_of x ys))"

definition multiplier :: "string \<Rightarrow> rat" where
  "multiplier unit =
     (case index_of unit units_si of
        Some i \<Rightarrow> 1000 ^ i
      | None \<Rightarrow> (case index_of unit units_iec of Some i \<Rightarrow> 1024 ^ i | None \<Rightarrow> 1))"

text \<open>
  The unit for the compact format. \<open>math.log10\<close> is the platform's routine: the argument
  \<open>lg\<close> gives its result, or the \<open>ValueError\<close> it raises for a negative number.
\<close>

definition compact_unit :: "(int \<Rightarrow> exit + rat) \<Rightarrow> int \<Rightarrow> exit + string" where
  "compact_unit lg size_bytes =
     ebind (lg size_bytes) (\<lambda>l.
       let index = max 0 (trunc (flo (flo (l - 1) / 3)))
       in Inr (if index < int (length units_si) then units_si ! nat index else ''b''))"

definition round_size :: "rat \<Rightarrow> rat" where
  "round_size out =
     (let w = (if out < 10 then flo (out + flo (5 / 1000))
               else if out < 100 then flo (out + flo (5 / 100))
               else flo (out + 1 / 2));
          precision = (if w < 10 then 2 else if w < 100 then 1 else 0)
      in py_round out precision)"

text \<open>\<open>format_disk_size\<close> returns a bare number for size zero, a pair otherwise.\<close>

datatype disk_size = Bare rat | Sized rat string

definition format_disk_size :: "(int \<Rightarrow> exit + rat) \<Rightarrow> int \<Rightarrow> string \<Rightarrow> exit + disk_size" where
  "format_disk_size lg size_bytes unit =
     (let unit = lower unit in
      if size_bytes = 0 then Inr (Bare 0)
      else
        ebind (if unit \<in> {'''', ''compact'', ''cyl'', ''chs''} then compact_unit lg size_bytes
               else Inr unit) (\<lambda>unit.
        ebind (float_of_int size_bytes) (\<lambda>b.
          Inr (Sized (round_size (flo (flo (b / multiplier unit) * flo (1 + flo (1 / 10 ^ 16))))) unit))))"

text \<open>The first line of a file, stripped; \<open>None\<close> where opening it fails.\<close>

definition read_record :: "(string \<Rightarrow> string option) \<Rightarrow> string \<Rightarrow> string option" where
  "read_record files path =
     map_option (\<lambda>t. strip (takeWhile (\<lambda>c. c \<noteq> CHR 0x0A) t)) (files path)"

definition read_text :: "(string \<Rightarrow> string option) \<Rightarrow> string \<Rightarrow> string \<Rightarrow> string" where
  "read_text files path dflt = (case read_record files path of Some t \<Rightarrow> t | None \<Rightarrow> dflt)"

definition read_int :: "(string \<Rightarrow> string option) \<Rightarrow> string \<Rightarrow> exit + int" where
  "read_int files path = (case read_record files path of Some t \<Rightarrow> py_int t | None \<Rightarrow> Inr 0)"

definition get_unlabeled_device_info ::
  "(int \<Rightarrow> exit + rat) \<Rightarrow> (string \<Rightarrow> string option) \<Rightarrow> string \<Rightarrow> string \<Rightarrow> exit + device_info" where
  "get_unlabeled_device_info lg files device unit =
     (let base = ''/sys/block/'' @ os_path_basename device;
          vendor = read_text files (base @ ''/device/vendor'') ''Unknown'';
          mdl = read_text files (base @ ''/device/model'') ''model''
      in
      ebind (read_int files (base @ ''/queue/logical_block_size'')) (\<lambda>lb.
      ebind (read_int files (base @ ''/queue/physical_block_size'')) (\<lambda>pb.
      ebind (read_int files (base @ ''/size'')) (\<lambda>n.
      ebind (format_disk_size lg (n * lb) unit) (\<lambda>r.
        case r of
          Bare _ \<Rightarrow> Inl (Raise (TypeError ([CHR 0x27] @ ''float'' @ [CHR 0x27] @ '' object is not iterable'')))
        | Sized sz u \<Rightarrow>
            Inr \<lparr>generic = \<lparr>dev = device, g_size = Num (Fin sz), g_unit = u, table = ''unknown'',
                   model = vendor @ '' '' @ mdl, logical_block = lb, physical_block = pb,
                   g_chs = None\<rparr>,
                 partitions = []\<rparr>)))))"

section \<open>Sizes a task may give\<close>

lemma parted_units_start:
  assumes "u \<in> set parted_units"
  shows "u \<noteq> [] \<and> \<not> is_decimal (hd u) \<and> list_all is_unit_char u"
proof -
  have "list_all (\<lambda>u. u \<noteq> [] \<and> \<not> is_decimal (hd u) \<and> list_all is_unit_char u) parted_units"
    by code_simp
  with assms show ?thesis unfolding list_all_iff by blast
qed

lemma match_size_append:
  assumes "drop_newline s = a @ u" and "a \<noteq> []" and "list_all is_decimal a"
    and "u \<noteq> []" and "\<not> is_decimal (hd u)" and "list_all is_unit_char u"
  shows "match_size s = Some (a, Some u)"
proof -
  have "takeWhile is_decimal (a @ u) = a" "dropWhile is_decimal (a @ u) = u"
    using assms(3-5) by (cases u; simp add: list_all_iff)+
  with assms show ?thesis by (simp add: match_size_def)
qed

lemma match_size_None_chs: "match_chs s = Some abc \<Longrightarrow> match_size s = None"
proof -
  assume "match_chs s = Some abc"
  then obtain a b c where "split_on CHR '','' (drop_newline s) = [a, b, c]"
    by (auto simp: match_chs_def split: list.splits if_splits)
  then have "CHR '','' \<in> set (drop_newline s)"
    using split_on_no_sep_single by (metis list.distinct(1) list.inject)
  then have c: "CHR '','' \<in> set (takeWhile is_decimal (drop_newline s)) \<or>
      CHR '','' \<in> set (dropWhile is_decimal (drop_newline s))"
    by (metis Un_iff set_append takeWhile_dropWhile_id)
  moreover have n: "\<not> is_decimal CHR '',''" "\<not> is_unit_char CHR '',''" by code_simp+
  ultimately have "CHR '','' \<in> set (dropWhile is_decimal (drop_newline s))"
    by (blast dest: set_takeWhileD)
  then have "dropWhile is_decimal (drop_newline s) \<noteq> []"
    and "\<not> list_all is_unit_char (dropWhile is_decimal (drop_newline s))"
    using n(2) unfolding list_all_iff by (metis empty_iff empty_set, blast)
  then show ?thesis by (simp add: match_size_def Let_def del: dropWhile_eq_Nil_conv)
qed

text \<open>A size is accepted exactly when it is a decimal number followed by one of the units, in that
  spelling, or a cylinder, head and sector triple; a number without a unit is refused.\<close>

theorem size_format_accepted:
  "check_size_format s = Inr True \<longleftrightarrow>
     (\<exists>a u x. drop_newline s = a @ u \<and> float_of_text a = Inr x \<and> u \<in> set parted_units) \<or>
     (\<exists>abc. match_chs s = Some abc)"
proof (cases "match_chs s")
  case (Some abc)
  have "''chs'' \<in> set parted_units" by code_simp
  with Some match_size_None_chs [OF Some] show ?thesis
    by (auto simp: check_size_format_def parse_unit_def split: prod.splits)
next
  case None
  have empty: "'''' \<notin> set parted_units" by code_simp
  show ?thesis
  proof
    assume "check_size_format s = Inr True"
    with None empty obtain a u x where m: "match_size s = Some (a, Some u)" "float_of_text a = Inr x"
      "u \<in> set parted_units"
      by (auto simp: check_size_format_def parse_unit_def err_simps split: option.splits)
    moreover from m(1) have "drop_newline s = a @ u"
      by (auto simp: match_size_def Let_def split: if_splits)
    ultimately show "(\<exists>a u x. drop_newline s = a @ u \<and> float_of_text a = Inr x \<and>
        u \<in> set parted_units) \<or> (\<exists>abc. match_chs s = Some abc)"
      by blast
  next
    assume "(\<exists>a u x. drop_newline s = a @ u \<and> float_of_text a = Inr x \<and>
        u \<in> set parted_units) \<or> (\<exists>abc. match_chs s = Some abc)"
    with None obtain a u x where s: "drop_newline s = a @ u" "float_of_text a = Inr x"
      "u \<in> set parted_units" by auto
    with match_size_append [OF s(1)] parted_units_start [OF s(3)] float_of_text_decimal [OF s(2)]
    show "check_size_format s = Inr True"
      by (simp add: check_size_format_def parse_unit_def)
  qed
qed

theorem size_format_accepted_witness: "check_size_format ''10GiB'' = Inr True"
  using float_of_digits [of "''10''"]
  by (intro size_format_accepted [THEN iffD2] disjI1 exI [of _ "''10''"] exI [of _ "''GiB''"])
    (simp add: drop_newline_def is_digit_def nat_of_digits_def digit_val_def parted_units_def
      units_si_def units_iec_def)

section \<open>Reading a listing back\<close>

text \<open>
  A listing as \<open>parted -m\<close> prints it: a line with the mode of the units, the line of the device, with
  units \<open>cyl\<close> and \<open>chs\<close> a line with the geometry, and one line per partition. A printed size is a
  decimal number with its unit, or a cylinder, head and sector.
\<close>

datatype printed = Amount nat "nat list" string | CylHeadSec nat nat nat

fun size_text :: "printed \<Rightarrow> string" where
  "size_text (Amount n ds u) =
     show_nat n @ (if ds = [] then [] else CHR ''.'' # map digit_char ds) @ u"
| "size_text (CylHeadSec c h s) = show_nat c @ '','' @ show_nat h @ '','' @ show_nat s"

text \<open>The number a size stands for, as the double nearest to it, and its unit.\<close>

fun decimals :: "nat list \<Rightarrow> rat" where
  "decimals [] = 0"
| "decimals (d # ds) = (of_nat d + decimals ds) / 10"

fun size_value :: "printed \<Rightarrow> psize" where
  "size_value (Amount n ds u) = Num (double (of_nat n + decimals ds))"
| "size_value (CylHeadSec c h s) = Chs (int c) (int h) (int s)"

fun size_unit :: "printed \<Rightarrow> string" where
  "size_unit (Amount n ds u) = u"
| "size_unit (CylHeadSec c h s) = ''chs''"

fun size_ok :: "printed \<Rightarrow> bool" where
  "size_ok (Amount n ds u) \<longleftrightarrow> list_all (\<lambda>d. d < 10) ds \<and> u \<noteq> [] \<and> \<not> is_decimal (hd u) \<and>
     list_all is_unit_char u"
| "size_ok (CylHeadSec c h s) \<longleftrightarrow> True"

record device_line =
  d_path :: string
  d_size :: printed
  d_transport :: string
  d_logical :: int
  d_physical :: int
  d_table :: string
  d_model :: string

record geometry_line =
  y_cylinders :: int
  y_heads :: int
  y_sectors :: int
  y_cyl_size :: printed

record part_line =
  l_num :: int
  l_begin :: printed
  l_end :: printed
  l_size :: printed
  l_fstype :: string
  l_name :: string
  l_flags :: "string list"

definition plain :: "string \<Rightarrow> bool" where
  "plain f \<longleftrightarrow> CHR '':'' \<notin> set f \<and> CHR '';'' \<notin> set f \<and> CHR 0x0A \<notin> set f"

definition line_of :: "string list \<Rightarrow> string" where
  "line_of fs = join '':'' fs @ '';''"

definition device_fields :: "device_line \<Rightarrow> string list" where
  "device_fields d = [d_path d, size_text (d_size d), d_transport d, show_int (d_logical d),
     show_int (d_physical d), d_table d, d_model d, []]"

definition geometry_fields :: "geometry_line \<Rightarrow> string list" where
  "geometry_fields y = [show_int (y_cylinders y), show_int (y_heads y), show_int (y_sectors y),
     size_text (y_cyl_size y)]"

text \<open>With unit \<open>chs\<close> a partition has no size.\<close>

definition part_texts :: "string \<Rightarrow> part_line \<Rightarrow> string list" where
  "part_texts unit q = [show_int (l_num q), size_text (l_begin q), size_text (l_end q)] @
     (if unit = ''chs'' then [] else [size_text (l_size q)]) @
     [l_fstype q, l_name q, join '', '' (l_flags q)]"

definition listing_lines :: "device_line \<Rightarrow> geometry_line \<Rightarrow> part_line list \<Rightarrow> string list" where
  "listing_lines d y qs =
     (let unit = size_unit (d_size d) in
      (if unit = ''cyl'' then ''CYL;'' else if unit = ''chs'' then ''CHS;'' else ''BYT;'') #
      map line_of (device_fields d #
        (if unit = ''cyl'' \<or> unit = ''chs'' then [geometry_fields y] else []) @
        map (part_texts unit) qs))"

definition listing :: "device_line \<Rightarrow> geometry_line \<Rightarrow> part_line list \<Rightarrow> string" where
  "listing d y qs = join [CHR 0x0A] (listing_lines d y qs @ [[]])"

text \<open>A flag is a word: not empty, no comma and no white space.\<close>

definition flag_word :: "string \<Rightarrow> bool" where
  "flag_word f \<longleftrightarrow> f \<noteq> [] \<and> CHR '','' \<notin> set f \<and> (\<forall>c \<in> set f. \<not> is_space c)"

definition listing_ok :: "device_line \<Rightarrow> geometry_line \<Rightarrow> part_line list \<Rightarrow> bool" where
  "listing_ok d y qs \<longleftrightarrow>
     list_all plain [d_path d, d_transport d, d_table d, d_model d] \<and> size_ok (d_size d) \<and>
     size_ok (y_cyl_size y) \<and>
     list_all (\<lambda>q. list_all plain (l_fstype q # l_name q # l_flags q) \<and> list_all flag_word (l_flags q) \<and>
        list_all size_ok [l_begin q, l_end q, l_size q]) qs"

text \<open>What the lines mean.\<close>

definition geometry_value :: "geometry_line \<Rightarrow> chs_info" where
  "geometry_value y =
     \<lparr>cylinders = y_cylinders y, heads = y_heads y, sectors = y_sectors y,
      cyl_size = size_value (y_cyl_size y), cyl_size_unit = lower (size_unit (y_cyl_size y))\<rparr>"

definition device_value :: "device_line \<Rightarrow> geometry_line \<Rightarrow> generic_info" where
  "device_value d y =
     (let unit = size_unit (d_size d) in
      \<lparr>dev = d_path d, g_size = size_value (d_size d), g_unit = lower unit, table = d_table d,
       model = d_model d, logical_block = d_logical d, physical_block = d_physical d,
       g_chs = (if unit = ''cyl'' \<or> unit = ''chs'' then Some (geometry_value y) else None)\<rparr>)"

definition part_value :: "string \<Rightarrow> part_line \<Rightarrow> part" where
  "part_value unit q =
     \<lparr>num = l_num q, p_begin = size_value (l_begin q), p_end = size_value (l_end q),
      p_size = (if unit = ''chs'' then NoSize else size_value (l_size q)), fstype = l_fstype q,
      p_flags = l_flags q, p_unit = lower unit\<rparr>"

subsection \<open>Sizes\<close>

lemma show_nat_list: "show_nat n \<noteq> []" "list_all is_digit (show_nat n)"
  using show_nat_digits by blast+

lemma digits_decimal: "list_all is_digit a \<Longrightarrow> list_all is_decimal a \<and> CHR ''.'' \<notin> set a"
  by (auto simp: list_all_iff is_decimal_def is_digit_def)

lemma nat_of_digits_append:
  "list_all (\<lambda>d. d < 10) ds \<Longrightarrow>
     of_nat (nat_of_digits (a @ map digit_char ds)) / 10 ^ length ds = of_nat (nat_of_digits a) + decimals ds"
proof (induction ds arbitrary: a)
  case (Cons d ds)
  have "nat_of_digits (a @ [digit_char d]) = 10 * nat_of_digits a + d"
    using Cons.prems by (simp add: nat_of_digits_def digit_val_digit_char)
  with Cons.IH [of "a @ [digit_char d]"] Cons.prems show ?case
    by (simp add: field_simps)
qed simp

lemma digit_chars: "list_all (\<lambda>d. d < 10) ds \<Longrightarrow> list_all is_digit (map digit_char ds)"
  by (simp add: list_all_iff is_digit_digit_char)

lemma float_of_amount:
  assumes "list_all (\<lambda>d. d < 10) ds"
  shows "float_of_text (show_nat n @ (if ds = [] then [] else CHR ''.'' # map digit_char ds)) =
    Inr (double (of_nat n + decimals ds))"
proof -
  note a = show_nat_list [of n] digits_decimal [OF show_nat_list(2), of n]
  note b = digits_decimal [OF digit_chars [OF assms]]
  have "split_on CHR ''.'' (show_nat n @ CHR ''.'' # map digit_char ds) = [show_nat n, map digit_char ds]"
    using split_on_join [of "[show_nat n, map digit_char ds]" "CHR ''.''"] a b by simp
  moreover have "split_on CHR ''.'' (show_nat n) = [show_nat n]"
    using a by (simp add: split_on_no_sep_single)
  moreover have "is_decimal CHR ''.''" by (simp add: is_decimal_def)
  ultimately show ?thesis
    using a b nat_of_digits_append [OF assms, of "show_nat n"]
    by (simp add: float_of_text_def nat_of_digits_show_nat Let_def)
qed

lemma parse_chs_size:
  assumes "all_digits a" and "all_digits b" and "all_digits c"
  shows "parse_unit (a @ '','' @ b @ '','' @ c) unit =
    Inr (Chs (int (nat_of_digits a)) (int (nat_of_digits b)) (int (nat_of_digits c)), ''chs'')"
proof -
  have no: "CHR '','' \<notin> set x \<and> CHR 0x0A \<notin> set x" if "all_digits x" for x
    using that by (auto simp: all_digits_def list_all_iff is_digit_def)
  let ?s = "a @ '','' @ b @ '','' @ c"
  have "last ?s = last c" "c \<noteq> []" using assms(3) by (auto simp: all_digits_def)
  then have "drop_newline ?s = ?s" using no [OF assms(3)] by (metis drop_newline_def last_in_set)
  moreover have "split_on CHR '','' ?s = [a, b, c]"
    using split_on_join [of "[a, b, c]" "CHR '',''"] no assms by simp
  ultimately have "match_chs ?s = Some (a, b, c)" using assms by (simp add: match_chs_def)
  with match_size_None_chs [OF this] show ?thesis by (simp add: parse_unit_def)
qed

text \<open>Every printed size is read as what it stands for.\<close>

lemma parse_size:
  assumes "size_ok z"
  shows "parse_unit (size_text z) unit = Inr (size_value z, size_unit z)"
proof (cases z)
  case (Amount n ds u)
  let ?a = "show_nat n @ (if ds = [] then [] else CHR ''.'' # map digit_char ds)"
  have u: "u \<noteq> []" "\<not> is_decimal (hd u)" "list_all is_unit_char u" "list_all (\<lambda>d. d < 10) ds"
    using assms Amount by simp_all
  have a: "?a \<noteq> []" "list_all is_decimal ?a"
    using show_nat_list [of n] digits_decimal [OF show_nat_list(2), of n] digits_decimal [OF digit_chars [OF u(4)]]
    by (simp_all add: is_decimal_def [of "CHR ''.''"])
  have "is_unit_char (last u)" using u(1,3) by (simp add: list_all_iff)
  then have "last u \<noteq> CHR 0x0A" by (auto simp: is_unit_char_def is_word_def is_digit_def)
  then have "drop_newline (?a @ u) = ?a @ u" using u(1) by (simp add: drop_newline_def)
  from match_size_append [OF this a u(1-3)] float_of_amount [OF u(4), of n] show ?thesis
    by (simp add: Amount parse_unit_def)
next
  case (CylHeadSec c h s)
  have "all_digits (show_nat k)" for k using show_nat_list by (simp add: all_digits_def)
  from parse_chs_size [OF this this this, of c h s] show ?thesis
    by (simp add: CylHeadSec nat_of_digits_show_nat)
qed

lemma plain_digits: "list_all is_digit s \<Longrightarrow> plain s"
  by (auto simp: plain_def list_all_iff is_digit_def)

lemma plain_append [simp]: "plain (a @ b) \<longleftrightarrow> plain a \<and> plain b"
  by (auto simp: plain_def)

lemma plain_size: "size_ok z \<Longrightarrow> plain (size_text z)"
proof (cases z)
  case (Amount n ds u)
  assume "size_ok z"
  with Amount have u: "list_all is_unit_char u" "list_all (\<lambda>d. d < 10) ds" by simp_all
  have "plain u" using u(1) by (auto simp: plain_def list_all_iff is_unit_char_def is_word_def is_digit_def)
  moreover have "plain (CHR ''.'' # map digit_char ds)"
    using plain_digits [OF digit_chars [OF u(2)]] by (simp add: plain_def)
  ultimately show ?thesis using plain_digits [OF show_nat_list(2)] by (simp add: Amount plain_def)
next
  case (CylHeadSec c h s)
  then show ?thesis using plain_digits [OF show_nat_list(2)] by (simp add: plain_def)
qed

subsection \<open>Lines\<close>

lemma plain_show_int: "plain (show_int i)"
proof -
  have "plain (CHR ''-'' # s) \<longleftrightarrow> plain s" for s by (simp add: plain_def)
  then show ?thesis using plain_digits [OF show_nat_list(2)] by (simp add: show_int_def)
qed

lemma join_no_char:
  assumes "list_all (\<lambda>f. c \<notin> set f) fs" and "c \<notin> set sep"
  shows "c \<notin> set (join sep fs)"
  using assms by (induction sep fs rule: join.induct) auto

lemma plain_join: "list_all plain fs \<Longrightarrow> plain sep \<Longrightarrow> plain (join sep fs)"
  by (induction sep fs rule: join.induct) (auto simp: plain_def)

lemma rstrip_line: "CHR '';'' \<notin> set s \<Longrightarrow> rstrip_char CHR '';'' (s @ '';'') = s"
  by (cases s rule: rev_cases) (auto simp: rstrip_char_def)

lemma split_fields_line_of:
  assumes "list_all plain fs" and "fs \<noteq> []"
  shows "split_fields (line_of fs) = fs"
proof -
  have "CHR '';'' \<notin> set (join '':'' fs)"
    using assms(1) by (intro join_no_char) (auto simp: plain_def list_all_iff)
  then have "split_fields (line_of fs) = split_on CHR '':'' (join [CHR '':''] fs)"
    by (simp add: split_fields_def line_of_def rstrip_line)
  also have "\<dots> = fs"
    using assms by (intro split_on_join) (auto simp: plain_def list_all_iff)
  finally show ?thesis .
qed

lemma line_of_no_newline: "list_all plain fs \<Longrightarrow> CHR 0x0A \<notin> set (line_of fs)"
  unfolding line_of_def
  using join_no_char [of "CHR 0x0A" fs "'':''"] by (auto simp: plain_def list_all_iff)

lemma strip_not_Nil:
  assumes x: "x \<in> set s" "\<not> is_space x"
  shows "strip s \<noteq> []"
proof
  assume "strip s = []"
  then have "\<forall>y \<in> set (dropWhile is_space s). is_space y"
    by (simp add: strip_def dropWhile_eq_Nil_conv)
  moreover have "x \<in> set (dropWhile is_space s)"
    using x by (induction s) auto
  ultimately show False using x(2) by blast
qed

lemma line_of_not_blank: "strip (line_of fs) \<noteq> []"
  by (rule strip_not_Nil [of "CHR '';''"]) (simp_all add: line_of_def is_space_def)

lemma dropWhile_space_word: "(\<forall>c \<in> set f. \<not> is_space c) \<Longrightarrow> dropWhile is_space f = f"
  by (cases f) auto

lemma strip_word: "(\<forall>c \<in> set f. \<not> is_space c) \<Longrightarrow> strip f = f"
  using dropWhile_space_word [of f] dropWhile_space_word [of "rev f"] by (simp add: strip_def)

lemma split_comma_plain: "CHR '','' \<notin> set s \<Longrightarrow> split_comma s = [s]"
  by (induction s) auto

lemma split_comma_append: "CHR '','' \<notin> set s \<Longrightarrow> split_comma (s @ '', '' @ t) = s # split_comma t"
  by (induction s) auto

lemma split_comma_join:
  assumes "\<forall>f \<in> set fs. CHR '','' \<notin> set f" and "fs \<noteq> []"
  shows "split_comma (join '', '' fs) = fs"
  using assms
proof (induction "'', ''" fs rule: join.induct)
  case (3 x y zs)
  then show ?case using split_comma_append [of x "join '', '' (y # zs)"] by simp
qed (simp_all add: split_comma_plain)

lemma parse_flags_join:
  assumes "list_all flag_word fs"
  shows "parse_flags (join '', '' fs) = fs"
proof (cases "fs = []")
  case False
  have "map strip fs = fs"
    using assms by (intro map_idI) (auto simp: flag_word_def list_all_iff strip_word)
  moreover have "filter (\<lambda>f. f \<noteq> []) fs = fs"
    using assms by (auto simp: flag_word_def list_all_iff filter_id_conv)
  moreover have "split_comma (join '', '' fs) = fs"
    using assms False by (intro split_comma_join) (auto simp: flag_word_def list_all_iff)
  ultimately show ?thesis by (simp add: parse_flags_def)
qed (simp add: parse_flags_def)

lemma device_fields_plain: "listing_ok d y qs \<Longrightarrow> list_all plain (device_fields d)"
  by (simp add: listing_ok_def device_fields_def plain_show_int plain_size) (simp add: plain_def)

lemma geometry_fields_plain: "listing_ok d y qs \<Longrightarrow> list_all plain (geometry_fields y)"
  by (simp add: listing_ok_def geometry_fields_def plain_show_int plain_size)

lemma part_texts_plain:
  assumes "listing_ok d y qs" and "q \<in> set qs"
  shows "list_all plain (part_texts unit q)"
proof -
  have sep: "plain '', ''" by (simp add: plain_def)
  have "list_all plain (l_fstype q # l_name q # l_flags q)" "list_all size_ok [l_begin q, l_end q, l_size q]"
    using assms by (auto simp: listing_ok_def list_all_iff)
  with plain_join [OF _ sep, of "l_flags q"] show ?thesis
    by (simp add: part_texts_def plain_show_int plain_size)
qed

lemma parse_part_line:
  assumes "listing_ok d y qs" and "q \<in> set qs"
  shows "parse_part unit (line_of (part_texts unit q)) = Inr (part_value unit q)"
proof -
  have ok: "size_ok (l_begin q)" "size_ok (l_end q)" "size_ok (l_size q)" "list_all flag_word (l_flags q)"
    using assms by (auto simp: listing_ok_def list_all_iff)
  have "split_fields (line_of (part_texts unit q)) = part_texts unit q"
    by (rule split_fields_line_of [OF part_texts_plain [OF assms]]) (simp add: part_texts_def)
  then show ?thesis
    by (simp add: parse_part_def part_fields_def part_value_def part_texts_def py_nth_def
        py_int_show_int eval_nat_numeral parse_size ok parse_flags_join [OF ok(4)])
qed

lemma parse_device_line:
  assumes "listing_ok d y qs"
  shows "split_fields (line_of (device_fields d)) = device_fields d"
    and "parse_generic (device_fields d) sz unit =
      Inr \<lparr>dev = d_path d, g_size = sz, g_unit = lower unit, table = d_table d, model = d_model d,
        logical_block = d_logical d, physical_block = d_physical d, g_chs = None\<rparr>"
    and "py_nth (device_fields d) 1 = Inr (size_text (d_size d))"
proof -
  show "split_fields (line_of (device_fields d)) = device_fields d"
    by (rule split_fields_line_of [OF device_fields_plain [OF assms]]) (simp add: device_fields_def)
qed (simp_all add: parse_generic_def device_fields_def py_nth_def py_int_show_int eval_nat_numeral)

lemma parse_geometry_line:
  assumes "listing_ok d y qs"
  shows "parse_chs_info (split_fields (line_of (geometry_fields y))) = Inr (geometry_value y)"
proof -
  have "split_fields (line_of (geometry_fields y)) = geometry_fields y"
    by (rule split_fields_line_of [OF geometry_fields_plain [OF assms]]) (simp add: geometry_fields_def)
  with assms show ?thesis
    by (simp add: parse_chs_info_def geometry_fields_def geometry_value_def py_nth_def py_int_show_int
        eval_nat_numeral parse_size listing_ok_def)
qed

lemma nonblank_listing:
  assumes "listing_ok d y qs"
  shows "nonblank_lines (listing d y qs) = listing_lines d y qs"
proof -
  let ?ls = "listing_lines d y qs"
  have hd: "strip l \<noteq> [] \<and> CHR 0x0A \<notin> set l" if "l \<in> {''CYL;'', ''CHS;'', ''BYT;''}" for l
  proof -
    have "list_all (\<lambda>l. strip l \<noteq> [] \<and> CHR 0x0A \<notin> set l) [''CYL;'', ''CHS;'', ''BYT;'']" by code_simp
    with that show ?thesis unfolding list_all_iff by auto
  qed
  have plain: "list_all plain fs" if "fs \<in> {device_fields d, geometry_fields y} \<union> part_texts unit ` set qs"
    for fs unit
    using that device_fields_plain [OF assms] geometry_fields_plain [OF assms] part_texts_plain [OF assms]
    by auto
  have each: "strip l \<noteq> [] \<and> CHR 0x0A \<notin> set l" if "l \<in> set ?ls" for l
    using that hd plain line_of_no_newline line_of_not_blank
    by (auto simp: listing_lines_def Let_def split: if_splits)
  then have "split_on CHR 0x0A (join [CHR 0x0A] (?ls @ [[]])) = ?ls @ [[]]"
    by (intro split_on_join) (auto simp: list_all_iff)
  moreover have "filter (\<lambda>x. strip x \<noteq> []) ?ls = ?ls" using each by (simp add: filter_id_conv)
  ultimately show ?thesis by (simp add: nonblank_lines_def listing_def strip_def)
qed

lemma parse_listing:
  assumes ok: "listing_ok d y qs"
  shows "parse_partition_info (listing d y qs) unit0 =
    Inr \<lparr>generic = device_value d y, partitions = map (part_value (size_unit (d_size d))) qs\<rparr>"
proof -
  let ?u = "size_unit (d_size d)"
  have d: "size_ok (d_size d)" using ok by (simp add: listing_ok_def)
  have parts: "emap (parse_part u) (map (line_of \<circ> part_texts u) qs) = Inr (map (part_value u) qs)" for u
  proof -
    have "emap (parse_part u) (map (line_of \<circ> part_texts u) ps) = Inr (map (part_value u) ps)"
      if "set ps \<subseteq> set qs" for ps
      using that by (induction ps) (simp_all add: parse_part_line [OF ok])
    then show ?thesis by simp
  qed
  have l: "py_nth (a # b # ls) 1 = Inr b" "py_nth (a # b # c # ls) 2 = Inr c" "drop 2 (a # b # ls) = ls"
    "drop 2 (drop 1 (a # b # c # ls)) = ls" for a b c :: string and ls
    by (simp_all add: py_nth_def eval_nat_numeral)
  show ?thesis
    unfolding parse_partition_info_def nonblank_listing [OF ok] listing_lines_def Let_def
    by (simp add: l parse_device_line [OF ok] parse_size [OF d] parse_geometry_line [OF ok] parts
        device_value_def Let_def del: One_nat_def)
qed

text \<open>C35: Reading back what parted prints gives what its lines mean, for every unit: the device line, with
  \<open>cyl\<close> and \<open>chs\<close> the geometry, and one partition per line in the printed order. The unit of every
  partition is that of the device line. No field has a colon, a semicolon or a newline in it.\<close>

theorem listing_read_back:
  assumes ok: "listing_ok d y qs"
  shows "parse_partition_info (listing d y qs) unit0 =
    Inr \<lparr>generic = device_value d y, partitions = map (part_value (size_unit (d_size d))) qs\<rparr>"
  by (rule parse_listing [OF ok])

text \<open>
  A disk in cylinders, heads and sectors, and one in the compact unit, which parted chooses for each
  size: the partition of 500 MB is reported with the unit of the disk.
\<close>

definition chs_disk :: device_line where
  "chs_disk = \<lparr>d_path = ''/dev/sda'', d_size = CylHeadSec 2610 255 62, d_transport = ''scsi'',
     d_logical = 512, d_physical = 512, d_table = ''msdos'', d_model = ''Virtio''\<rparr>"

definition chs_geometry :: geometry_line where
  "chs_geometry = \<lparr>y_cylinders = 2610, y_heads = 255, y_sectors = 63, y_cyl_size = Amount 8225 [] ''kB''\<rparr>"

definition compact_disk :: device_line where
  "compact_disk = chs_disk\<lparr>d_size := Amount 21 [5] ''GB'', d_table := ''gpt''\<rparr>"

definition disk_part :: "printed \<Rightarrow> printed \<Rightarrow> part_line" where
  "disk_part b e = \<lparr>l_num = 1, l_begin = b, l_end = e, l_size = Amount 500 [] ''MB'', l_fstype = ''ext4'',
     l_name = ''root'', l_flags = [''boot'', ''lvm'']\<rparr>"

lemmas sample_disk_defs = chs_disk_def compact_disk_def chs_geometry_def disk_part_def device_value_def
  geometry_value_def part_value_def

lemma sample_digits:
  "digit_char 0 = CHR ''0''" "digit_char 1 = CHR ''1''" "digit_char 2 = CHR ''2''" "digit_char 3 = CHR ''3''"
  "digit_char 4 = CHR ''4''" "digit_char 5 = CHR ''5''" "digit_char 6 = CHR ''6''" "digit_char 8 = CHR ''8''"
  by code_simp+

lemmas sample_digits_Suc = sample_digits(2) [unfolded One_nat_def]

lemma sample_double_half: "double (43 / 2) = Fin (43 / 2)"
  by code_simp

lemma sample_double_int: "double 8225 = Fin 8225" "double 501 = Fin 501" "double 500 = Fin 500"
  using double_int [of 8225] double_int [of 501] double_int [of 500] by simp_all

lemmas sample_doubles = sample_double_half sample_double_int

lemma sample_units:
  "lower ''kB'' = ''kb''" "lower ''GB'' = ''gb''" "lower ''MB'' = ''mb''" "lower ''chs'' = ''chs''"
  by code_simp+

lemma sample_listings:
  "listing_lines chs_disk chs_geometry [disk_part (CylHeadSec 0 32 32) (CylHeadSec 60 200 4)] =
     [''CHS;'', ''/dev/sda:2610,255,62:scsi:512:512:msdos:Virtio:;'', ''2610:255:63:8225kB;'',
      ''1:0,32,32:60,200,4:ext4:root:boot, lvm;'']"
  "listing_lines compact_disk chs_geometry [disk_part (Amount 1 [0, 5] ''MB'') (Amount 501 [] ''MB'')] =
     [''BYT;'', ''/dev/sda:21.5GB:scsi:512:512:gpt:Virtio:;'',
      ''1:1.05MB:501MB:500MB:ext4:root:boot, lvm;'']"
  by (simp_all add: listing_lines_def line_of_def device_fields_def geometry_fields_def part_texts_def
      sample_disk_defs show_int_def show_nat.simps sample_digits sample_digits_Suc)

definition chs_read :: device_info where
  "chs_read = \<lparr>generic = \<lparr>dev = ''/dev/sda'', g_size = Chs 2610 255 62, g_unit = ''chs'', table = ''msdos'',
       model = ''Virtio'', logical_block = 512, physical_block = 512,
       g_chs = Some \<lparr>cylinders = 2610, heads = 255, sectors = 63, cyl_size = Num (Fin 8225),
         cyl_size_unit = ''kb''\<rparr>\<rparr>,
     partitions = [\<lparr>num = 1, p_begin = Chs 0 32 32, p_end = Chs 60 200 4, p_size = NoSize,
       fstype = ''ext4'', p_flags = [''boot'', ''lvm''], p_unit = ''chs''\<rparr>]\<rparr>"

definition compact_read :: device_info where
  "compact_read = \<lparr>generic = \<lparr>dev = ''/dev/sda'', g_size = Num (Fin (43 / 2)), g_unit = ''gb'', table = ''gpt'',
       model = ''Virtio'', logical_block = 512, physical_block = 512, g_chs = None\<rparr>,
     partitions = [\<lparr>num = 1, p_begin = Num (double (21 / 20)), p_end = Num (Fin 501), p_size = Num (Fin 500),
       fstype = ''ext4'', p_flags = [''boot'', ''lvm''], p_unit = ''gb''\<rparr>]\<rparr>"

lemma sample_listings_ok:
  "listing_ok chs_disk chs_geometry [disk_part (CylHeadSec 0 32 32) (CylHeadSec 60 200 4)]"
  "listing_ok compact_disk chs_geometry [disk_part (Amount 1 [0, 5] ''MB'') (Amount 501 [] ''MB'')]"
  by (simp_all add: sample_disk_defs listing_ok_def plain_def flag_word_def is_space_def is_unit_char_def
      is_word_def is_decimal_def is_digit_def)

lemma sample_listings_mean:
  "\<lparr>generic = device_value chs_disk chs_geometry, partitions =
      map (part_value (size_unit (d_size chs_disk))) [disk_part (CylHeadSec 0 32 32) (CylHeadSec 60 200 4)]\<rparr> =
    chs_read"
  "\<lparr>generic = device_value compact_disk chs_geometry, partitions =
      map (part_value (size_unit (d_size compact_disk))) [disk_part (Amount 1 [0, 5] ''MB'') (Amount 501 [] ''MB'')]\<rparr> =
    compact_read"
  by (simp_all add: sample_disk_defs chs_read_def compact_read_def sample_doubles sample_units)

lemma compact_listing_parsed:
  "parse_partition_info
     (listing compact_disk chs_geometry [disk_part (Amount 1 [0, 5] ''MB'') (Amount 501 [] ''MB'')]) unit0 =
   Inr compact_read"
  by (simp only: parse_listing [OF sample_listings_ok(2)] sample_listings_mean)

theorem listing_read_back_witness:
  "parse_partition_info
     (listing chs_disk chs_geometry [disk_part (CylHeadSec 0 32 32) (CylHeadSec 60 200 4)]) ''KiB'' =
       Inr chs_read \<and>
   parse_partition_info
     (listing compact_disk chs_geometry [disk_part (Amount 1 [0, 5] ''MB'') (Amount 501 [] ''MB'')]) ''compact'' =
       Inr compact_read"
  using listing_read_back [OF sample_listings_ok(1), of "''KiB''"]
    listing_read_back [OF sample_listings_ok(2), of "''compact''"]
  by (simp only: sample_listings_mean)

section \<open>The version that is read\<close>

lemma version_search_None: "(\<And>t u. s = t @ u \<Longrightarrow> version_at u = None) \<Longrightarrow> version_search s = None"
proof (induction s)
  case (Cons c s)
  have "version_at (c # s) = None" using Cons.prems [of "[]"] by simp
  moreover have "version_search s = None"
  proof (rule Cons.IH)
    fix t u assume "s = t @ u"
    then show "version_at u = None" using Cons.prems [of "c # t" u] by simp
  qed
  ultimately show ?case by simp
qed simp

lemma version_search_append: "version_search s = Some v \<Longrightarrow> version_search (p @ s) = Some v"
  by (induction p) simp_all

lemma version_at_no_point: "CHR ''.'' \<notin> set s \<Longrightarrow> version_at s = None"
  by (simp add: version_at_def split_on_no_sep_single)

lemma version_search_digit:
  assumes "is_digit d" and "all_digits b"
  shows "version_search (d # CHR ''.'' # b) = Some (int (digit_val d), int (nat_of_digits b), 0)"
proof -
  have nb: "CHR ''.'' \<notin> set b" using assms(2) by (auto simp: all_digits_def list_all_iff is_digit_def)
  have d: "d \<noteq> CHR ''.''" using assms(1) by (auto simp: is_digit_def)
  have "version_search b = None"
    using nb by (intro version_search_None version_at_no_point) auto
  moreover have "version_at (CHR ''.'' # b) = None"
    using split_on_append [of "CHR ''.''" "[]" b] nb
    by (simp add: version_at_def split_on_no_sep_single all_digits_def)
  moreover have "split_on CHR ''.'' (d # CHR ''.'' # b) = [[d], b]"
    using split_on_append [of "CHR ''.''" "[d]" b] nb d by (simp add: split_on_no_sep_single)
  then have "version_at (d # CHR ''.'' # b) = Some (int (digit_val d), int (nat_of_digits b), 0)"
    using assms by (simp add: version_at_def all_digits_def nat_of_digits_def)
  ultimately show ?thesis by simp
qed

text \<open>C38: Of the version in the first line only the digit before the last point and the number after it
  are read: \<open>3.2\<close> is read as it is, \<open>1.8.3\<close> as version 8.3 and \<open>10.1\<close> as 0.1.\<close>

theorem version_read:
  assumes "is_digit d" and "all_digits b" and "p \<noteq> []" and "CHR 0x0A \<notin> set p"
  shows "parse_version (''parted'' @ p @ d # CHR ''.'' # b @ [CHR 0x0A]) =
    Inr (int (digit_val d), int (nat_of_digits b), 0)"
proof -
  let ?line = "''parted'' @ p @ d # CHR ''.'' # b"
  have "CHR 0x0A \<notin> set b" "d \<noteq> CHR 0x0A"
    using assms(1,2) by (auto simp: all_digits_def list_all_iff is_digit_def)
  then have "split_on CHR 0x0A (?line @ [CHR 0x0A]) = [?line, []]"
    using assms(4) split_on_append [of "CHR 0x0A" ?line "[]"] by simp
  moreover have "strip ?line \<noteq> []"
    by (rule strip_not_Nil [of "CHR ''p''"]) (simp_all add: is_space_def)
  moreover have "strip [] = []" by (simp add: strip_def)
  ultimately have l: "nonblank_lines (?line @ [CHR 0x0A]) = [?line]"
    by (simp add: nonblank_lines_def)
  obtain x q where p: "p = x # q" using assms(3) by (cases p) auto
  have "version_search (drop 7 ?line) = Some (int (digit_val d), int (nat_of_digits b), 0)"
    using version_search_append [OF version_search_digit [OF assms(1,2)], of q] by (simp add: p)
  with l show ?thesis by (simp add: parse_version_def p)
qed

theorem version_read_witness:
  "parse_version (''parted (GNU parted) 1.8.3'' @ [CHR 0x0A]) = Inr (8, 3, 0)"
  using version_read [of "CHR ''8''" "''3''" "'' (GNU parted) 1.''"]
  by (simp add: is_digit_def all_digits_def digit_val_def nat_of_digits_def)

section \<open>Sizes of unlabelled devices\<close>

lemma index_of_None: "index_of x ys = None \<longleftrightarrow> x \<notin> set ys"
  by (induction ys) auto

lemma lower_not_upper: "c \<in> set (lower s) \<Longrightarrow> \<not> (65 \<le> (of_char c :: nat) \<and> (of_char c :: nat) \<le> 90)"
  by (auto simp: lower_def lower_char_def)

lemma multiplier_lower: "multiplier (lower u) = 1"
proof -
  have "CHR ''B'' \<notin> set (lower u)" using lower_not_upper [of "CHR ''B''" u] by auto
  then have "lower u \<notin> set units_si" "lower u \<notin> set units_iec"
    by (auto simp: units_si_def units_iec_def)
  then show ?thesis by (simp add: multiplier_def flip: index_of_None)
qed

lemma round_size_int: "\<bar>i\<bar> < 2 ^ 53 \<Longrightarrow> round_size (of_int i) = of_int i"
  by (simp add: round_size_def Let_def py_round_int)

text \<open>C39: For every unit but the compact ones the size of an unlabelled device is its number of bytes,
  labelled with the unit that was asked for in lower case.\<close>

theorem disk_size_stays_in_bytes:
  assumes "0 < n" and "n < 2 ^ 53" and "lower unit \<notin> {[], ''compact'', ''cyl'', ''chs''}"
  shows "format_disk_size lg n unit = Inr (Sized (of_int n) (lower unit))"
proof -
  have b: "\<bar>n\<bar> < 2 ^ 53" using assms(1,2) by simp
  have c: "flo (1 + flo (1 / 10000000000000000)) = 1" using correction_is_one by simp
  show ?thesis
    using assms(1,3) by (simp add: format_disk_size_def Let_def float_of_int_exact [OF b]
        multiplier_lower flo_int [OF b] round_size_int [OF b] c)
qed

theorem disk_size_stays_in_bytes_witness:
  "format_disk_size (\<lambda>_. Inr 0) 1048576 ''KiB'' = Inr (Sized 1048576 ''kib'')"
proof -
  have "lower ''KiB'' = ''kib''" by code_simp
  then show ?thesis using disk_size_stays_in_bytes [of 1048576 "''KiB''" "\<lambda>_. Inr 0"] by simp
qed

text \<open>A device whose size or block size \<open>/sys\<close> does not tell makes the module end in a
  \<open>TypeError\<close>: the size zero comes back without its unit.\<close>

theorem unknown_size_fails:
  assumes "read_int files (''/sys/block/'' @ os_path_basename device @ ''/queue/logical_block_size'') = Inr lb"
    and "read_int files (''/sys/block/'' @ os_path_basename device @ ''/queue/physical_block_size'') = Inr pb"
    and "read_int files (''/sys/block/'' @ os_path_basename device @ ''/size'') = Inr n"
    and "n * lb = 0"
  shows "\<exists>m. get_unlabeled_device_info lg files device unit = Inl (Raise (TypeError m))"
  using assms by (simp add: get_unlabeled_device_info_def format_disk_size_def Let_def)

theorem unknown_size_fails_witness:
  "\<exists>m. get_unlabeled_device_info lg (\<lambda>_. None) ''/dev/sdz'' ''KiB'' = Inl (Raise (TypeError m))"
  using unknown_size_fails [of "\<lambda>_. None" "''/dev/sdz''" 0 0 0 lg "''KiB''"]
  by (simp add: read_int_def read_record_def)

end
