(* ===== verification/Effects.thy ===== *)
theory Effects
  imports Prelude
begin

text \<open>
  Programs that act on the outside: a state of the outside world \<open>'w\<close> the model does not look
  into, and the log of the calls made on it so far. A program stops at the first exception; what it
  did up to there stays done.
\<close>

section \<open>Programs\<close>

record ('w, 'c) shell =
  world :: 'w
  commands :: "'c list"

type_synonym ('w, 'c, 'a) io = "('w, 'c) shell \<Rightarrow> (exit + 'a) \<times> ('w, 'c) shell"

definition ioret :: "exit + 'a \<Rightarrow> ('w, 'c, 'a) io" where
  "ioret r sh = (r, sh)"

definition iobind :: "('w, 'c, 'a) io \<Rightarrow> ('a \<Rightarrow> ('w, 'c, 'b) io) \<Rightarrow> ('w, 'c, 'b) io" where
  "iobind m f sh = (case m sh of (Inl x, sh') \<Rightarrow> (Inl x, sh') | (Inr a, sh') \<Rightarrow> f a sh')"

text \<open>One call: it is logged, whether it succeeds or not.\<close>

definition iocall :: "('c \<Rightarrow> 'w \<Rightarrow> (exit + 'a) \<times> 'w) \<Rightarrow> 'c \<Rightarrow> ('w, 'c, 'a) io" where
  "iocall run c sh =
     (case run c (world sh) of (r, w) \<Rightarrow> (r, sh\<lparr>world := w, commands := commands sh @ [c]\<rparr>))"

section \<open>Invariants of the log\<close>

text \<open>
  The interface of an invariant of the log: a call that is \<open>safe\<close> after the calls so far keeps
  it. \<open>keeps P m Q\<close> says that the program \<open>m\<close> keeps the invariant from every log with
  \<open>P\<close>, also where it stops early, and that \<open>Q\<close> holds of the log when it succeeds.
\<close>

locale log_invariant =
  fixes I :: "'c list \<Rightarrow> bool" and safe :: "'c list \<Rightarrow> 'c \<Rightarrow> bool"
  assumes safe_step: "I cs \<Longrightarrow> safe cs c \<Longrightarrow> I (cs @ [c])"
begin

definition keeps ::
  "('c list \<Rightarrow> bool) \<Rightarrow> ('w, 'c, 'a) io \<Rightarrow> ('c list \<Rightarrow> bool) \<Rightarrow> bool" where
  "keeps P m Q \<longleftrightarrow> (\<forall>sh r sh'. I (commands sh) \<longrightarrow> P (commands sh) \<longrightarrow> m sh = (r, sh') \<longrightarrow>
     I (commands sh') \<and> (\<forall>a. r = Inr a \<longrightarrow> Q (commands sh')))"

lemma keepsI:
  "(\<And>sh r sh'. I (commands sh) \<Longrightarrow> P (commands sh) \<Longrightarrow> m sh = (r, sh') \<Longrightarrow>
     I (commands sh') \<and> (\<forall>a. r = Inr a \<longrightarrow> Q (commands sh'))) \<Longrightarrow> keeps P m Q"
  by (simp add: keeps_def)

lemma keepsD:
  assumes "keeps P m Q" and "I (commands sh)" and "P (commands sh)" and "m sh = (r, sh')"
  shows "I (commands sh')" and "r = Inr a \<Longrightarrow> Q (commands sh')"
  using assms by (auto simp: keeps_def)

lemma keeps_ret: "keeps P (ioret r) P"
  by (rule keepsI) (simp add: ioret_def)

lemma keeps_bind:
  assumes "keeps P m Q" and "\<And>a. keeps Q (k a) R"
  shows "keeps P (iobind m k) R"
proof (rule keepsI)
  fix sh r sh' assume i: "I (commands sh)" "P (commands sh)" and e: "iobind m k sh = (r, sh')"
  obtain r1 sh1 where m: "m sh = (r1, sh1)" by fastforce
  note m' = keepsD [OF assms(1) i m]
  show "I (commands sh') \<and> (\<forall>a. r = Inr a \<longrightarrow> R (commands sh'))"
  proof (cases r1)
    case (Inl x)
    with e m m'(1) show ?thesis by (auto simp: iobind_def)
  next
    case (Inr a)
    with e m have "k a sh1 = (r, sh')" by (simp add: iobind_def)
    from keepsD [OF assms(2) m'(1) m'(2) [OF Inr] this] show ?thesis by blast
  qed
qed

lemma keeps_call:
  assumes "\<And>cs. P cs \<Longrightarrow> safe cs c" and "\<And>cs. P cs \<Longrightarrow> Q (cs @ [c])"
  shows "keeps P (iocall run c) Q"
proof (rule keepsI)
  fix sh r sh' assume i: "I (commands sh)" "P (commands sh)" and "iocall run c sh = (r, sh')"
  then have "commands sh' = commands sh @ [c]" by (auto simp: iocall_def split: prod.splits)
  with i assms safe_step show "I (commands sh') \<and> (\<forall>a. r = Inr a \<longrightarrow> Q (commands sh'))"
    by simp
qed

lemma keeps_weaken: "keeps P m Q \<Longrightarrow> (\<And>cs. P' cs \<Longrightarrow> P cs) \<Longrightarrow> (\<And>cs. Q cs \<Longrightarrow> Q' cs) \<Longrightarrow> keeps P' m Q'"
  unfolding keeps_def by blast

end

end
