(* ===== verification/Ansible.thy ===== *)
theory Ansible
  imports PyValue
begin

text \<open>
  What every module states to \<open>AnsibleModule\<close>, and reads back from it: the argument
  specification and \<open>module.params\<close>. \<open>AnsibleModule\<close> itself is code outside the repository: a
  function from the specification to the parameters and the check mode flag, or its exit.
\<close>

section \<open>Argument specifications\<close>

text \<open>One entry of \<open>argument_spec\<close> or \<open>kw_args\<close>.\<close>

record argspec =
  sp_type :: string
  sp_required :: bool
  sp_default :: "pyval option"
  sp_choices :: "pyval list"
  sp_aliases :: "string list"
  sp_no_log :: bool

definition kwarg :: "string \<Rightarrow> bool \<Rightarrow> argspec" where
  "kwarg t req = \<lparr>sp_type = t, sp_required = req, sp_default = None, sp_choices = [],
                  sp_aliases = [], sp_no_log = False\<rparr>"

type_synonym ansible_module = "(string \<times> argspec) list \<Rightarrow> exit + pydict \<times> bool"

text \<open>An optional argument with a default, and one with choices.\<close>

definition with_default :: "pyval \<Rightarrow> argspec \<Rightarrow> argspec" where
  "with_default v a = a\<lparr>sp_default := Some v\<rparr>"

definition with_choices :: "string list \<Rightarrow> argspec \<Rightarrow> argspec" where
  "with_choices cs a = a\<lparr>sp_choices := map PStr cs\<rparr>"

definition with_aliases :: "string list \<Rightarrow> argspec \<Rightarrow> argspec" where
  "with_aliases as a = a\<lparr>sp_aliases := as\<rparr>"

section \<open>Parameters\<close>

text \<open>
  \<open>module.params[k]\<close> with the type its specification declares; \<open>AnsibleModule\<close> converts the
  values, so any other shape is outside the model.
\<close>

definition bad_param :: "string \<Rightarrow> exit + 'a" where
  "bad_param k = Inl (Raise (OutOfModel (''parameter '' @ k)))"

definition str_param :: "pydict \<Rightarrow> string \<Rightarrow> exit + string" where
  "str_param ps k = ebind (dindex ps k) (\<lambda>v. case v of PStr s \<Rightarrow> Inr s | _ \<Rightarrow> bad_param k)"

definition opt_str_param :: "pydict \<Rightarrow> string \<Rightarrow> exit + string option" where
  "opt_str_param ps k =
     ebind (dindex ps k) (\<lambda>v. case v of PNone \<Rightarrow> Inr None | PStr s \<Rightarrow> Inr (Some s) | _ \<Rightarrow> bad_param k)"

definition bool_param :: "pydict \<Rightarrow> string \<Rightarrow> exit + bool" where
  "bool_param ps k = ebind (dindex ps k) (\<lambda>v. case v of PBool b \<Rightarrow> Inr b | _ \<Rightarrow> bad_param k)"

definition int_param :: "pydict \<Rightarrow> string \<Rightarrow> exit + int" where
  "int_param ps k = ebind (dindex ps k) (\<lambda>v. case v of PInt i \<Rightarrow> Inr i | _ \<Rightarrow> bad_param k)"

definition opt_int_param :: "pydict \<Rightarrow> string \<Rightarrow> exit + int option" where
  "opt_int_param ps k =
     ebind (dindex ps k) (\<lambda>v. case v of PNone \<Rightarrow> Inr None | PInt i \<Rightarrow> Inr (Some i) | _ \<Rightarrow> bad_param k)"

definition list_param :: "pydict \<Rightarrow> string \<Rightarrow> exit + pyval list" where
  "list_param ps k = ebind (dindex ps k) (\<lambda>v. case v of PList vs \<Rightarrow> Inr vs | _ \<Rightarrow> bad_param k)"

definition dict_param :: "pydict \<Rightarrow> string \<Rightarrow> exit + pydict" where
  "dict_param ps k = ebind (dindex ps k) (\<lambda>v. case v of PDict d \<Rightarrow> Inr d | _ \<Rightarrow> bad_param k)"

text \<open>A list of texts, or \<open>None\<close>.\<close>

definition opt_texts_param :: "pydict \<Rightarrow> string \<Rightarrow> exit + string list option" where
  "opt_texts_param ps k =
     ebind (dindex ps k) (\<lambda>v. case v of
       PNone \<Rightarrow> Inr None
     | PList vs \<Rightarrow> ebind (emap (\<lambda>x. case x of PStr s \<Rightarrow> Inr s | _ \<Rightarrow> bad_param k) vs) (\<lambda>ts. Inr (Some ts))
     | _ \<Rightarrow> bad_param k)"

end
