(* ===== verification/Parted.thy ===== *)
theory Parted
  imports Parted_Info Effects Ansible
begin

text \<open>
  \<open>lib/modules/parted.py\<close>, the module itself. The \<open>parted\<close> program, \<open>/sys\<close> and the
  mathematical library are code outside the repository: the record \<open>machine\<close> holds what the
  module calls of them, over a state \<open>'w\<close> of the disks. The commands a run gives are logged.
\<close>

section \<open>Running commands\<close>

record 'w machine =
  run_command :: "string \<Rightarrow> 'w \<Rightarrow> (exit + int \<times> string \<times> string) \<times> 'w"
  sysfs :: "'w \<Rightarrow> string \<Rightarrow> string option"
  log10 :: "int \<Rightarrow> exit + rat"
  bin_path :: "exit + string"

definition run_cmd :: "'w machine \<Rightarrow> string \<Rightarrow> ('w, string, int \<times> string \<times> string) io" where
  "run_cmd M = iocall (run_command M)"

section \<open>Information about a device\<close>

definition version_command :: "string \<Rightarrow> string" where
  "version_command exe = exe @ '' --version''"

definition parted_version :: "'w machine \<Rightarrow> string \<Rightarrow> ('w, string, int \<times> int \<times> int) io" where
  "parted_version M exe =
     iobind (run_cmd M (version_command exe)) (\<lambda>(rc, out, err).
       ioret (if rc \<noteq> 0 then Inl (FailJson None (PStr ''Failed to get parted version.''))
              else parse_version out))"

definition label_command :: "string \<Rightarrow> string \<Rightarrow> string" where
  "label_command exe device = exe @ '' -s -m '' @ device @ '' print''"

definition check_parted_label :: "'w machine \<Rightarrow> string \<Rightarrow> string \<Rightarrow> ('w, string, bool) io" where
  "check_parted_label M exe device =
     iobind (parted_version M exe) (\<lambda>(major, minor, rev).
       if major = 3 \<and> minor \<ge> 1 \<or> major > 3 then ioret (Inr False)
       else
         iobind (run_cmd M (label_command exe device)) (\<lambda>(rc, out, err).
           ioret (Inr (rc \<noteq> 0 \<and> is_infix ''unrecognised disk label'' (lower out)))))"

definition print_command :: "string \<Rightarrow> string \<Rightarrow> string \<Rightarrow> string" where
  "print_command exe device unit =
     exe @ '' -s -m '' @ device @ '' -- unit '' @ [CHR 0x27] @ unit @ [CHR 0x27] @ '' print''"

definition list_device :: "'w machine \<Rightarrow> string \<Rightarrow> string \<Rightarrow> string \<Rightarrow> ('w, string, device_info) io" where
  "list_device M exe device unit =
     iobind (run_cmd M (print_command exe device unit)) (\<lambda>(rc, out, err).
       ioret (if rc \<noteq> 0 \<and> \<not> is_infix ''unrecognised disk label'' err
              then Inl (FailJson None (PStr (''Error while getting device information with parted script: '' @
                     [CHR 0x27] @ print_command exe device unit @ [CHR 0x27])))
              else parse_partition_info out unit))"

definition get_device_info :: "'w machine \<Rightarrow> string \<Rightarrow> string \<Rightarrow> string \<Rightarrow> ('w, string, device_info) io" where
  "get_device_info M exe device unit =
     iobind (check_parted_label M exe device) (\<lambda>label_needed sh.
       if label_needed
       then (get_unlabeled_device_info (log10 M) (sysfs M (world sh)) device unit, sh)
       else list_device M exe device unit sh)"

section \<open>Scripts\<close>

definition script_command :: "string \<Rightarrow> string \<Rightarrow> string \<Rightarrow> string \<Rightarrow> string" where
  "script_command exe align device script =
     exe @ '' -s -m -a '' @ align @ '' '' @ device @ '' -- '' @ script"

definition parted :: "'w machine \<Rightarrow> string \<Rightarrow> bool \<Rightarrow> string \<Rightarrow> string \<Rightarrow> string \<Rightarrow> ('w, string, unit) io" where
  "parted M exe check_mode script device align =
     (if script \<noteq> [] \<and> \<not> check_mode then
        iobind (run_cmd M (script_command exe align device script)) (\<lambda>(rc, out, err).
          ioret (if rc \<noteq> 0
                 then Inl (FailJson None (PStr (''Error while running parted script: '' @
                        strip (script_command exe align device script))))
                 else Inr ()))
      else ioret (Inr ()))"

text \<open>The parameters; those without a default are \<open>None\<close> where the task does not give them.\<close>

record parted_params =
  device :: string
  align :: string
  number :: "int option"
  unit :: string
  label :: "string option"
  part_type :: "string option"
  fs_type :: "string option"
  part_start :: string
  part_end :: string
  pname :: "string option"
  flags :: "string list option"
  pstate :: string

text \<open>\<open>if x\<close> for a text or \<open>None\<close>, and \<open>"%s" % number\<close>.\<close>

fun given :: "'a list option \<Rightarrow> bool" where
  "given None = False"
| "given (Some s) = (s \<noteq> [])"

fun fmt_number :: "int option \<Rightarrow> string" where
  "fmt_number None = ''None''"
| "fmt_number (Some i) = show_int i"

definition part_exists :: "part list \<Rightarrow> int option \<Rightarrow> bool" where
  "part_exists parts n = list_ex (\<lambda>p. num p \<noteq> 0 \<and> Some (num p) = n) parts"

text \<open>
  The label to create: the code's condition reads
  \<open>not table or (table == 'unknown' and not label)\<close>.
\<close>

definition label_for :: "parted_params \<Rightarrow> string \<Rightarrow> string option" where
  "label_for p tbl =
     (if tbl = [] \<or> tbl = ''unknown'' \<and> \<not> given (label p) then Some ''msdos'' else label p)"

definition with_unit :: "string \<Rightarrow> string \<Rightarrow> string" where
  "with_unit u script =
     (if u \<noteq> [] \<and> script \<noteq> [] then ''unit '' @ u @ '' '' @ script else script)"

definition make_script :: "parted_params \<Rightarrow> string \<Rightarrow> part list \<Rightarrow> string" where
  "make_script p tbl parts =
     (if given (label_for p tbl) then ''mklabel '' @ the (label_for p tbl) @ '' '' else []) @
     (if given (part_type p) \<and> \<not> part_exists parts (number p)
      then ''mkpart '' @ the (part_type p) @ '' '' @
           (case fs_type p of Some f \<Rightarrow> f | None \<Rightarrow> []) @ '' '' @
           part_start p @ '' '' @ part_end p @ '' ''
      else [])"

text \<open>The changes of flags; the order of the sets' elements is that of the lists here.\<close>

definition set_script :: "string \<Rightarrow> string \<Rightarrow> string list \<Rightarrow> string" where
  "set_script n v fs = concat (map (\<lambda>f. ''set '' @ n @ '' '' @ f @ '' '' @ v @ '' '') fs)"

definition flags_script :: "string \<Rightarrow> string list \<Rightarrow> string list \<Rightarrow> string" where
  "flags_script n wanted current =
     (let flags_off = filter (\<lambda>f. f \<notin> set wanted) (remdups current);
          flags_on = filter (\<lambda>f. f \<notin> set current) (remdups wanted)
      in set_script n ''on'' flags_on @ set_script n ''off'' flags_off)"

definition edit_script :: "parted_params \<Rightarrow> bool \<Rightarrow> part list \<Rightarrow> exit + string" where
  "edit_script p check_mode parts =
     (if part_exists parts (number p) \<or> check_mode then
        ebind (if check_mode then Inr []
               else ebind (py_nth (filter (\<lambda>q. Some (num q) = number p) parts) 0)
                      (\<lambda>q. Inr (p_flags q))) (\<lambda>current.
          Inr ((if given (pname p) then ''name '' @ fmt_number (number p) @ '' '' @ the (pname p) @ '' ''
                else []) @
               (if given (flags p) then flags_script (fmt_number (number p)) (the (flags p)) current
                else [])))
      else Inr [])"

section \<open>The run\<close>

text \<open>Each state's action returns \<open>changed\<close> and \<open>output_script\<close>.\<close>

definition present_action ::
  "'w machine \<Rightarrow> string \<Rightarrow> bool \<Rightarrow> parted_params \<Rightarrow> device_info \<Rightarrow> ('w, string, bool \<times> string) io" where
  "present_action M exe check_mode p info =
     (let s1 = with_unit (unit p) (make_script p (table (generic info)) (partitions info)) in
      iobind (if s1 = [] then ioret (Inr (partitions info))
              else iobind (parted M exe check_mode s1 (device p) (align p)) (\<lambda>_.
                   iobind (get_device_info M exe (device p) (unit p)) (\<lambda>i.
                     ioret (Inr (partitions i))))) (\<lambda>parts.
      iobind (ioret (edit_script p check_mode parts)) (\<lambda>e.
      let s2 = with_unit (unit p) e in
      iobind (parted M exe check_mode s2 (device p) (align p)) (\<lambda>_.
        ioret (Inr (s1 \<noteq> [] \<or> s2 \<noteq> [], s1 @ s2))))))"

definition absent_action ::
  "'w machine \<Rightarrow> string \<Rightarrow> bool \<Rightarrow> parted_params \<Rightarrow> device_info \<Rightarrow> ('w, string, bool \<times> string) io" where
  "absent_action M exe check_mode p info =
     (if part_exists (partitions info) (number p) \<or> check_mode then
        let s = ''rm '' @ fmt_number (number p) @ '' '' in
        iobind (parted M exe check_mode s (device p) (align p)) (\<lambda>_. ioret (Inr (True, s)))
      else ioret (Inr (False, [])))"

definition info_action :: "parted_params \<Rightarrow> ('w, string, bool \<times> string) io" where
  "info_action p =
     ioret (Inr (False, ''unit '' @ [CHR 0x27] @ unit p @ [CHR 0x27] @ '' print ''))"

definition state_action ::
  "'w machine \<Rightarrow> string \<Rightarrow> bool \<Rightarrow> parted_params \<Rightarrow> device_info \<Rightarrow> ('w, string, bool \<times> string) io" where
  "state_action M exe check_mode p info =
     (if pstate p = ''present'' then present_action M exe check_mode p info
      else if pstate p = ''absent'' then absent_action M exe check_mode p info
      else if pstate p = ''info'' then info_action p
      else ioret (Inr (False, [])))"

text \<open>The checks of the parameters; the failing one formats its error with \<open>parse_unit\<close>.\<close>

definition check_size_param :: "string \<Rightarrow> string \<Rightarrow> exit + unit" where
  "check_size_param nm v =
     ebind (check_size_format v) (\<lambda>ok.
       if ok then Inr ()
       else ebind (parse_unit v []) (\<lambda>_.
         Inl (FailJson None (PStr (''The argument '' @ [CHR 0x27] @ nm @ [CHR 0x27] @
           '' doesn'' @ [CHR 0x27] @ ''t respect required format.The size unit is case sensitive.'')))))"

definition check_params :: "parted_params \<Rightarrow> exit + unit" where
  "check_params p =
     ebind (if number p \<noteq> None \<and> the (number p) < 0
            then Inl (FailJson None (PStr ''The partition number must be non negative.''))
            else Inr ()) (\<lambda>_.
     ebind (check_size_param ''part_start'' (part_start p)) (\<lambda>_.
       check_size_param ''part_end'' (part_end p)))"

record parted_result =
  r_changed :: bool
  disk :: generic_info
  r_partitions :: "part list"
  r_script :: string

definition parted_main ::
  "'w machine \<Rightarrow> bool \<Rightarrow> parted_params \<Rightarrow> ('w, string, parted_result) io" where
  "parted_main M check_mode p =
     iobind (ioret (bin_path M)) (\<lambda>exe.
     iobind (ioret (check_params p)) (\<lambda>_.
     iobind (get_device_info M exe (device p) (unit p)) (\<lambda>info.
     iobind (state_action M exe check_mode p info) (\<lambda>(changed, out).
     iobind (get_device_info M exe (device p) (unit p)) (\<lambda>final.
       ioret (Inr \<lparr>r_changed = changed, disk = generic final, r_partitions = partitions final,
                  r_script = strip out\<rparr>))))))"

text \<open>The arguments of the module, read into the record, and the run from the start.\<close>

definition parted_argument_spec :: "(string \<times> argspec) list" where
  "parted_argument_spec =
     [(''device'', kwarg ''str'' True),
      (''align'', with_default (PStr ''optimal'') (with_choices [''none'', ''cylinder'', ''minimal'', ''optimal'']
        (kwarg ''str'' False))),
      (''number'', with_default PNone (kwarg ''int'' False)),
      (''unit'', with_default (PStr ''KiB'') (with_choices parted_units (kwarg ''str'' False))),
      (''label'', with_choices [''aix'', ''amiga'', ''bsd'', ''dvh'', ''gpt'', ''loop'', ''mac'', ''msdos'',
        ''pc98'', ''sun'', []] (kwarg ''str'' False)),
      (''part_type'', with_choices [''primary'', ''extended'', ''logical''] (kwarg ''str'' False)),
      (''fs_type'', with_choices [''ext4'', ''fat16'', ''fat32'', ''ext2'', ''HFS'', ''linux-swap'', ''NTFS'',
        ''reiserfs'', ''ufs''] (kwarg ''str'' False)),
      (''part_start'', with_default (PStr ''0%'') (kwarg ''str'' False)),
      (''part_end'', with_default (PStr ''100%'') (kwarg ''str'' False)),
      (''name'', kwarg ''str'' False),
      (''flags'', kwarg ''list'' False),
      (''state'', with_default (PStr ''info'') (with_choices [''present'', ''absent'', ''info''] (kwarg ''str'' False)))]"

definition parted_params_of :: "pydict \<Rightarrow> exit + parted_params" where
  "parted_params_of ps =
     ebind (str_param ps ''device'') (\<lambda>dv.
     ebind (str_param ps ''align'') (\<lambda>al.
     ebind (opt_int_param ps ''number'') (\<lambda>n.
     ebind (str_param ps ''unit'') (\<lambda>u.
     ebind (opt_str_param ps ''label'') (\<lambda>l.
     ebind (opt_str_param ps ''part_type'') (\<lambda>pt.
     ebind (opt_str_param ps ''fs_type'') (\<lambda>fs.
     ebind (str_param ps ''part_start'') (\<lambda>st.
     ebind (str_param ps ''part_end'') (\<lambda>en.
     ebind (opt_str_param ps ''name'') (\<lambda>nm.
     ebind (str_param ps ''state'') (\<lambda>state.
     ebind (opt_texts_param ps ''flags'') (\<lambda>fl.
       Inr \<lparr>device = dv, align = al, number = n, unit = u, label = l, part_type = pt, fs_type = fs,
            part_start = st, part_end = en, pname = nm, flags = fl, pstate = state\<rparr>))))))))))))"

definition parted_module :: "ansible_module \<Rightarrow> 'w machine \<Rightarrow> ('w, string, parted_result) io" where
  "parted_module am M =
     iobind (ioret (am parted_argument_spec)) (\<lambda>(ps, check_mode).
     iobind (ioret (parted_params_of ps)) (\<lambda>p. parted_main M check_mode p))"

section \<open>The commands of a run\<close>

text \<open>
  The interface of a property of every command a run gives: it has to hold for the three reading
  commands. Then reading the device keeps to it, and so does a run whose scripts have it.
\<close>

locale command_log =
  fixes ok :: "string \<Rightarrow> bool" and exe :: string and device :: string and unit :: string
  assumes version_ok: "ok (version_command exe)"
    and label_ok: "ok (label_command exe device)"
    and print_ok: "ok (print_command exe device unit)"
begin

definition logs :: "('w, string, 'a) io \<Rightarrow> bool" where
  "logs m \<longleftrightarrow> (\<forall>sh r sh'. m sh = (r, sh') \<longrightarrow>
     (\<exists>cs. commands sh' = commands sh @ cs \<and> list_all ok cs))"

lemma logsI:
  "(\<And>sh r sh'. m sh = (r, sh') \<Longrightarrow> \<exists>cs. commands sh' = commands sh @ cs \<and> list_all ok cs) \<Longrightarrow> logs m"
  by (simp add: logs_def)

lemma logsD: "logs m \<Longrightarrow> m sh = (r, sh') \<Longrightarrow> \<exists>cs. commands sh' = commands sh @ cs \<and> list_all ok cs"
  by (simp add: logs_def)

lemma logs_ret [intro, simp]: "logs (ioret r)"
  by (rule logsI) (simp add: ioret_def)

lemma logs_bind [intro]:
  assumes "logs m" and "\<And>a. logs (k a)"
  shows "logs (iobind m k)"
proof (rule logsI)
  fix sh r sh' assume e: "iobind m k sh = (r, sh')"
  obtain r1 sh1 where m: "m sh = (r1, sh1)" by fastforce
  from logsD [OF assms(1) m] obtain cs where
    cs: "commands sh1 = commands sh @ cs" "list_all ok cs" by blast
  show "\<exists>cs. commands sh' = commands sh @ cs \<and> list_all ok cs"
  proof (cases r1)
    case (Inl x)
    with e m cs show ?thesis by (auto simp: iobind_def)
  next
    case (Inr a)
    with e m have "k a sh1 = (r, sh')" by (simp add: iobind_def)
    from logsD [OF assms(2) this] cs show ?thesis by fastforce
  qed
qed

lemma logs_run_cmd: "ok c \<Longrightarrow> logs (run_cmd M c)"
  by (rule logsI) (auto simp: run_cmd_def iocall_def split: prod.splits)

lemma logs_check_label: "logs (check_parted_label M exe device)"
  unfolding check_parted_label_def parted_version_def
  by (intro logs_bind logs_run_cmd version_ok logs_ret)
    (auto split: prod.splits intro!: logs_bind logs_run_cmd label_ok)

lemma logs_list_device: "logs (list_device M exe device unit)"
  unfolding list_device_def
  by (rule logs_bind [OF logs_run_cmd [OF print_ok]]) (auto split: prod.splits)

lemma logs_device_info: "logs (get_device_info M exe device unit)"
  unfolding get_device_info_def
proof (rule logs_bind [OF logs_check_label], rule logsI)
  fix needed sh r sh'
  assume "(if needed
       then (get_unlabeled_device_info (log10 M) (sysfs M (world sh)) device unit, sh)
       else list_device M exe device unit sh) = (r, sh')"
  then show "\<exists>cs. commands sh' = commands sh @ cs \<and> list_all ok cs"
    using logsD [OF logs_list_device] by (cases needed) auto
qed

lemma logs_parted:
  "check_mode \<or> ok (script_command exe al device script) \<Longrightarrow>
     logs (parted M exe check_mode script device al)"
  unfolding parted_def by (auto intro!: logs_bind logs_run_cmd split: prod.splits)

lemma logs_state_action:
  assumes "parted_params.device p = device" and "parted_params.unit p = unit"
    and "check_mode \<or> pstate p = ''info'' \<or> (\<forall>s. ok (script_command exe (align p) device s))"
  shows "logs (state_action M exe check_mode p info)"
proof (cases "pstate p = ''info''")
  case True
  then show ?thesis by (simp add: state_action_def info_action_def)
next
  case False
  with assms(3) have "logs (parted M exe check_mode s device (align p))" for s
    by (intro logs_parted) auto
  then show ?thesis
    using logs_device_info assms(1,2)
    by (auto simp: state_action_def present_action_def absent_action_def info_action_def Let_def
        intro!: logs_bind)
qed

lemma logs_main:
  assumes "bin_path M = Inr exe" and "parted_params.device p = device" and "parted_params.unit p = unit"
    and "check_mode \<or> pstate p = ''info'' \<or> (\<forall>s. ok (script_command exe (align p) device s))"
  shows "logs (parted_main M check_mode p)"
proof -
  have "parted_main M check_mode p =
     iobind (ioret (check_params p)) (\<lambda>_.
     iobind (get_device_info M exe device unit) (\<lambda>info.
     iobind (state_action M exe check_mode p info) (\<lambda>(changed, out).
     iobind (get_device_info M exe device unit) (\<lambda>final.
       ioret (Inr \<lparr>r_changed = changed, disk = generic final, r_partitions = partitions final,
                  r_script = strip out\<rparr>)))))"
    by (rule ext) (simp add: parted_main_def assms(1-3) iobind_def ioret_def)
  then show ?thesis
    using logs_device_info logs_state_action [OF assms(2-4)]
    by (auto intro!: logs_bind split: prod.splits)
qed

end

definition reading_commands :: "string \<Rightarrow> string \<Rightarrow> string \<Rightarrow> string set" where
  "reading_commands exe dv u =
     {version_command exe, label_command exe dv, print_command exe dv u}"

interpretation reading: command_log "\<lambda>c. c \<in> reading_commands exe dv u" exe dv u
  for exe dv u
  by unfold_locales (simp_all add: reading_commands_def)

interpretation any_run: command_log
  "\<lambda>c. c \<in> reading_commands exe dv u \<or> (\<exists>s. c = script_command exe al dv s)" exe dv u
  for exe dv u al
  by unfold_locales (simp_all add: reading_commands_def)

lemma main_commands:
  assumes "bin_path M = Inr exe" and "parted_main M check_mode p sh = (r, sh')"
  shows "\<exists>cs. commands sh' = commands sh @ cs \<and>
    (\<forall>c \<in> set cs. c \<in> reading_commands exe (device p) (unit p) \<or>
       (\<exists>s. c = script_command exe (align p) (device p) s))"
  using any_run.logsD [OF any_run.logs_main [OF assms(1) refl refl] assms(2)]
  by (auto simp: list_all_iff)

text \<open>C34: In check mode, and when only information is asked for, every command of a run is one of the
  three that read: the version, the test for a label and the listing. No script is run.\<close>

theorem parted_reads_only:
  assumes "bin_path M = Inr exe" and "check_mode \<or> pstate p = ''info''"
  shows "case parted_main M check_mode p sh of (r, sh') \<Rightarrow>
    \<exists>cs. commands sh' = commands sh @ cs \<and> set cs \<subseteq> reading_commands exe (device p) (unit p)"
proof -
  have "reading.logs exe (device p) (unit p) (parted_main M check_mode p)"
    using assms by (intro reading.logs_main) auto
  from reading.logsD [OF this] show ?thesis
    by (fastforce simp: list_all_iff split: prod.splits)
qed

text \<open>A machine on which every command fails, and a task for partition 1 of a disk.\<close>

definition broken_machine :: "nat machine" where
  "broken_machine = \<lparr>run_command = (\<lambda>c w. (Inr (1, [], []), Suc w)), sysfs = (\<lambda>_ _. None),
     log10 = (\<lambda>_. Inr 0), bin_path = Inr ''/sbin/parted''\<rparr>"

definition sample_params :: "string \<Rightarrow> string option \<Rightarrow> string list option \<Rightarrow> parted_params" where
  "sample_params st l fl = \<lparr>device = ''/dev/sda'', align = ''optimal'', number = Some 1, unit = ''KiB'',
     label = l, part_type = Some ''primary'', fs_type = None, part_start = ''0%'',
     part_end = ''100%'', pname = None, flags = fl, pstate = st\<rparr>"

theorem parted_reads_only_witness:
  "case parted_main broken_machine True (sample_params ''present'' (Some ''gpt'') None)
      \<lparr>world = 0, commands = []\<rparr> of (r, sh') \<Rightarrow>
    \<exists>cs. commands sh' = [] @ cs \<and> set cs \<subseteq> reading_commands ''/sbin/parted'' ''/dev/sda'' ''KiB''"
  using parted_reads_only [of broken_machine "''/sbin/parted''" True
      "sample_params ''present'' (Some ''gpt'') None" "\<lparr>world = 0, commands = []\<rparr>"]
  by (simp add: broken_machine_def sample_params_def)

section \<open>What the scripts ask for\<close>

text \<open>The words of a script, and the effect of its \<open>set\<close> commands on the flags of partition \<open>n\<close>.\<close>

definition script_words :: "string \<Rightarrow> string list" where
  "script_words s = filter (\<lambda>w. w \<noteq> []) (split_on CHR '' '' s)"

fun apply_sets :: "string \<Rightarrow> string list \<Rightarrow> string set \<Rightarrow> string set" where
  "apply_sets n (c # m # f # v # ws) fs =
     apply_sets n ws (if c = ''set'' \<and> m = n
                      then (if v = ''on'' then insert f fs else if v = ''off'' then fs - {f} else fs)
                      else fs)"
| "apply_sets n _ fs = fs"

lemma words_append:
  "CHR '' '' \<notin> set w \<Longrightarrow> w \<noteq> [] \<Longrightarrow> script_words (w @ CHR '' '' # t) = w # script_words t"
  by (simp add: script_words_def split_on_append)

lemma words_set_command:
  assumes "CHR '' '' \<notin> set n" "n \<noteq> []" "flag_word f" "v = ''on'' \<or> v = ''off''"
  shows "script_words (''set '' @ n @ '' '' @ f @ '' '' @ v @ '' '' @ t) = [''set'', n, f, v] @ script_words t"
proof -
  have "CHR '' '' \<notin> set f" "f \<noteq> []" using assms(3) by (auto simp: flag_word_def is_space_def)
  then show ?thesis
    using assms words_append [of "''set''" "n @ '' '' @ f @ '' '' @ v @ '' '' @ t"]
      words_append [of n "f @ '' '' @ v @ '' '' @ t"] words_append [of f "v @ '' '' @ t"]
      words_append [of v t]
    by auto
qed

lemma apply_set_script:
  assumes "CHR '' '' \<notin> set n" "n \<noteq> []" "list_all flag_word fs" "v = ''on'' \<or> v = ''off''"
  shows "apply_sets n (script_words (set_script n v fs @ t)) S =
    apply_sets n (script_words t) (if v = ''on'' then S \<union> set fs else S - set fs)"
  using assms(3)
proof (induction fs arbitrary: S)
  case (Cons f fs)
  let ?S = "if v = ''on'' then insert f S else S - {f}"
  have "set_script n v (f # fs) @ t = ''set '' @ n @ '' '' @ f @ '' '' @ v @ '' '' @ set_script n v fs @ t"
    by (simp add: set_script_def)
  then have "script_words (set_script n v (f # fs) @ t) =
      [''set'', n, f, v] @ script_words (set_script n v fs @ t)"
    using words_set_command [OF assms(1,2) _ assms(4), of f] Cons.prems by simp
  then have "apply_sets n (script_words (set_script n v (f # fs) @ t)) S =
      apply_sets n (script_words (set_script n v fs @ t)) ?S"
    using assms(4) by auto
  also have "\<dots> = apply_sets n (script_words t) (if v = ''on'' then ?S \<union> set fs else ?S - set fs)"
    using Cons by simp
  also have "(if v = ''on'' then ?S \<union> set fs else ?S - set fs) =
      (if v = ''on'' then S \<union> set (f # fs) else S - set (f # fs))"
    by auto
  finally show ?case .
qed (auto simp: set_script_def)

lemma fmt_number_word: "CHR '' '' \<notin> set (fmt_number n) \<and> fmt_number n \<noteq> []"
proof (cases n)
  case (Some i)
  have "list_all is_digit (show_nat k)" "show_nat k \<noteq> []" for k
    using show_nat_digits by blast+
  moreover have "\<not> is_digit CHR '' ''" by code_simp
  ultimately show ?thesis using Some by (auto simp: show_int_def list_all_iff)
qed simp

text \<open>C33: The \<open>set\<close> commands written for a partition, read word by word as \<open>parted\<close> reads them,
  turn the flags it has into exactly the flags of the task.\<close>

theorem flags_reach_goal:
  assumes "list_all flag_word wanted" and "list_all flag_word current"
  shows "apply_sets (fmt_number n) (script_words (flags_script (fmt_number n) wanted current)) (set current) =
    set wanted"
proof -
  let ?on = "filter (\<lambda>f. f \<notin> set current) (remdups wanted)"
  let ?off = "filter (\<lambda>f. f \<notin> set wanted) (remdups current)"
  have ok: "list_all flag_word ?on" "list_all flag_word ?off"
    using assms by (auto simp: list_all_iff)
  note w = fmt_number_word [THEN conjunct1, of n] fmt_number_word [THEN conjunct2, of n]
  have "apply_sets (fmt_number n) (script_words (flags_script (fmt_number n) wanted current)) (set current) =
      set current \<union> set ?on - set ?off"
    using apply_set_script [OF w ok(1), of "''on''"] apply_set_script [OF w ok(2), of "''off''" "[]"]
    by (simp add: flags_script_def Let_def script_words_def)
  also have "\<dots> = set wanted" by auto
  finally show ?thesis .
qed

theorem flags_reach_goal_witness:
  "apply_sets ''1'' (script_words (flags_script ''1'' [''boot'', ''lvm''] [''boot'', ''raid'']))
     {''boot'', ''raid''} = {''boot'', ''lvm''}"
proof -
  have "list_all flag_word [''boot'', ''lvm'']" "list_all flag_word [''boot'', ''raid'']"
    by code_simp+
  moreover have "fmt_number (Some 1) = ''1''" by code_simp
  ultimately show ?thesis
    using flags_reach_goal [of "[''boot'', ''lvm'']" "[''boot'', ''raid'']" "Some 1"] by simp
qed

section \<open>Runs on a device that is as asked\<close>

lemma part_exists_found:
  assumes "part_exists parts n"
  obtains q where "py_nth (filter (\<lambda>q. Some (num q) = n) parts) 0 = Inr q" "q \<in> set parts"
    "Some (num q) = n"
proof -
  from assms have "filter (\<lambda>q. Some (num q) = n) parts \<noteq> []"
    by (auto simp: part_exists_def list_ex_iff filter_empty_conv)
  then obtain q qs where q: "filter (\<lambda>q. Some (num q) = n) parts = q # qs"
    by (cases "filter (\<lambda>q. Some (num q) = n) parts") auto
  then have "q \<in> set parts \<and> Some (num q) = n"
    using filter_eq_ConsD [OF q] by auto
  with q that show ?thesis by (simp add: py_nth_def)
qed

lemma flags_script_same: "set wanted = set current \<Longrightarrow> flags_script n wanted current = []"
  by (simp add: flags_script_def set_script_def Let_def filter_False)

text \<open>
  A task without a label and a name is in sync with a labelled disk where its partition exists, with
  exactly the flags of the task if it gives any.
\<close>

definition in_sync :: "parted_params \<Rightarrow> device_info \<Rightarrow> bool" where
  "in_sync p info \<longleftrightarrow> \<not> given (label p) \<and> \<not> given (pname p) \<and>
     table (generic info) \<noteq> [] \<and> table (generic info) \<noteq> ''unknown'' \<and>
     part_exists (partitions info) (number p) \<and>
     (given (flags p) \<longrightarrow>
        (\<forall>q \<in> set (partitions info). Some (num q) = number p \<longrightarrow> set (p_flags q) = set (the (flags p))))"

lemma in_sync_no_script: "in_sync p info \<Longrightarrow> make_script p (table (generic info)) (partitions info) = []"
  by (simp add: in_sync_def make_script_def label_for_def)

lemma in_sync_present:
  assumes "in_sync p info"
  shows "present_action M exe False p info sh = (Inr (False, []), sh)"
proof -
  have there: "part_exists (partitions info) (number p)" using assms by (simp add: in_sync_def)
  then obtain q where q: "py_nth (filter (\<lambda>q. Some (num q) = number p) (partitions info)) 0 = Inr q"
    "q \<in> set (partitions info)" "Some (num q) = number p"
    by (rule part_exists_found)
  have "given (flags p) \<Longrightarrow> flags_script (fmt_number (number p)) (the (flags p)) (p_flags q) = []"
    using assms q by (intro flags_script_same) (auto simp: in_sync_def)
  then have "edit_script p False (partitions info) = Inr []"
    using assms by (simp add: edit_script_def q there in_sync_def)
  then show ?thesis
    by (simp add: present_action_def in_sync_no_script [OF assms] with_unit_def iobind_def ioret_def
        parted_def Let_def)
qed

text \<open>C36: Outside check mode, a run whose first look at the device finds it in sync with the task gives only
  the reading commands, the version, the label test and the listing, before and after; it reports
  no change, an empty script and what it finds at the end (or the error of that second look).\<close>

theorem parted_in_sync:
  assumes "bin_path M = Inr exe" and "check_params p = Inr ()" and "pstate p = ''present''"
    and first: "get_device_info M exe (device p) (unit p) sh = (Inr info, sh1)" and "in_sync p info"
  shows "\<exists>final sh2 cs. get_device_info M exe (device p) (unit p) sh1 = (final, sh2) \<and>
    parted_main M False p sh =
      (ebind final (\<lambda>i. Inr \<lparr>r_changed = False, disk = generic i, r_partitions = partitions i,
         r_script = []\<rparr>), sh2) \<and>
    commands sh2 = commands sh @ cs \<and> set cs \<subseteq> reading_commands exe (device p) (unit p)"
proof -
  obtain final sh2 where second: "get_device_info M exe (device p) (unit p) sh1 = (final, sh2)" by fastforce
  have run: "parted_main M False p sh =
      (ebind final (\<lambda>i. Inr \<lparr>r_changed = False, disk = generic i, r_partitions = partitions i,
         r_script = []\<rparr>), sh2)"
    using assms(1-3) first second
    by (cases final) (simp_all add: parted_main_def state_action_def iobind_def ioret_def strip_def
        in_sync_present [OF assms(5)])
  have looks: "reading.logs exe (device p) (unit p) (get_device_info M exe (device p) (unit p))"
    by (rule reading.logs_device_info)
  from reading.logsD [OF looks first] reading.logsD [OF looks second]
  have "\<exists>cs. commands sh2 = commands sh @ cs \<and> set cs \<subseteq> reading_commands exe (device p) (unit p)"
    by (fastforce simp: list_all_iff)
  with second run show ?thesis by blast
qed

text \<open>In check mode the flags of the partition are taken to be none, so the same task, if it gives flags,
  is predicted to change them.\<close>

theorem in_sync_flags_predicted:
  assumes "in_sync p info" and "given (flags p)"
  shows "\<exists>out. present_action M exe True p info sh = (Inr (True, out), sh)"
proof -
  obtain f fs where fl: "flags p = Some (f # fs)" using assms(2) by (cases "flags p" rule: given.cases) (auto simp: neq_Nil_conv)
  have "set_script n v gs \<noteq> []" if "gs \<noteq> []" for n v gs
    using that by (cases gs) (simp_all add: set_script_def)
  moreover have "remdups (f # fs) \<noteq> []" by (simp only: remdups_eq_nil_iff) simp
  ultimately have "flags_script (fmt_number (number p)) (f # fs) [] \<noteq> []"
    by (simp add: flags_script_def)
  then obtain c e where "edit_script p True (partitions info) = Inr (c # e)"
    using assms(1) by (auto simp: edit_script_def fl in_sync_def neq_Nil_conv)
  then show ?thesis
    by (simp add: present_action_def in_sync_no_script [OF assms(1)] with_unit_def iobind_def ioret_def
        parted_def Let_def)
qed

definition sample_info :: "string \<Rightarrow> device_info" where
  "sample_info tbl = \<lparr>generic = \<lparr>dev = ''/dev/sda'', g_size = Num (Fin 20), g_unit = ''gb'', table = tbl,
       model = ''Virtio'', logical_block = 512, physical_block = 512, g_chs = None\<rparr>,
     partitions = [\<lparr>num = 1, p_begin = Num (Fin 1), p_end = Num (Fin 4), p_size = Num (Fin 3),
       fstype = ''ext4'', p_flags = [''lvm'', ''boot''], p_unit = ''gb''\<rparr>]\<rparr>"

text \<open>A machine with \<open>parted\<close> 3.2 and the disk of a sample listing.\<close>

definition gnu_parted :: "nat machine" where
  "gnu_parted = \<lparr>run_command = (\<lambda>c w. (Inr (0,
       if c = version_command ''/sbin/parted'' then ''parted (GNU parted) 3.2''
       else listing compact_disk chs_geometry [disk_part (Amount 1 [0, 5] ''MB'') (Amount 501 [] ''MB'')],
       []), Suc w)),
     sysfs = (\<lambda>_ _. None), log10 = (\<lambda>_. Inr 0), bin_path = Inr ''/sbin/parted''\<rparr>"

lemma gnu_parted_info:
  "get_device_info gnu_parted ''/sbin/parted'' ''/dev/sda'' ''KiB'' \<lparr>world = w, commands = cs\<rparr> =
     (Inr compact_read, \<lparr>world = Suc (Suc w), commands = cs @ [version_command ''/sbin/parted'',
        print_command ''/sbin/parted'' ''/dev/sda'' ''KiB'']\<rparr>)"
proof -
  have "parse_version ''parted (GNU parted) 3.2'' = Inr (3, 2, 0)" by code_simp
  moreover have "print_command ''/sbin/parted'' ''/dev/sda'' ''KiB'' \<noteq> version_command ''/sbin/parted''"
    by code_simp
  ultimately show ?thesis
    by (simp add: get_device_info_def check_parted_label_def parted_version_def list_device_def run_cmd_def
        iocall_def iobind_def ioret_def gnu_parted_def compact_listing_parsed [unfolded One_nat_def])
qed

lemma printed_size_accepted:
  "size_ok z \<Longrightarrow> size_unit z \<in> set parted_units \<Longrightarrow> check_size_param nm (size_text z) = Inr ()"
  by (simp add: check_size_param_def check_size_format_def parse_size)

lemma sample_params_checked: "check_params (sample_params st l fl) = Inr ()"
proof -
  have "size_text (Amount 0 [] ''%'') = ''0%''" "size_text (Amount 100 [] ''%'') = ''100%''"
    by (simp_all add: show_nat.simps sample_digits sample_digits_Suc)
  moreover have "size_ok (Amount n [] ''%'')" "size_unit (Amount n [] ''%'') \<in> set parted_units" for n
    by (simp_all add: is_unit_char_def is_decimal_def is_digit_def parted_units_def)
  ultimately have "check_size_param nm ''0%'' = Inr ()" "check_size_param nm ''100%'' = Inr ()" for nm
    using printed_size_accepted by metis+
  then show ?thesis by (simp add: check_params_def sample_params_def)
qed

theorem parted_in_sync_witness:
  "parted_main gnu_parted False (sample_params ''present'' None (Some [''lvm'', ''boot'']))
      \<lparr>world = 0, commands = []\<rparr> =
    (Inr \<lparr>r_changed = False, disk = generic compact_read, r_partitions = partitions compact_read,
        r_script = []\<rparr>,
     \<lparr>world = 4, commands = [version_command ''/sbin/parted'', print_command ''/sbin/parted'' ''/dev/sda'' ''KiB'',
        version_command ''/sbin/parted'', print_command ''/sbin/parted'' ''/dev/sda'' ''KiB'']\<rparr>)"
proof -
  let ?p = "sample_params ''present'' None (Some [''lvm'', ''boot''])"
  have p: "device ?p = ''/dev/sda''" "unit ?p = ''KiB''" "pstate ?p = ''present''"
    by (simp_all add: sample_params_def)
  have "in_sync ?p compact_read"
    by (auto simp: in_sync_def sample_params_def compact_read_def part_exists_def)
  moreover have "bin_path gnu_parted = Inr ''/sbin/parted''" by (simp add: gnu_parted_def)
  ultimately show ?thesis
    using parted_in_sync [OF _ sample_params_checked p(3), of gnu_parted "''/sbin/parted''"
        "\<lparr>world = 0, commands = []\<rparr>" compact_read]
    by (simp add: p gnu_parted_info eval_nat_numeral)
qed

section \<open>Labels and removals\<close>

interpretation growing: command_log "\<lambda>_. True" exe dv u
  for exe dv u
  by unfold_locales simp_all

definition starts_with :: "string \<Rightarrow> ('w, string, 'a) io \<Rightarrow> ('w, string) shell \<Rightarrow> bool" where
  "starts_with c m sh \<longleftrightarrow> (\<exists>more. commands (snd (m sh)) = commands sh @ c # more)"

lemma starts_bind:
  assumes "starts_with c m sh" and "\<And>a. growing.logs (k a)"
  shows "starts_with c (iobind m k) sh"
proof -
  obtain r1 sh1 where m: "m sh = (r1, sh1)" by fastforce
  with assms(1) obtain more where cs: "commands sh1 = commands sh @ c # more"
    by (auto simp: starts_with_def)
  show ?thesis
  proof (cases r1)
    case (Inl x)
    with m cs show ?thesis by (simp add: starts_with_def iobind_def)
  next
    case (Inr a)
    obtain r2 sh2 where k: "k a sh1 = (r2, sh2)" by fastforce
    from growing.logsD [OF assms(2) k] cs m k Inr show ?thesis
      by (auto simp: starts_with_def iobind_def)
  qed
qed

text \<open>C37: A task that names a label gives \<open>mklabel\<close> as the first command of its first script,
  whatever table the disk already has: every run writes a new partition table.\<close>

theorem label_always_written:
  assumes "label p = Some l" and "l \<noteq> []" and "table (generic info) \<noteq> []" and "unit p \<noteq> []"
  shows "case present_action M exe False p info sh of (r, sh') \<Rightarrow>
    \<exists>rest more. commands sh' = commands sh @
      script_command exe (align p) (device p) (''unit '' @ unit p @ '' mklabel '' @ l @ '' '' @ rest) # more"
proof -
  obtain rest where "make_script p (table (generic info)) (partitions info) = ''mklabel '' @ l @ '' '' @ rest"
    using assms(1-3) by (auto simp: make_script_def label_for_def)
  moreover define S where "S = ''unit '' @ unit p @ '' mklabel '' @ l @ '' '' @ rest"
  ultimately have s: "with_unit (unit p) (make_script p (table (generic info)) (partitions info)) = S"
    using assms(4) by (simp add: with_unit_def)
  have S: "S \<noteq> []" by (simp add: S_def)
  have run: "starts_with (script_command exe (align p) (device p) S)
      (parted M exe False S (device p) (align p)) sh"
    using S by (auto simp: parted_def run_cmd_def iocall_def iobind_def ioret_def starts_with_def
        split: prod.splits sum.splits)
  have "growing.logs (parted M exe False s2 (device p) (align p))" for s2
    by (rule growing.logs_parted) simp
  then have "starts_with (script_command exe (align p) (device p) S)
      (present_action M exe False p info) sh"
    unfolding present_action_def s Let_def if_not_P [OF S]
    by (intro starts_bind run growing.logs_bind growing.logs_device_info growing.logs_ret)
  then show ?thesis by (auto simp: starts_with_def S_def split: prod.splits)
qed

theorem label_always_written_witness:
  "case present_action broken_machine ''/sbin/parted'' False
      (sample_params ''present'' (Some ''gpt'') None) (sample_info ''gpt'')
      \<lparr>world = 0, commands = []\<rparr> of (r, sh') \<Rightarrow>
    \<exists>rest more. commands sh' = [] @ script_command ''/sbin/parted'' ''optimal'' ''/dev/sda''
      (''unit '' @ ''KiB'' @ '' mklabel '' @ ''gpt'' @ '' '' @ rest) # more"
  using label_always_written [where p = "sample_params ''present'' (Some ''gpt'') None" and
      l = "''gpt''" and info = "sample_info ''gpt''" and M = broken_machine and
      exe = "''/sbin/parted''" and sh = "\<lparr>world = 0, commands = []\<rparr>"]
  by (simp add: sample_params_def sample_info_def)

text \<open>Asked to remove a partition that does not exist, the module does nothing and reports no change,
  but in check mode it predicts a change and an \<open>rm\<close> command.\<close>

theorem absent_prediction_differs:
  assumes "\<not> part_exists (partitions info) (number p)"
  shows "absent_action M exe False p info sh = (Inr (False, []), sh) \<and>
    absent_action M exe True p info sh = (Inr (True, ''rm '' @ fmt_number (number p) @ '' ''), sh)"
  using assms by (simp_all add: absent_action_def Let_def parted_def iobind_def ioret_def)

theorem absent_prediction_differs_witness:
  "absent_action broken_machine ''/sbin/parted'' True
      (sample_params ''absent'' None None) (sample_info ''gpt''\<lparr>partitions := []\<rparr>)
      \<lparr>world = 0, commands = []\<rparr> = (Inr (True, ''rm 1 ''), \<lparr>world = 0, commands = []\<rparr>)"
proof -
  have "fmt_number (Some 1) = ''1''" by code_simp
  then show ?thesis
    using absent_prediction_differs [of "sample_info ''gpt''\<lparr>partitions := []\<rparr>"
        "sample_params ''absent'' None None" broken_machine "''/sbin/parted''"
        "\<lparr>world = 0, commands = []\<rparr>"]
    by (simp add: sample_params_def part_exists_def)
qed

end
