(* ===== verification/CoreProv.thy ===== *)
theory CoreProv
  imports Effects PyValue OS_Files
begin

text \<open>
  \<open>python/coreprov\<close>: the scripts that install the FusionPBX, HAProxy and syslog services on
  CoreOS hosts. Their base classes \<open>FreeIPA\<close> and \<open>RemoteControl\<close> are not in the repository:
  a method of theirs is a call on the record \<open>control\<close>, which may fail and may return a value.
\<close>

section \<open>Calls\<close>

datatype call =
    Print string
  | RemoteRun string string
  | RemoteSudo string string
  | PutFile string pyval string
  | RenderAndPut string string string bool
  | RenderJinja2 string string
  | HConfig string
  | HConfigKey string string
  | CreateSvcPrincipal string string
  | IssueCertPem string string string string string string

record 'w control =
  perform :: "call \<Rightarrow> 'w \<Rightarrow> (exit + pyval) \<times> 'w"
  initial_host :: string

type_synonym 'w prog = "('w, call, pyval) io"

definition issue :: "'w control \<Rightarrow> call \<Rightarrow> 'w prog" where
  "issue C = iocall (perform C)"

fun sequence :: "'w prog list \<Rightarrow> 'w prog" where
  "sequence [] = ioret (Inr PNone)"
| "sequence (m # ms) = iobind m (\<lambda>_. sequence ms)"

text \<open>\<open>posixpath.join\<close> of two parts.\<close>

definition os_path_join :: "string \<Rightarrow> string \<Rightarrow> string" where
  "os_path_join a b =
     (if take 1 b = ''/'' then b
      else if a = [] \<or> last a = CHR ''/'' then a @ b else a @ ''/'' @ b)"

section \<open>FusionPBX\<close>

definition fusionpbx_docker_image :: string where
  "fusionpbx_docker_image = ''zultron/fusionpbx-docker''"

definition fusionpbx_data_dir :: string where
  "fusionpbx_data_dir = ''/media/state/fusionpbx-data''"

definition pull_fusionpbx_docker_image :: "'w control \<Rightarrow> string \<Rightarrow> 'w prog" where
  "pull_fusionpbx_docker_image C host = sequence
     [issue C (Print (''Pulling FusionPBX docker image on host '' @ host)),
      issue C (RemoteRun (''docker pull '' @ fusionpbx_docker_image) host)]"

definition fusionpbx_file_path :: "string option \<Rightarrow> string" where
  "fusionpbx_file_path fname =
     (case fname of None \<Rightarrow> fusionpbx_data_dir | Some f \<Rightarrow> os_path_join fusionpbx_data_dir f)"

definition install_fusionpbx_certs :: "'w control \<Rightarrow> string \<Rightarrow> 'w prog" where
  "install_fusionpbx_certs C host = sequence
     [issue C (Print (''Installing FusionPBX certs on '' @ host)),
      issue C (CreateSvcPrincipal host ''PBX''),
      issue C (IssueCertPem host ''PBX'' (fusionpbx_file_path (Some ''cert.pem''))
        (fusionpbx_file_path (Some ''key.pem'')) (fusionpbx_file_path (Some ''ca.pem'')) host)]"

text \<open>\<open>self.hconfig(host).has_key(k)\<close>\<close>

fun has_key :: "pyval \<Rightarrow> string \<Rightarrow> exit + bool" where
  "has_key (PDict d) k = Inr (dhas d k)"
| "has_key _ k = Inl (Raise (AttributeError ''object has no attribute has_key''))"

text \<open>\<open>'...%s...' % v\<close> followed by the call that takes the text.\<close>

definition call_with :: "'w control \<Rightarrow> (string \<Rightarrow> call) \<Rightarrow> pyval \<Rightarrow> 'w prog" where
  "call_with C c v = iobind (ioret (fmt_s v)) (\<lambda>t. issue C (c t))"

definition pbx_unit :: string where
  "pbx_unit = fusionpbx_file_path (Some ''pbx@.service'')"

definition start_fusionpbx_server :: "'w control \<Rightarrow> string \<Rightarrow> 'w prog" where
  "start_fusionpbx_server C host =
     iobind (issue C (HConfig host)) (\<lambda>conf.
     iobind (ioret (has_key conf ''pbx_ip'')) (\<lambda>configured.
       if \<not> configured then issue C (Print (''PBX not configured for host '' @ host))
       else
         iobind (issue C (Print (''Installing FusionPBX service on host '' @ host))) (\<lambda>_.
         iobind (issue C (HConfigKey host ''host_id'')) (\<lambda>hid. sequence
           [issue C (RemoteSudo (''install -d -o core '' @ fusionpbx_file_path None) host),
            issue C (RenderAndPut host ''pbx@.service'' pbx_unit False),
            issue C (RemoteRun (''fleetctl submit '' @ pbx_unit) host),
            call_with C (\<lambda>t. RemoteRun (''fleetctl load pbx@'' @ t @ ''.service'') host) hid,
            issue C (Print (''Starting Fusionpbx service on '' @ host)),
            call_with C (\<lambda>t. RemoteRun (''fleetctl start pbx@'' @ t @ ''.service'') host) hid,
            issue C (Print ''Be sure iptables, system.env and HAProxy configuration are''),
            iobind (issue C (HConfigKey host ''pbx_db_pass''))
              (call_with C (\<lambda>t. Print (''up to date, and configure FusionPBX with password '' @ t))),
            issue C (Print (''at https://'' @ host @ ''/pbx''))]))))"

definition install_fusionpbx_config :: "'w control \<Rightarrow> string \<Rightarrow> 'w prog" where
  "install_fusionpbx_config C host = sequence
     [issue C (Print (''Installing FusionPBX config on '' @ host)),
      issue C (RemoteSudo (''install -d -o core '' @ fusionpbx_file_path None) host),
      issue C (RenderAndPut host ''pbx-start-helper.sh''
        (fusionpbx_file_path (Some ''pbx-start-helper.sh'')) True)]"

section \<open>HAProxy\<close>

definition haproxy_docker_image :: string where
  "haproxy_docker_image = ''haproxy''"

definition haproxy_data_dir :: string where
  "haproxy_data_dir = ''/media/state/haproxy-data''"

definition pull_haproxy_docker_image :: "'w control \<Rightarrow> string \<Rightarrow> 'w prog" where
  "pull_haproxy_docker_image C host = sequence
     [issue C (Print (''Pulling docker image on host '' @ host)),
      issue C (RemoteRun (''docker pull '' @ haproxy_docker_image) host)]"

definition haproxy_file_path :: "string \<Rightarrow> string" where
  "haproxy_file_path fname = os_path_join haproxy_data_dir fname"

definition install_haproxy_certs :: "'w control \<Rightarrow> string \<Rightarrow> 'w prog" where
  "install_haproxy_certs C host = sequence
     [issue C (Print (''Installing HAProxy certs on '' @ host)),
      issue C (CreateSvcPrincipal host ''HAPROXY''),
      issue C (IssueCertPem host ''HAPROXY'' (haproxy_file_path ''cert.pem'')
        (haproxy_file_path ''key.pem'') (haproxy_file_path ''ca.pem'') host)]"

text \<open>\<open>self.put_file(host, self.render_jinja2(h, template), path)\<close>\<close>

definition put_rendered :: "'w control \<Rightarrow> string \<Rightarrow> string \<Rightarrow> string \<Rightarrow> string \<Rightarrow> 'w prog" where
  "put_rendered C host h template path =
     iobind (issue C (RenderJinja2 h template)) (\<lambda>t. issue C (PutFile host t path))"

definition install_haproxy_config :: "'w control \<Rightarrow> string \<Rightarrow> 'w prog" where
  "install_haproxy_config C host = sequence
     [issue C (Print (''Installing HAProxy config file on '' @ host)),
      issue C (RemoteSudo (''install -d -o core '' @ haproxy_data_dir) host),
      put_rendered C host host ''haproxy.cfg'' (haproxy_file_path ''haproxy.cfg'')]"

definition install_haproxy_units :: "'w control \<Rightarrow> string \<Rightarrow> 'w prog" where
  "install_haproxy_units C host = sequence
     [issue C (Print ''Installing HAProxy (and sidekick) service''),
      put_rendered C host (initial_host C) ''haproxy.service'' (haproxy_file_path ''haproxy.service''),
      put_rendered C host (initial_host C) ''haproxy-iptables.service''
        (haproxy_file_path ''haproxy-iptables.service''),
      issue C (RemoteRun (''fleetctl submit '' @ haproxy_file_path ''haproxy.service'') host),
      issue C (RemoteRun (''fleetctl submit '' @ haproxy_file_path ''haproxy-iptables.service'') host),
      issue C (RemoteRun ''fleetctl load haproxy.service'' host),
      issue C (RemoteRun ''fleetctl load haproxy-iptables.service'' host)]"

definition start_haproxy_server :: "'w control \<Rightarrow> string option \<Rightarrow> 'w prog" where
  "start_haproxy_server C hostopt =
     (let host = (case hostopt of None \<Rightarrow> initial_host C | Some h \<Rightarrow> h) in
      sequence
       [if host = initial_host C then install_haproxy_units C host else ioret (Inr PNone),
        issue C (Print (''Starting HAProxy service on '' @ host)),
        issue C (RemoteRun ''fleetctl start haproxy.service'' host)])"

section \<open>Syslog\<close>

definition syslog_docker_image :: string where
  "syslog_docker_image = ''zultron/freeipa-cloud-prov:syslog''"

definition syslog_data_dir :: string where
  "syslog_data_dir = ''/media/state/syslog-data''"

definition syslog_log_dir :: string where
  "syslog_log_dir = syslog_data_dir @ ''/logs''"

definition pull_syslog_docker_image :: "'w control \<Rightarrow> string \<Rightarrow> 'w prog" where
  "pull_syslog_docker_image C host = sequence
     [issue C (Print (''Pulling docker image on host '' @ host)),
      issue C (RemoteRun (''docker pull '' @ syslog_docker_image) host)]"

definition syslog_file_path :: "string \<Rightarrow> string" where
  "syslog_file_path fname = os_path_join syslog_data_dir fname"

definition install_syslog_config :: "'w control \<Rightarrow> string \<Rightarrow> 'w prog" where
  "install_syslog_config C host = sequence
     [issue C (Print (''Installing rsyslog configuration on '' @ host)),
      issue C (RemoteSudo (''install -d -o core '' @ syslog_data_dir) host),
      issue C (RemoteSudo (''install -d -o syslog '' @ syslog_log_dir) host),
      put_rendered C host host ''rsyslog.conf'' (syslog_file_path ''rsyslog.conf'')]"

definition start_syslog_server :: "'w control \<Rightarrow> 'w prog" where
  "start_syslog_server C = sequence
     [issue C (Print (''Starting syslog services (on '' @ initial_host C @ '')'')),
      put_rendered C (initial_host C) (initial_host C) ''syslog.service''
        (syslog_file_path ''syslog.service''),
      issue C (RemoteRun (''fleetctl submit '' @ syslog_file_path ''syslog.service'') (initial_host C)),
      issue C (RemoteRun ''fleetctl start syslog.service'' (initial_host C))]"

section \<open>Units are there before they are submitted\<close>

text \<open>The files a call puts on a host, and a call that is safe: what is submitted is there.\<close>

fun puts :: "call \<Rightarrow> (string \<times> string) set" where
  "puts (PutFile host t path) = {(path, host)}"
| "puts (RenderAndPut host t path raw) = {(path, host)}"
| "puts _ = {}"

definition put_so_far :: "call list \<Rightarrow> (string \<times> string) set" where
  "put_so_far cs = \<Union> (puts ` set cs)"

fun submits :: "call \<Rightarrow> (string \<times> string) set" where
  "submits (RemoteRun cmd host) =
     (if take 16 cmd = ''fleetctl submit '' then {(drop 16 cmd, host)} else {})"
| "submits _ = {}"

definition submit_safe :: "call list \<Rightarrow> call \<Rightarrow> bool" where
  "submit_safe cs c \<longleftrightarrow> submits c \<subseteq> put_so_far cs"

definition submitted_after_put :: "call list \<Rightarrow> bool" where
  "submitted_after_put cs \<longleftrightarrow> (\<forall>i < length cs. submit_safe (take i cs) (cs ! i))"

interpretation units: log_invariant submitted_after_put submit_safe
proof
  fix cs c assume "submitted_after_put cs" "submit_safe cs c"
  then show "submitted_after_put (cs @ [c])"
    by (auto simp: submitted_after_put_def nth_append less_Suc_eq)
qed

text \<open>\<open>having F\<close>: the files \<open>F\<close> have been put.\<close>

definition having :: "(string \<times> string) set \<Rightarrow> call list \<Rightarrow> bool" where
  "having F cs \<longleftrightarrow> F \<subseteq> put_so_far cs"

lemma put_so_far_snoc: "put_so_far (cs @ [c]) = put_so_far cs \<union> puts c"
  by (auto simp: put_so_far_def)

lemma keeps_put:
  assumes "submits c \<subseteq> F"
  shows "units.keeps (having F) (issue C c) (having (F \<union> puts c))"
  unfolding issue_def
  by (rule units.keeps_call)
    (use assms in \<open>auto simp: having_def put_so_far_snoc submit_safe_def\<close>)

lemma keeps_plain:
  assumes "submits c \<subseteq> F"
  shows "units.keeps (having F) (issue C c) (having F)"
  by (rule units.keeps_weaken [OF keeps_put [OF assms]]) (auto simp: having_def)

lemma keeps_call_with:
  assumes "\<And>t. submits (c t) \<subseteq> F"
  shows "units.keeps (having F) (call_with C c v) (having F)"
  unfolding call_with_def
  by (intro units.keeps_bind [OF units.keeps_ret] keeps_plain assms)

lemma keeps_put_rendered:
  "units.keeps (having F) (put_rendered C host h template path) (having (insert (path, host) F))"
  unfolding put_rendered_def
proof (rule units.keeps_bind [OF keeps_plain])
  fix t
  show "units.keeps (having F) (issue C (PutFile host t path)) (having (insert (path, host) F))"
    using keeps_put [of "PutFile host t path" F C] by simp
qed simp

lemma keeps_render_put:
  "units.keeps (having F) (issue C (RenderAndPut host template path raw)) (having (insert (path, host) F))"
  using keeps_put [of "RenderAndPut host template path raw" F C] by simp

lemma keeps_sequence_Nil: "units.keeps (having F) (sequence []) (having F)"
  by (simp add: units.keeps_ret)

lemma keeps_sequence_Cons:
  "units.keeps (having F) m (having G) \<Longrightarrow> units.keeps (having G) (sequence ms) (having H) \<Longrightarrow>
     units.keeps (having F) (sequence (m # ms)) (having H)"
  by (auto intro: units.keeps_bind)

lemmas keeps_rules = keeps_sequence_Cons keeps_sequence_Nil keeps_put_rendered keeps_render_put
  keeps_call_with keeps_plain

text \<open>The entry points that submit units.\<close>

datatype service = Haproxy "string option" | Syslogd | Pbx string

fun start_service :: "'w control \<Rightarrow> service \<Rightarrow> 'w prog" where
  "start_service C (Haproxy h) = start_haproxy_server C h"
| "start_service C Syslogd = start_syslog_server C"
| "start_service C (Pbx h) = start_fusionpbx_server C h"

lemma keeps_install_haproxy:
  "units.keeps (having F) (install_haproxy_units C host)
     (having (insert (haproxy_file_path ''haproxy-iptables.service'', host)
        (insert (haproxy_file_path ''haproxy.service'', host) F)))"
  unfolding install_haproxy_units_def
  by (rule keeps_rules | simp; fail)+

lemma keeps_if:
  "(b \<Longrightarrow> units.keeps P m Q) \<Longrightarrow> (\<not> b \<Longrightarrow> units.keeps P m' Q) \<Longrightarrow> units.keeps P (if b then m else m') Q"
  by simp

lemma keeps_none: "units.keeps (having F) m (having G) \<Longrightarrow> units.keeps (having F) m (having {})"
  by (erule units.keeps_weaken) (auto simp: having_def)

lemma keeps_haproxy: "units.keeps (having {}) (start_haproxy_server C h) (having {})"
  unfolding start_haproxy_server_def Let_def
  by (rule keeps_sequence_Cons [where G = "{}"] keeps_if keeps_none [OF keeps_install_haproxy]
      units.keeps_ret keeps_rules | simp; fail)+

lemma keeps_syslog: "units.keeps (having {}) (start_syslog_server C) (having {})"
  unfolding start_syslog_server_def
  by (rule keeps_none, (rule keeps_rules | simp; fail)+)

lemma keeps_pbx: "units.keeps (having {}) (start_fusionpbx_server C host) (having {})"
proof -
  have units: "units.keeps (having {}) (sequence
     [issue C (RemoteSudo (''install -d -o core '' @ fusionpbx_file_path None) host),
      issue C (RenderAndPut host ''pbx@.service'' pbx_unit False),
      issue C (RemoteRun (''fleetctl submit '' @ pbx_unit) host),
      call_with C (\<lambda>t. RemoteRun (''fleetctl load pbx@'' @ t @ ''.service'') host) hid,
      issue C (Print (''Starting Fusionpbx service on '' @ host)),
      call_with C (\<lambda>t. RemoteRun (''fleetctl start pbx@'' @ t @ ''.service'') host) hid,
      issue C (Print ''Be sure iptables, system.env and HAProxy configuration are''),
      iobind (issue C (HConfigKey host ''pbx_db_pass''))
        (call_with C (\<lambda>t. Print (''up to date, and configure FusionPBX with password '' @ t))),
      issue C (Print (''at https://'' @ host @ ''/pbx''))]) (having {})" for hid
    by (rule keeps_none, (rule keeps_rules units.keeps_bind | simp; fail)+)
  show ?thesis
    unfolding start_fusionpbx_server_def
    by (rule units keeps_if units.keeps_ret units.keeps_bind keeps_plain | simp; fail)+
qed

lemma keeps_start_service: "units.keeps (having {}) (start_service C sv) (having {})"
  by (cases sv) (simp_all add: keeps_haproxy keeps_syslog keeps_pbx)

text \<open>C40: Whenever a unit file is submitted on a host, it has been put there before by the same run, for
  each of the services, for every host and whatever call fails.\<close>

theorem units_put_before_submit:
  "case start_service C sv \<lparr>world = w, commands = []\<rparr> of (r, sh') \<Rightarrow> submitted_after_put (commands sh')"
proof -
  have "submitted_after_put []" "having {} []" by (simp_all add: submitted_after_put_def having_def)
  then have "submitted_after_put (commands sh')"
    if "start_service C sv \<lparr>world = w, commands = []\<rparr> = (r, sh')" for r sh'
    using units.keepsD(1) [OF keeps_start_service _ _ that] by simp
  then show ?thesis by (simp split: prod.splits)
qed

end
