(* ===== verification/Filters.thy ===== *)
theory Filters
  imports PyValue
begin

text \<open>
  The Ansible filter plugins: \<open>lib/filter_plugins/DO_filters.py\<close>, \<open>domain_ip_filters.py\<close>,
  \<open>freeipa_filters.py\<close> and \<open>ipa_cert_to_pem.py\<close>. A string in this model is a byte string,
  as in the interpreter the code is written for.
\<close>

section \<open>\<open>DO_filters\<close>\<close>

definition formatmapstr :: "string list \<Rightarrow> string \<Rightarrow> string \<Rightarrow> exit + string" where
  "formatmapstr data fmt sep =
     ebind (emap (str_format fmt) data) (\<lambda>items. Inr (join sep items))"

definition formatmaplist :: "string list \<Rightarrow> string \<Rightarrow> exit + string list" where
  "formatmaplist data fmt = emap (str_format fmt) data"

text \<open>\<open>hex(n)[1:]\<close>: no padding, so one digit below 16.\<close>

definition hex_lower :: "nat \<Rightarrow> char" where
  "hex_lower n = (if n < 10 then char_of (48 + n) else char_of (87 + n))"

definition hex_tail :: "nat \<Rightarrow> string" where
  "hex_tail n = CHR ''x'' # (if n < 16 then [hex_lower n] else [hex_lower (n div 16), hex_lower (n mod 16)])"

definition unit_char :: "char \<Rightarrow> bool" where
  "unit_char c \<longleftrightarrow> (let n = (of_char c :: nat) in
     97 \<le> n \<and> n \<le> 122 \<or> 65 \<le> n \<and> n \<le> 90 \<or> 48 \<le> n \<and> n \<le> 57 \<or> n = 95)"

definition escape_step :: "nat \<times> char \<Rightarrow> string \<Rightarrow> string" where
  "escape_step p res =
     (let i = fst p; c = snd p in
      if i = 0 \<and> c = CHR ''/'' then res
      else if c = CHR ''.'' \<and> res = '''' then res @ CHR 0x5C # ''x2e''
      else if unit_char c then res @ [c]
      else if c = CHR ''/'' then res @ ''-''
      else res @ CHR 0x5C # hex_tail (of_char c))"

definition systemd_escape :: "string \<Rightarrow> string" where
  "systemd_escape data = fold escape_step (enumerate 0 data) ''''"

definition domain_to_dn :: "string \<Rightarrow> exit + string" where
  "domain_to_dn data =
     ebind (emap (str_format ''dc={}'') (split_on CHR ''.'' data)) (\<lambda>ds. Inr (join '','' ds))"

definition ip_addr_list :: "string list \<Rightarrow> pydict \<Rightarrow> exit + pyval list" where
  "ip_addr_list host_list hostvars =
     emap (\<lambda>h. ebind (dindex hostvars h) (\<lambda>v.
                ebind (py_index v ''ansible_default_ipv4'') (\<lambda>a. py_index a ''address''))) host_list"

section \<open>\<open>domain_ip_filters\<close>\<close>

definition shortname :: "string \<Rightarrow> string" where
  "shortname data = hd (split_on CHR ''.'' data)"

definition last_octet :: "string \<Rightarrow> string" where
  "last_octet data = last (split_on CHR ''.'' data)"

section \<open>\<open>freeipa_filters\<close>\<close>

text \<open>\<open>hostvars[s]\<close> for a member of the group; group members are names.\<close>

fun host_entry :: "pydict \<Rightarrow> pyval \<Rightarrow> exit + pyval" where
  "host_entry hostvars (PStr s) = dindex hostvars s"
| "host_entry hostvars _ = Inl (Raise (OutOfModel ''a host name that is no string''))"

definition server_ip :: "pydict \<Rightarrow> pyval \<Rightarrow> exit + pyval list" where
  "server_ip hostvars s =
     ebind (host_entry hostvars s) (\<lambda>v.
     ebind (py_in (PStr ''ipa_ip_addr'') v) (\<lambda>has.
       if has then ebind (py_index v ''ipa_ip_addr'') (\<lambda>ip. Inr [ip]) else Inr []))"

definition freeipa_dns_server_ips :: "pydict \<Rightarrow> exit + pyval" where
  "freeipa_dns_server_ips hostvars =
     (case hostvars of
        [] \<Rightarrow> Inr (PList [])
      | (random_host, v) # _ \<Rightarrow>
          ebind (py_get v ''groups'' (PDict [])) (\<lambda>groups.
          ebind (py_get groups ''freeipa_servers'' PNone) (\<lambda>dns_server_list.
            case dns_server_list of
              PList ss \<Rightarrow>
                ebind (emap (server_ip hostvars) ss) (\<lambda>ips. Inr (PList (concat ips)))
            | _ \<Rightarrow> Inr PNone)))"

section \<open>\<open>ipa_cert_to_pem\<close>\<close>

text \<open>The loop: \<open>cert\<close> accumulates one line of 64 characters at a time.\<close>

function pem_loop :: "string \<Rightarrow> string \<Rightarrow> string \<times> string" where
  "pem_loop cert data =
     (if 64 \<le> length data then pem_loop (cert @ take 64 data @ [CHR 0x0A]) (drop 64 data)
      else (cert, data))"
  by pat_completeness auto
termination by (relation "measure (\<lambda>(_, data). length data)") auto

declare pem_loop.simps [simp del]

definition ipa_cert_to_pem :: "string \<Rightarrow> string" where
  "ipa_cert_to_pem data =
     (let (cert, rest) = pem_loop (''-----BEGIN CERTIFICATE-----'' @ [CHR 0x0A]) data
      in cert @ (if rest = [] then [] else rest @ [CHR 0x0A]) @
         ''-----END CERTIFICATE-----'' @ [CHR 0x0A])"

text \<open>\<open>re.compile(r'CN=([^,]*),').search\<close>: the first position at which the pattern matches.\<close>

definition cn_at :: "string \<Rightarrow> string option" where
  "cn_at s =
     (if take 3 s = ''CN='' then
        let r = drop 3 s; cn = takeWhile (\<lambda>c. c \<noteq> CHR '','') r in
        if length cn < length r then Some cn else None
      else None)"

fun cn_search :: "string \<Rightarrow> string option" where
  "cn_search [] = None"
| "cn_search (c # cs) = (case cn_at (c # cs) of Some cn \<Rightarrow> Some cn | None \<Rightarrow> cn_search cs)"

definition cn_from_dn :: "string \<Rightarrow> string option" where
  "cn_from_dn data = cn_search data"

section \<open>Lemmas: unit names\<close>

text \<open>The escape of one character, whatever precedes it.\<close>

definition esc_char :: "char \<Rightarrow> string" where
  "esc_char c =
     (if unit_char c then [c] else if c = CHR ''/'' then ''-'' else CHR 0x5C # hex_tail (of_char c))"

definition drop_slash :: "string \<Rightarrow> string" where
  "drop_slash s = (case s of [] \<Rightarrow> [] | c # cs \<Rightarrow> if c = CHR ''/'' then cs else s)"

lemma esc_char_dot: "esc_char CHR ''.'' = CHR 0x5C # ''x2e''"
  by code_simp

text \<open>The special case of an initial dot is the general rule: a dot is escaped everywhere.\<close>

lemma escape_step_esc_char:
  "i \<noteq> 0 \<or> c \<noteq> CHR ''/'' \<Longrightarrow> escape_step (i, c) res = res @ esc_char c"
  using esc_char_dot
  by (cases "c = CHR ''.''") (auto simp: escape_step_def esc_char_def Let_def unit_char_def)

lemma fold_escape_step:
  "0 < n \<Longrightarrow> fold escape_step (enumerate n s) res = res @ concat (map esc_char s)"
  by (induction s arbitrary: n res) (simp_all add: escape_step_esc_char)

lemma systemd_escape_eq: "systemd_escape s = concat (map esc_char (drop_slash s))"
proof (cases s)
  case (Cons c cs)
  then show ?thesis
  proof (cases "c = CHR ''/''")
    case True
    with Cons show ?thesis
      by (simp add: systemd_escape_def drop_slash_def fold_escape_step escape_step_def)
  next
    case False
    with Cons show ?thesis
      by (simp add: systemd_escape_def drop_slash_def fold_escape_step escape_step_esc_char)
  qed
qed (simp add: systemd_escape_def drop_slash_def)

text \<open>What \<open>systemd\<close> reads in a unit name.\<close>

definition hex_lower_val :: "char \<Rightarrow> nat" where
  "hex_lower_val c = (let n = of_char c in if n < 58 then n - 48 else n - 87)"

fun systemd_unescape :: "string \<Rightarrow> string" where
  "systemd_unescape [] = []"
| "systemd_unescape (c # cs) =
     (if c = CHR 0x5C then
        (case cs of
           x # a # b # rest \<Rightarrow>
             char_of (16 * hex_lower_val a + hex_lower_val b) # systemd_unescape rest
         | _ \<Rightarrow> c # systemd_unescape cs)
      else (if c = CHR ''-'' then CHR ''/'' else c) # systemd_unescape cs)"

lemma hex_lower_val: "n < 16 \<Longrightarrow> hex_lower_val (hex_lower n) = n"
  by (auto simp: hex_lower_def hex_lower_val_def Let_def)

lemma unit_char_plain: "unit_char c \<Longrightarrow> c \<noteq> CHR 0x5C \<and> c \<noteq> CHR ''-''"
  by (auto simp: unit_char_def)

lemma unescape_esc_char:
  assumes "16 \<le> (of_char c :: nat)"
  shows "systemd_unescape (esc_char c @ t) = c # systemd_unescape t"
proof -
  have "char_of (16 * ((of_char c :: nat) div 16) + of_char c mod 16) = c"
    by (simp only: mult_div_mod_eq char_of_char)
  with assms unit_char_plain [of c] of_char_div16 [of c] show ?thesis
    by (auto simp: esc_char_def hex_tail_def hex_lower_val)
qed

lemma unescape_concat:
  "list_all (\<lambda>c. 16 \<le> (of_char c :: nat)) s \<Longrightarrow> systemd_unescape (concat (map esc_char s)) = s"
  by (induction s) (simp_all add: unescape_esc_char)

lemma hex_lower_unit: "n < 16 \<Longrightarrow> unit_char (hex_lower n)"
  by (auto simp: hex_lower_def unit_char_def Let_def)

definition name_char :: "char \<Rightarrow> bool" where
  "name_char c \<longleftrightarrow> unit_char c \<or> c = CHR ''-'' \<or> c = CHR 0x5C"

lemma esc_char_alphabet: "list_all name_char (esc_char c)"
  using of_char_div16 [of c]
  by (auto simp: esc_char_def hex_tail_def name_char_def hex_lower_unit)
    (auto simp: unit_char_def)

text \<open>C20: A path can be read back from its unit name: undoing the escapes gives the path without
  its leading slash, for every path without control characters below 16.\<close>

theorem systemd_escape_reversible:
  assumes "list_all (\<lambda>c. 16 \<le> (of_char c :: nat)) path"
  shows "systemd_unescape (systemd_escape path) = drop_slash path"
proof -
  have "list_all (\<lambda>c. 16 \<le> (of_char c :: nat)) (drop_slash path)"
    using assms by (cases path) (auto simp: drop_slash_def)
  then show ?thesis by (simp add: systemd_escape_eq unescape_concat)
qed

theorem systemd_escape_reversible_witness:
  "systemd_unescape (systemd_escape ''/media/my-disk'') = ''media/my-disk''"
  using systemd_escape_reversible [of "''/media/my-disk''"] by (simp add: drop_slash_def)

text \<open>A unit name is made of letters, digits, underscores, dashes and backslashes only, for
  every input.\<close>

theorem systemd_escape_alphabet: "list_all name_char (systemd_escape path)"
  using esc_char_alphabet by (auto simp: systemd_escape_eq list_all_iff)

text \<open>Below 16 the escape has one digit, and two different paths get one name.\<close>

lemma systemd_escape_control: "systemd_escape [CHR 0x09, CHR ''a''] = systemd_escape [CHR 0x9A]"
  by code_simp

text \<open>A dot inside a name is escaped too, where \<open>systemd-escape(1)\<close> keeps it.\<close>

lemma systemd_escape_inner_dot:
  "systemd_escape ''/media/state.d'' = ''media-state'' @ CHR 0x5C # ''x2ed''"
  by code_simp

section \<open>Lemmas: certificates\<close>

lemma pem_loop_lines:
  assumes "pem_loop cert data = (out, rest)"
  shows "\<exists>ls. out = cert @ concat (map (\<lambda>l. l @ [CHR 0x0A]) ls) \<and> concat ls @ rest = data \<and>
           list_all (\<lambda>l. length l = 64) ls \<and> length rest < 64"
  using assms
proof (induction cert data rule: pem_loop.induct)
  case (1 cert data)
  show ?case
  proof (cases "64 \<le> length data")
    case True
    with 1 obtain ls where ls:
      "out = (cert @ take 64 data @ [CHR 0x0A]) @ concat (map (\<lambda>l. l @ [CHR 0x0A]) ls)"
      "concat ls @ rest = drop 64 data" "list_all (\<lambda>l. length l = 64) ls" "length rest < 64"
      by (auto simp: pem_loop.simps [of cert data])
    with True show ?thesis
      by (intro exI [of _ "take 64 data # ls"]) simp
  next
    case False
    with 1(2) show ?thesis
      by (intro exI [of _ "[]"]) (simp add: pem_loop.simps [of cert data])
  qed
qed

text \<open>C21: The PEM text is the begin line, the data cut into lines of 64 characters of which only the
  last may be shorter (and is not empty), and the end line; joined, the lines are the data.\<close>

theorem ipa_cert_to_pem_lines:
  "\<exists>ls. ipa_cert_to_pem data =
          concat (map (\<lambda>l. l @ [CHR 0x0A])
            ([''-----BEGIN CERTIFICATE-----''] @ ls @ [''-----END CERTIFICATE-----''])) \<and>
        concat ls = data \<and> list_all (\<lambda>l. length l = 64) (butlast ls) \<and>
        list_all (\<lambda>l. 0 < length l \<and> length l \<le> 64) ls"
proof -
  obtain out rest where p: "pem_loop (''-----BEGIN CERTIFICATE-----'' @ [CHR 0x0A]) data = (out, rest)"
    by fastforce
  from pem_loop_lines [OF p] obtain ls where ls:
    "out = (''-----BEGIN CERTIFICATE-----'' @ [CHR 0x0A]) @ concat (map (\<lambda>l. l @ [CHR 0x0A]) ls)"
    "concat ls @ rest = data" "list_all (\<lambda>l. length l = 64) ls" "length rest < 64" by blast
  show ?thesis
  proof (cases "rest = []")
    case True
    with ls p show ?thesis
      by (intro exI [of _ ls])
        (auto simp: ipa_cert_to_pem_def list_all_iff dest: in_set_butlastD)
  next
    case False
    with ls p show ?thesis
      by (intro exI [of _ "ls @ [rest]"]) (auto simp: ipa_cert_to_pem_def list_all_iff)
  qed
qed

lemma cn_at_first: "CHR '','' \<notin> set cn \<Longrightarrow> cn_at (''CN='' @ cn @ CHR '','' # rest) = Some cn"
proof -
  assume "CHR '','' \<notin> set cn"
  then have "takeWhile (\<lambda>c. c \<noteq> CHR '','') (cn @ CHR '','' # rest) = cn"
    by (subst takeWhile_append2) auto
  then show ?thesis by (simp add: cn_at_def Let_def)
qed

lemma cn_at_no_comma:
  assumes "CHR '','' \<notin> set s"
  shows "cn_at s = None"
proof -
  have "takeWhile (\<lambda>c. c \<noteq> CHR '','') (drop 3 s) = drop 3 s"
    by (rule takeWhile_eq_all_conv [THEN iffD2]) (use assms in \<open>auto dest: in_set_dropD\<close>)
  then show ?thesis unfolding cn_at_def Let_def by (simp only: less_irrefl if_False if_cancel)
qed

text \<open>The common name of a DN that starts with it; one that ends the DN is not found.\<close>

lemma cn_from_dn_first:
  assumes "CHR '','' \<notin> set cn"
  shows "cn_from_dn (''CN='' @ cn @ CHR '','' # rest) = Some cn"
  using cn_at_first [OF assms, of rest] by (simp add: cn_from_dn_def)

lemma cn_from_dn_single: "CHR '','' \<notin> set s \<Longrightarrow> cn_from_dn s = None"
  unfolding cn_from_dn_def by (induction s) (simp_all add: cn_at_no_comma)

section \<open>Lemmas: domain names\<close>

definition dc_attr :: "string \<Rightarrow> string" where
  "dc_attr f = ''dc='' @ f"

lemma str_format_dc: "str_format ''dc={}'' = (\<lambda>x. Inr (dc_attr x))"
  by (rule ext) (simp add: str_format_def dc_attr_def)

lemma domain_to_dn_eq:
  "domain_to_dn data = Inr (join '','' (map dc_attr (split_on CHR ''.'' data)))"
  by (simp add: domain_to_dn_def str_format_dc)

text \<open>The DN of a domain has one \<open>dc\<close> component per label, and the labels read back from it
  are the domain name, for every name without a comma.\<close>

theorem domain_to_dn_roundtrip:
  assumes "CHR '','' \<notin> set data"
  shows "\<exists>dn. domain_to_dn data = Inr dn \<and>
           list_all (\<lambda>f. take 3 f = ''dc='') (split_on CHR '','' dn) \<and>
           join ''.'' (map (drop 3) (split_on CHR '','' dn)) = data"
proof -
  have "set f \<subseteq> set data" if "f \<in> set (split_on CHR ''.'' data)" for f
    using that by (rule split_on_subset)
  then have "split_on CHR '','' (join '','' (map dc_attr (split_on CHR ''.'' data))) =
      map dc_attr (split_on CHR ''.'' data)"
    using assms by (intro split_on_join) (auto simp: dc_attr_def)
  then show ?thesis
    by (simp add: domain_to_dn_eq comp_def list_all_iff dc_attr_def)
qed

theorem domain_to_dn_roundtrip_witness:
  "\<exists>dn. domain_to_dn ''example.com'' = Inr dn \<and>
     join ''.'' (map (drop 3) (split_on CHR '','' dn)) = ''example.com''"
  using domain_to_dn_roundtrip [of "''example.com''"] by auto

lemma shortname_last_octet:
  assumes "CHR ''.'' \<notin> set h"
  shows "shortname (h @ CHR ''.'' # d) = h \<and> last_octet (d @ CHR ''.'' # h) = h"
  using assms
  by (simp add: shortname_def last_octet_def split_on_append split_on_sep split_on_no_sep_single)

end
