(* ===== verification/Droplet_Info.thy ===== *)
theory Droplet_Info
  imports PyValue
begin

text \<open>
  \<open>lib/action_plugins/do_droplet_info.py\<close>: look up DigitalOcean droplets by name. The API client
  (\<open>DoManager\<close>) is code outside the repository: a parameter that answers
  \<open>all_active_droplets\<close> for a token with a list of dictionaries, or raises. The result the
  parent class computes is discarded by the code.
\<close>

section \<open>The code\<close>

definition failed_result :: "string \<Rightarrow> pydict" where
  "failed_result msg = [(''failed'', PBool True), (''msg'', PStr msg)]"

text \<open>\<open>d['name'] in names\<close> as a filter over the droplets.\<close>

definition select_droplets :: "pyval list \<Rightarrow> pydict list \<Rightarrow> exit + pydict list" where
  "select_droplets names ds =
     efilter (\<lambda>d. ebind (dindex d ''name'') (\<lambda>n. Inr (py_mem n names))) ds"

fun name_key :: "pyval \<Rightarrow> exit + string" where
  "name_key (PStr n) = Inr n"
| "name_key _ = Inl (Raise (OutOfModel ''a droplet name that is no string''))"

definition droplet_item :: "pydict \<Rightarrow> pydict \<Rightarrow> exit + pydict" where
  "droplet_item d acc =
     ebind (dindex d ''name'') (\<lambda>v. ebind (name_key v) (\<lambda>n. Inr (dset n (PDict d) acc)))"

definition by_name :: "pydict list \<Rightarrow> exit + pydict" where
  "by_name ds = efold droplet_item ds []"

text \<open>The arguments: \<open>None\<close> for a bad request, with its message.\<close>

definition read_names :: "pydict \<Rightarrow> string + pyval list" where
  "read_names args =
     (case map_of args ''name'' of
        Some name \<Rightarrow> Inr [name]
      | None \<Rightarrow>
          (case map_of args ''names'' of
             Some (PList names) \<Rightarrow> Inr names
           | Some _ \<Rightarrow> Inl ''Argument 'names' must be a list''
           | None \<Rightarrow> Inl ''Required argument 'name' or 'names' not found''))"

definition run :: "(pyval \<Rightarrow> exit + pydict list) \<Rightarrow> pydict \<Rightarrow> pydict \<Rightarrow> exit + pydict" where
  "run all_active_droplets environ args =
     (let api_token = dget args ''api_token'' (dget environ ''DO_API_KEY'' PNone) in
      if api_token = PNone
      then Inr (failed_result
             ''No 'api_token' option or 'DO_API_KEY' environment variable set'')
      else
        case read_names args of
          Inl msg \<Rightarrow> Inr (failed_result msg)
        | Inr names \<Rightarrow>
            ebind (all_active_droplets api_token) (\<lambda>ds.
            ebind (select_droplets names ds) (\<lambda>droplets.
              case map_of args ''name'' of
                Some name \<Rightarrow>
                  (case droplets of
                     [droplet] \<Rightarrow> Inr (dset ''changed'' (PBool False) droplet)
                   | _ \<Rightarrow>
                       ebind (fmt_s name) (\<lambda>t.
                       ebind (str_format ''No droplet named '{}' found'' t) (\<lambda>msg.
                         Inr (failed_result msg))))
              | None \<Rightarrow>
                  ebind (by_name droplets) (\<lambda>d.
                    Inr [(''changed'', PBool False), (''failed'', PBool False),
                         (''d'', PDict d)]))))"

section \<open>What the lookup by a list of names returns\<close>

lemma select_droplets_eq:
  assumes "select_droplets names ds = Inr r"
  shows "r = filter (\<lambda>d. py_mem (dget d ''name'' PNone) names) ds"
  using assms unfolding select_droplets_def
  by (induction ds arbitrary: r) (auto simp: err_simps dget_Some)

definition named :: "string \<Rightarrow> pydict \<Rightarrow> bool" where
  "named n d \<longleftrightarrow> map_of d ''name'' = Some (PStr n)"

lemma droplet_item_Inr [err_simps]:
  "droplet_item d acc = Inr r \<longleftrightarrow> (\<exists>n. named n d \<and> r = dset n (PDict d) acc)"
proof -
  have "name_key v = Inr n \<longleftrightarrow> v = PStr n" for v n
    by (cases v) auto
  then show ?thesis by (auto simp: droplet_item_def err_simps named_def)
qed

text \<open>The last droplet of a name, the one a dictionary keeps.\<close>

definition last_named :: "string \<Rightarrow> pydict list \<Rightarrow> pyval option" where
  "last_named n ds = map_option PDict (find (named n) (rev ds))"

lemma find_append: "find P (xs @ ys) = (case find P xs of Some x \<Rightarrow> Some x | None \<Rightarrow> find P ys)"
  by (induction xs) auto

lemma named_unique: "named n d \<Longrightarrow> named m d \<longleftrightarrow> m = n"
  by (auto simp: named_def)

lemma by_name_acc:
  assumes "efold droplet_item ds acc = Inr r"
  shows "map_of r n = (case last_named n ds of Some v \<Rightarrow> Some v | None \<Rightarrow> map_of acc n)"
  using assms
proof (induction ds arbitrary: acc)
  case (Cons d ds)
  from Cons.prems obtain m where m: "named m d" and r: "efold droplet_item ds (dset m (PDict d) acc) = Inr r"
    by (auto simp: err_simps)
  have "last_named n (d # ds) =
      (case last_named n ds of Some v \<Rightarrow> Some v | None \<Rightarrow> if n = m then Some (PDict d) else None)"
    using named_unique [OF m, of n]
    by (auto simp: last_named_def find_append split: option.splits)
  with Cons.IH [OF r] show ?case by (auto split: option.splits)
qed (simp add: last_named_def)

lemma named_selected:
  "named n d \<Longrightarrow> py_mem (dget d ''name'' PNone) names \<longleftrightarrow> PStr n \<in> set names"
  by (simp add: named_def dget_Some py_mem_PStr)

text \<open>C22: Asked for a list of names, the plugin returns, unchanged and not failed, a dictionary that
  holds for every requested name the last active droplet of that name, and no other key.\<close>

theorem droplets_by_names:
  assumes "run api environ args = Inr res"
    and "map_of args ''name'' = None" and "map_of args ''names'' = Some (PList names)"
    and "dget args ''api_token'' (dget environ ''DO_API_KEY'' PNone) = token" and "token \<noteq> PNone"
    and "api token = Inr active"
  shows "\<exists>d. res = [(''changed'', PBool False), (''failed'', PBool False), (''d'', PDict d)] \<and>
           (\<forall>n. map_of d n = (if PStr n \<in> set names then last_named n active else None))"
proof -
  from assms obtain droplets d where s: "select_droplets names active = Inr droplets"
    and d: "efold droplet_item droplets [] = Inr d"
    and res: "res = [(''changed'', PBool False), (''failed'', PBool False), (''d'', PDict d)]"
    by (auto simp: run_def read_names_def by_name_def ebind_Inr_iff Let_def)
  have sel: "find (named n) (rev (filter (\<lambda>d. py_mem (dget d ''name'' PNone) names) ds)) =
      (if PStr n \<in> set names then find (named n) (rev ds) else None)" for n ds
    by (induction ds) (auto simp: find_append named_selected split: option.splits)
  have "map_of d n = (if PStr n \<in> set names then last_named n active else None)" for n
    using by_name_acc [OF d, of n] sel [of n active] select_droplets_eq [OF s]
    by (simp add: last_named_def split: option.splits)
  with res show ?thesis by blast
qed

definition droplet_sample :: "string \<Rightarrow> pydict" where
  "droplet_sample n = [(''name'', PStr n), (''id'', PInt 7)]"

theorem droplets_by_names_witness:
  "\<exists>d. run (\<lambda>_. Inr [droplet_sample ''a'', droplet_sample ''b'']) []
       [(''api_token'', PStr ''t''), (''names'', PList [PStr ''b'', PStr ''c''])] =
       Inr [(''changed'', PBool False), (''failed'', PBool False), (''d'', PDict d)] \<and>
     map_of d ''b'' = Some (PDict (droplet_sample ''b'')) \<and> map_of d ''a'' = None"
proof -
  let ?api = "\<lambda>_::pyval. Inr [droplet_sample ''a'', droplet_sample ''b''] :: exit + pydict list"
  let ?args = "[(''api_token'', PStr ''t''), (''names'', PList [PStr ''b'', PStr ''c''])]"
  obtain res where run: "run ?api [] ?args = Inr res"
    by (simp add: run_def read_names_def select_droplets_def droplet_sample_def dindex_def
        py_mem_def by_name_def droplet_item_def dget_def Let_def)
  have l: "last_named ''b'' [droplet_sample ''a'', droplet_sample ''b''] =
      Some (PDict (droplet_sample ''b''))"
    by (simp add: last_named_def named_def droplet_sample_def)
  from droplets_by_names [where names = "[PStr ''b'', PStr ''c'']" and token = "PStr ''t''"
      and active = "[droplet_sample ''a'', droplet_sample ''b'']", OF run]
  obtain d where
    d: "res = [(''changed'', PBool False), (''failed'', PBool False), (''d'', PDict d)]"
    "\<forall>n. map_of d n = (if PStr n \<in> set [PStr ''b'', PStr ''c'']
       then last_named n [droplet_sample ''a'', droplet_sample ''b''] else None)"
    by (auto simp: dget_def)
  have "map_of d ''b'' = Some (PDict (droplet_sample ''b''))" "map_of d ''a'' = None"
    using d(2) l by simp_all
  with run d(1) show ?thesis by blast
qed

end
