(* ===== verification/OpenSSL_PrivateKey.thy ===== *)
theory OpenSSL_PrivateKey
  imports OS_Files Ansible
begin

text \<open>
  \<open>lib/modules/openssl_privatekey.py\<close> and \<open>lib/python/crypto.py\<close>. pyOpenSSL and the hash
  functions are code outside the repository: the record \<open>crypto_lib\<close> holds the functions the
  module calls.
\<close>

section \<open>Environment\<close>

text \<open>
  \<open>dump_publickey\<close> is \<open>None\<close> where the attribute does not exist (pyOpenSSL before 16.0);
  \<open>algorithms\<close> pairs the names of \<open>hashlib.algorithms\<close> with the hexadecimal digest of each.
\<close>

record crypto_lib =
  generate_key :: "string \<Rightarrow> int \<Rightarrow> file_exc + string"
  dump_privatekey :: "string \<Rightarrow> string"
  load_privatekey :: "string \<Rightarrow> file_exc + string"
  dump_publickey :: "(string \<Rightarrow> string) option"
  algorithms :: "(string \<times> (string \<Rightarrow> string)) list"

section \<open>\<open>get_fingerprint\<close>\<close>

text \<open>\<open>':'.join(d[i:i + 2] for i in range(0, len(d), 2))\<close>.\<close>

fun pairs_of :: "string \<Rightarrow> string list" where
  "pairs_of [] = []"
| "pairs_of [a] = [[a]]"
| "pairs_of (a # b # s) = [a, b] # pairs_of s"

definition get_fingerprint :: "crypto_lib os_env \<Rightarrow> string \<Rightarrow> fs \<Rightarrow> file_exc + (string \<times> string) list" where
  "get_fingerprint env path f =
     (case read_file (denied env) path f of
        Inl e \<Rightarrow> Inl (IOError e)
      | Inr pem \<Rightarrow>
          ebind (crypto_lib.load_privatekey (lib env) pem) (\<lambda>privatekey.
            Inr (case dump_publickey (lib env) of
                   None \<Rightarrow> []
                 | Some dump \<Rightarrow>
                     fold (\<lambda>(algo, hash) d. dset algo (join '':'' (pairs_of (hash (dump privatekey)))) d)
                       (algorithms (lib env)) [])))"

section \<open>\<open>PrivateKey\<close>\<close>

text \<open>\<open>mode\<close> is a raw parameter: absent, an integer or a string.\<close>

datatype mode_arg = NoMode | ModeInt int | ModeStr string

record pk_params =
  p_state :: string
  p_size :: int
  p_type :: string
  p_force :: bool
  p_path :: string
  p_mode :: mode_arg
  p_check_mode :: bool

record private_key =
  pk_size :: int
  pk_state :: string
  pk_name :: string
  pk_type :: string
  pk_force :: bool
  pk_path :: string
  pk_mode :: mode_arg
  pk_changed :: bool
  pk_privatekey :: "string option"
  pk_fingerprint :: "(string \<times> string) list"
  pk_check_mode :: bool

definition PrivateKey_init :: "pk_params \<Rightarrow> private_key" where
  "PrivateKey_init ps =
     \<lparr>pk_size = p_size ps, pk_state = p_state ps, pk_name = os_path_basename (p_path ps),
      pk_type = p_type ps, pk_force = p_force ps, pk_path = p_path ps, pk_mode = p_mode ps,
      pk_changed = True, pk_privatekey = None, pk_fingerprint = [],
      pk_check_mode = p_check_mode ps\<rparr>"

definition pk_remove :: "crypto_lib os_env \<Rightarrow> private_key \<Rightarrow> fs \<Rightarrow> (file_exc + unit) \<times> private_key \<times> fs" where
  "pk_remove env pk f =
     (case os_remove (denied env) (pk_path pk) f of
        Inr f' \<Rightarrow> (Inr (), pk, f')
      | Inl ENOENT \<Rightarrow> (Inr (), pk\<lparr>pk_changed := False\<rparr>, f)
      | Inl e \<Rightarrow> (Inl (WrappedError (OSError e)), pk, f))"

text \<open>\<open>os.open\<close>, \<open>os.write\<close>, \<open>os.close\<close>: a mode that is no integer is refused first.\<close>

definition pk_store :: "crypto_lib os_env \<Rightarrow> private_key \<Rightarrow> string \<Rightarrow> fs \<Rightarrow> (file_exc + unit) \<times> fs" where
  "pk_store env pk key f =
     (case pk_mode pk of
        ModeInt m \<Rightarrow>
          (case open_trunc (denied env) (umask env) m (pk_path pk) f of
             Inl e \<Rightarrow> (Inl (OSError e), f)
           | Inr f1 \<Rightarrow>
               (case write_data (denied env) (pk_path pk) (dump_privatekey (lib env) key) f1 of
                  Inl e \<Rightarrow> (Inl (OSError e), f1)
                | Inr f2 \<Rightarrow> (Inr (), f2)))
      | _ \<Rightarrow> (Inl (PyTypeError ''an integer is required''), f))"

definition pk_make :: "crypto_lib os_env \<Rightarrow> private_key \<Rightarrow> fs \<Rightarrow> (file_exc + unit) \<times> private_key \<times> fs" where
  "pk_make env pk f =
     (let crypto_type = (if pk_type pk = ''RSA'' then ''TYPE_RSA'' else ''TYPE_DSA'') in
      case generate_key (lib env) crypto_type (pk_size pk) of
        Inl (PyTypeError m) \<Rightarrow> (Inl (WrappedError (PyTypeError m)), pk, f)
      | Inl (PyValueError m) \<Rightarrow> (Inl (WrappedError (PyValueError m)), pk, f)
      | Inl e \<Rightarrow> (Inl e, pk, f)
      | Inr key \<Rightarrow>
          let pk1 = pk\<lparr>pk_privatekey := Some key\<rparr> in
          (case pk_store env pk1 key f of
             (Inl (IOError e), f1) \<Rightarrow>
               (case pk_remove env pk1 f1 of
                  (Inl x, pk2, f2) \<Rightarrow> (Inl x, pk2, f2)
                | (Inr _, pk2, f2) \<Rightarrow> (Inl (WrappedError (IOError e)), pk2, f2))
           | (r, f1) \<Rightarrow> (r, pk1, f1)))"

definition pk_generate :: "crypto_lib os_env \<Rightarrow> private_key \<Rightarrow> fs \<Rightarrow> (file_exc + unit) \<times> private_key \<times> fs" where
  "pk_generate env pk f =
     (case (if \<not> os_path_exists f (pk_path pk) \<or> pk_force pk then pk_make env pk f
            else (Inr (), pk\<lparr>pk_changed := False\<rparr>, f)) of
        (Inl x, pk1, f1) \<Rightarrow> (Inl x, pk1, f1)
      | (Inr _, pk1, f1) \<Rightarrow>
          (case get_fingerprint env (pk_path pk1) f1 of
             Inl x \<Rightarrow> (Inl x, pk1, f1)
           | Inr fp \<Rightarrow>
               let pk2 = pk1\<lparr>pk_fingerprint := fp\<rparr>;
                   (diff, f2) = fs_attrs env (pk_path pk2) f1
               in (Inr (), if diff then pk2\<lparr>pk_changed := True\<rparr> else pk2, f2)))"

record pk_result =
  r_size :: int
  r_type :: string
  r_filename :: string
  r_changed :: bool
  r_fingerprint :: "(string \<times> string) list"

definition pk_dump :: "private_key \<Rightarrow> pk_result" where
  "pk_dump pk = \<lparr>r_size = pk_size pk, r_type = pk_type pk, r_filename = pk_path pk,
     r_changed = pk_changed pk, r_fingerprint = pk_fingerprint pk\<rparr>"

fun pk_finish :: "(file_exc + unit) \<times> private_key \<times> fs \<Rightarrow> pk_result file_outcome \<times> fs" where
  "pk_finish (Inl (WrappedError e), pk, f) = (FailedExc e, f)"
| "pk_finish (Inl e, pk, f) = (Crashed e, f)"
| "pk_finish (Inr _, pk, f) = (Exited (pk_dump pk), f)"

text \<open>\<open>if not module.params['mode']: module.params['mode'] = int('0600', 8)\<close>.\<close>

definition default_mode :: "mode_arg \<Rightarrow> mode_arg" where
  "default_mode m =
     (if m = NoMode \<or> m = ModeInt 0 \<or> m = ModeStr '''' then ModeInt 384 else m)"

definition pk_main :: "crypto_lib os_env \<Rightarrow> pk_params \<Rightarrow> fs \<Rightarrow> pk_result file_outcome \<times> fs" where
  "pk_main env ps f =
     (if \<not> pyopenssl_found env then (Failed ''the python pyOpenSSL module is required'', f)
      else
        let path = p_path ps; base_dir = os_path_dirname path in
        if \<not> os_path_isdir f base_dir then
          (Failed (''The directory '' @ base_dir @
             '' does not exist or the file is not a directory''), f)
        else
          let pk = PrivateKey_init (ps\<lparr>p_mode := default_mode (p_mode ps)\<rparr>) in
          if pk_state pk = ''present'' then
            if p_check_mode ps then
              (Exited ((pk_dump pk)\<lparr>r_changed := p_force ps \<or> \<not> os_path_exists f path\<rparr>), f)
            else pk_finish (pk_generate env pk f)
          else
            if p_check_mode ps then
              (Exited ((pk_dump pk)\<lparr>r_changed := os_path_exists f path\<rparr>), f)
            else pk_finish (pk_remove env pk f))"

text \<open>
  The arguments of the module, read into the record, and the run from the start. The file
  arguments, \<open>mode\<close> among them, are those \<open>add_file_common_args\<close> adds.
\<close>

definition pk_argument_spec :: "(string \<times> argspec) list" where
  "pk_argument_spec =
     [(''state'', with_default (PStr ''present'') (with_choices [''present'', ''absent''] (kwarg ''str'' False))),
      (''size'', with_default (PInt 4096) (kwarg ''int'' False)),
      (''type'', with_default (PStr ''RSA'') (with_choices [''RSA'', ''DSA''] (kwarg ''str'' False))),
      (''force'', with_default (PBool False) (kwarg ''bool'' False)),
      (''path'', kwarg ''path'' True)]"

definition mode_param :: "pydict \<Rightarrow> exit + mode_arg" where
  "mode_param ps =
     ebind (dindex ps ''mode'') (\<lambda>v. case v of
       PNone \<Rightarrow> Inr NoMode | PInt i \<Rightarrow> Inr (ModeInt i) | PStr s \<Rightarrow> Inr (ModeStr s)
     | _ \<Rightarrow> bad_param ''mode'')"

definition pk_params_of :: "pydict \<Rightarrow> bool \<Rightarrow> exit + pk_params" where
  "pk_params_of ps check_mode =
     ebind (int_param ps ''size'') (\<lambda>sz.
     ebind (str_param ps ''state'') (\<lambda>st.
     ebind (str_param ps ''path'') (\<lambda>pa.
     ebind (str_param ps ''type'') (\<lambda>ty.
     ebind (bool_param ps ''force'') (\<lambda>fo.
     ebind (mode_param ps) (\<lambda>md.
       Inr \<lparr>p_state = st, p_size = sz, p_type = ty, p_force = fo, p_path = pa, p_mode = md,
            p_check_mode = check_mode\<rparr>))))))"

definition privatekey_module ::
  "ansible_module \<Rightarrow> crypto_lib os_env \<Rightarrow> fs \<Rightarrow> exit + pk_result file_outcome \<times> fs" where
  "privatekey_module am env f =
     ebind (am pk_argument_spec) (\<lambda>(ps, check_mode).
     ebind (pk_params_of ps check_mode) (\<lambda>p. Inr (pk_main env p f)))"

section \<open>The contract\<close>

lemma pk_remove_frame:
  assumes "pk_remove env pk f = (r, pk', f')"
  shows "pk_path pk' = pk_path pk" and "only_at (pk_path pk) f f'"
  using assms only_at_ops(1) [of "denied env" "pk_path pk" f]
  by (auto simp: pk_remove_def split: sum.splits errno.splits)

lemma pk_store_frame:
  assumes "pk_store env pk key f = (r, f')"
  shows "only_at (pk_path pk) f f'"
    and "r = Inr () \<Longrightarrow> contents f' = (contents f)(pk_path pk \<mapsto> dump_privatekey (lib env) key)"
    and "r \<noteq> Inl (IOError e)"
proof -
  show "only_at (pk_path pk) f f'"
    using assms
    by (auto simp: pk_store_def split: mode_arg.splits sum.splits
        intro: only_at_ops only_at_trans [OF only_at_ops(2) only_at_ops(3)])
  show "contents f' = (contents f)(pk_path pk \<mapsto> dump_privatekey (lib env) key)" if "r = Inr ()"
    using assms that
    by (auto simp: pk_store_def split: mode_arg.splits sum.splits dest: open_write_contents(1))
  show "r \<noteq> Inl (IOError e)"
    using assms by (auto simp: pk_store_def split: mode_arg.splits sum.splits)
qed

text \<open>\<open>os.open\<close> never raises \<open>IOError\<close>, so the clean-up branch of \<open>generate\<close> is not taken.\<close>

lemma pk_make_cases:
  assumes "pk_make env pk f = (r, pk', f')"
  obtains x where "r = Inl x" "pk' = pk" "f' = f"
    | key where "pk' = pk\<lparr>pk_privatekey := Some key\<rparr>" "pk_store env pk' key f = (r, f')"
proof (cases "generate_key (lib env) (if pk_type pk = ''RSA'' then ''TYPE_RSA'' else ''TYPE_DSA'')
    (pk_size pk)")
  case (Inl x)
  then have "(\<exists>y. r = Inl y) \<and> pk' = pk \<and> f' = f"
    using assms by (cases x) (auto simp: pk_make_def)
  then show ?thesis using that(1) by blast
next
  case (Inr key)
  let ?pk1 = "pk\<lparr>pk_privatekey := Some key\<rparr>"
  obtain r1 f1 where s: "pk_store env ?pk1 key f = (r1, f1)" by fastforce
  have "r = r1 \<and> pk' = ?pk1 \<and> f' = f1"
    using assms Inr s pk_store_frame(3) [OF s]
    by (auto simp: pk_make_def Let_def split: sum.splits file_exc.splits)
  with s that(2) show ?thesis by simp
qed

lemma pk_make_frame:
  assumes "pk_make env pk f = (r, pk', f')"
  shows "pk_path pk' = pk_path pk" and "only_at (pk_path pk) f f'"
    and "r = Inr () \<Longrightarrow> os_path_exists f' (pk_path pk) \<and> pk_changed pk' = pk_changed pk"
proof -
  show "pk_path pk' = pk_path pk" and "only_at (pk_path pk) f f'"
    using assms by (auto elim!: pk_make_cases dest: pk_store_frame(1))
  show "os_path_exists f' (pk_path pk) \<and> pk_changed pk' = pk_changed pk" if "r = Inr ()"
    using assms
  proof (cases rule: pk_make_cases)
    case (2 key)
    with pk_store_frame(2) [OF 2(2) that] show ?thesis
      by (auto intro: contents_exists)
  qed (use that in simp)
qed

lemma pk_generate_split:
  assumes "pk_generate env pk f = (r, pk', f')"
  obtains r1 pk1 f1 where
    "(if \<not> os_path_exists f (pk_path pk) \<or> pk_force pk then pk_make env pk f
      else (Inr (), pk\<lparr>pk_changed := False\<rparr>, f)) = (r1, pk1, f1)"
    "pk_path pk1 = pk_path pk"
    "(\<exists>x. r = Inl x \<and> f' = f1) \<or>
     (\<exists>d. r1 = Inr () \<and> r = Inr () \<and> fs_attrs env (pk_path pk) f1 = (d, f') \<and>
        pk_changed pk' = (pk_changed pk1 \<or> d))"
proof -
  obtain r1 pk1 f1 where m: "(if \<not> os_path_exists f (pk_path pk) \<or> pk_force pk then pk_make env pk f
      else (Inr (), pk\<lparr>pk_changed := False\<rparr>, f)) = (r1, pk1, f1)"
    by (metis prod_cases3)
  then have p: "pk_path pk1 = pk_path pk"
    by (auto split: if_splits dest: pk_make_frame(1))
  obtain d f2 where a: "fs_attrs env (pk_path pk) f1 = (d, f2)" by fastforce
  from assms m p a show ?thesis
    by (intro that [OF m p])
      (auto simp: pk_generate_def Let_def split: sum.splits if_splits)
qed

lemma pk_generate_frame:
  assumes "pk_generate env pk f = (r, pk', f')" and "attrs_ok (fs_attrs env)"
  shows "only_at (pk_path pk) f f'"
    and "r = Inr () \<Longrightarrow> os_path_exists f' (pk_path pk)"
    and "os_path_exists f (pk_path pk) \<Longrightarrow> \<not> pk_force pk \<Longrightarrow>
      contents f' = contents f \<and> (r = Inr () \<longrightarrow> pk_changed pk' = (f' \<noteq> f))"
proof -
  obtain r1 pk1 f1 where m:
    "(if \<not> os_path_exists f (pk_path pk) \<or> pk_force pk then pk_make env pk f
      else (Inr (), pk\<lparr>pk_changed := False\<rparr>, f)) = (r1, pk1, f1)"
    and rest: "(\<exists>x. r = Inl x \<and> f' = f1) \<or>
     (\<exists>d. r1 = Inr () \<and> r = Inr () \<and> fs_attrs env (pk_path pk) f1 = (d, f') \<and>
        pk_changed pk' = (pk_changed pk1 \<or> d))"
    using assms(1) by (rule pk_generate_split) blast
  have f1: "only_at (pk_path pk) f f1" "r1 = Inr () \<Longrightarrow> os_path_exists f1 (pk_path pk)"
    using m by (auto split: if_splits dest: pk_make_frame)
  note attrs = attrs_okD [OF assms(2)]
  from rest consider (stop) x where "r = Inl x" "f' = f1"
    | (go) d where "r1 = Inr ()" "r = Inr ()" "fs_attrs env (pk_path pk) f1 = (d, f')"
        "pk_changed pk' = (pk_changed pk1 \<or> d)" by blast
  then have all: "only_at (pk_path pk) f f' \<and> (r = Inr () \<longrightarrow> os_path_exists f' (pk_path pk)) \<and>
    (os_path_exists f (pk_path pk) \<and> \<not> pk_force pk \<longrightarrow>
      contents f' = contents f \<and> (r = Inr () \<longrightarrow> pk_changed pk' = (f' \<noteq> f)))"
  proof cases
    case stop
    with f1 m show ?thesis by auto
  next
    case go
    with f1 attrs(2,3) [OF go(3)] have "only_at (pk_path pk) f f'" "os_path_exists f' (pk_path pk)"
      by (auto intro: only_at_trans)
    moreover have "contents f' = contents f1" "d \<longleftrightarrow> f' \<noteq> f1"
      using attrs(1,4) [OF go(3)] by simp_all
    moreover have "f1 = f \<and> \<not> pk_changed pk1" if "os_path_exists f (pk_path pk)" "\<not> pk_force pk"
      using m that by auto
    ultimately show ?thesis using go(4) by auto
  qed
  then show "only_at (pk_path pk) f f'" by blast
  show "r = Inr () \<Longrightarrow> os_path_exists f' (pk_path pk)" using all by blast
  show "os_path_exists f (pk_path pk) \<Longrightarrow> \<not> pk_force pk \<Longrightarrow>
      contents f' = contents f \<and> (r = Inr () \<longrightarrow> pk_changed pk' = (f' \<noteq> f))" using all by blast
qed

definition pk_generate_at :: "crypto_lib os_env \<times> pk_params \<Rightarrow> fs \<Rightarrow> (file_exc + bool) \<times> fs" where
  "pk_generate_at p f =
     (case pk_generate (fst p) (PrivateKey_init (snd p)) f of
        (Inl x, pk, f') \<Rightarrow> (Inl x, f') | (Inr _, pk, f') \<Rightarrow> (Inr (pk_changed pk), f'))"

lemma pk_generate_at_cases:
  assumes "pk_generate_at p f = (r, f')"
  obtains u pk' where "pk_generate (fst p) (PrivateKey_init (snd p)) f = (u, pk', f')"
    "r = (case u of Inl x \<Rightarrow> Inl x | Inr _ \<Rightarrow> Inr (pk_changed pk'))"
  using assms by (auto simp: pk_generate_at_def split: prod.splits sum.splits)

lemma PrivateKey_init_path [simp]:
  "pk_path (PrivateKey_init ps) = p_path ps" "pk_force (PrivateKey_init ps) = p_force ps"
  by (simp_all add: PrivateKey_init_def)

interpretation private_key_file: managed_file "\<lambda>p. p_path (snd p)" "\<lambda>p. p_force (snd p)"
    "\<lambda>p. attrs_ok (fs_attrs (fst p))" pk_generate_at
proof
  fix p :: "crypto_lib os_env \<times> pk_params" and f f' r ch
  assume ok: "attrs_ok (fs_attrs (fst p))"
  note frame = pk_generate_frame [OF _ ok]
  show "only_at (p_path (snd p)) f f'" if "pk_generate_at p f = (r, f')"
    using that by (rule pk_generate_at_cases) (drule frame(1), simp)
  show "contents f' = contents f"
    if "os_path_exists f (p_path (snd p))" "\<not> p_force (snd p)" "pk_generate_at p f = (r, f')"
    using that(3) by (rule pk_generate_at_cases) (drule frame(3), use that in auto)
  show "os_path_exists f' (p_path (snd p))" if "pk_generate_at p f = (Inr ch, f')"
    using that
    by (rule pk_generate_at_cases) (drule frame(2), auto split: sum.splits)
  show "ch = (f' \<noteq> f)" if "pk_generate_at p f = (Inr ch, f')" "os_path_exists f (p_path (snd p))"
    "\<not> p_force (snd p)"
    using that(1)
    by (rule pk_generate_at_cases) (drule frame(3), use that in \<open>auto split: sum.splits\<close>)
qed

section \<open>Properties of whole runs\<close>

text \<open>A second run without \<open>force\<close> leaves the key the first one made: file contents are the same,
  only the key's path was touched, and it reports a change exactly when it changed attributes.\<close>

theorem private_key_second_run:
  assumes "attrs_ok (fs_attrs env)" and "\<not> p_force ps"
    and "pk_generate_at (env, ps) f = (Inr ch, f1)" and "pk_generate_at (env, ps) f1 = (r, f2)"
  shows "contents f2 = contents f1 \<and> only_at (p_path ps) f f2 \<and>
    (\<forall>ch2. r = Inr ch2 \<longrightarrow> ch2 = (f2 \<noteq> f1))"
  using private_key_file.second_run [of "(env, ps)"] assms by simp

lemma pk_main_checked:
  assumes "pk_main env ps f = (Exited res, f')" and "p_check_mode ps"
  shows "f' = f \<and> r_changed res =
    (if p_state ps = ''present'' then p_force ps \<or> \<not> os_path_exists f (p_path ps)
     else os_path_exists f (p_path ps))"
  using assms
  by (auto simp: pk_main_def Let_def pk_dump_def PrivateKey_init_def split: if_splits)

lemma pk_finish_Exited:
  assumes "pk_finish x = (Exited res, f')"
  shows "\<exists>pk. x = (Inr (), pk, f') \<and> res = pk_dump pk"
proof -
  obtain r pk f1 where x: "x = (r, pk, f1)" by (cases x)
  with assms show ?thesis
    by (cases r; cases "projl r") auto
qed

definition pk_ready :: "pk_params \<Rightarrow> private_key" where
  "pk_ready ps = PrivateKey_init (ps\<lparr>p_mode := default_mode (p_mode ps)\<rparr>)"

lemma pk_ready_simps [simp]:
  "pk_path (pk_ready ps) = p_path ps" "pk_force (pk_ready ps) = p_force ps"
  "pk_state (pk_ready ps) = p_state ps" "pk_changed (pk_ready ps)"
  "pk_mode (pk_ready ps) = default_mode (p_mode ps)"
  by (simp_all add: pk_ready_def PrivateKey_init_def)

lemma pk_main_applied:
  assumes "pk_main env ps f = (Exited res, f')" and "\<not> p_check_mode ps"
  shows "\<exists>pk. (if p_state ps = ''present'' then pk_generate env (pk_ready ps) f
                else pk_remove env (pk_ready ps) f) = (Inr (), pk, f') \<and> r_changed res = pk_changed pk"
  using assms
  by (auto simp: pk_main_def Let_def pk_dump_def pk_ready_def [symmetric]
      split: if_splits dest!: pk_finish_Exited)

lemma pk_remove_Inr:
  assumes "pk_remove env pk f = (Inr (), pk', f')" and "pk_changed pk"
  shows "\<not> os_path_exists f' (pk_path pk) \<and> only_at (pk_path pk) f f' \<and>
    pk_changed pk' = os_path_exists f (pk_path pk) \<and>
    (\<not> os_path_exists f (pk_path pk) \<longrightarrow> f' = f)"
proof (cases "os_remove (denied env) (pk_path pk) f")
  case (Inr g)
  with assms os_remove_Inr [OF Inr] only_at_ops(1) [OF Inr] show ?thesis
    by (auto simp: pk_remove_def os_path_exists_def)
next
  case (Inl e)
  with assms have "e = ENOENT" by (cases e) (auto simp: pk_remove_def)
  with Inl assms show ?thesis
    by (auto simp: pk_remove_def os_remove_def os_path_exists_def
        split: option.splits node.splits)
qed

text \<open>C24: Where both runs end normally, check mode of the private key module changes nothing and predicts
  the run up to attributes: the real run reports a change exactly when one is predicted or the
  attributes of the existing key, as its mode, are changed; without a predicted change no file
  content changes, and for removal the prediction is exact.\<close>

theorem private_key_check_mode:
  assumes "attrs_ok (fs_attrs env)"
    and "pk_main env (ps\<lparr>p_check_mode := True\<rparr>) f = (Exited predicted, f1)"
    and "pk_main env (ps\<lparr>p_check_mode := False\<rparr>) f = (Exited res, f2)"
  shows "f1 = f \<and> (r_changed res \<longleftrightarrow> r_changed predicted \<or> f2 \<noteq> f) \<and>
    (\<not> r_changed predicted \<longrightarrow> contents f2 = contents f) \<and>
    (p_state ps \<noteq> ''present'' \<longrightarrow> r_changed res = r_changed predicted)"
proof -
  let ?ps = "ps\<lparr>p_check_mode := False\<rparr>"
  have pre: "f1 = f" "r_changed predicted =
    (if p_state ps = ''present'' then p_force ps \<or> \<not> os_path_exists f (p_path ps)
     else os_path_exists f (p_path ps))"
    using pk_main_checked [OF assms(2)] by simp_all
  obtain pk where run: "(if p_state ps = ''present'' then pk_generate env (pk_ready ?ps) f
      else pk_remove env (pk_ready ?ps) f) = (Inr (), pk, f2)" "r_changed res = pk_changed pk"
    using pk_main_applied [OF assms(3)] by auto
  show ?thesis
  proof (cases "p_state ps = ''present''")
    case True
    with run have g: "pk_generate env (pk_ready ?ps) f = (Inr (), pk, f2)" by simp
    have made: "pk_changed pk" if need: "p_force ps \<or> \<not> os_path_exists f (p_path ps)"
      using g
    proof (rule pk_generate_split)
      fix r1 pk1 f3
      assume "(if \<not> os_path_exists f (pk_path (pk_ready ?ps)) \<or> pk_force (pk_ready ?ps)
          then pk_make env (pk_ready ?ps) f else (Inr (), pk_ready ?ps\<lparr>pk_changed := False\<rparr>, f)) =
          (r1, pk1, f3)"
        and *: "(\<exists>x. (Inr () :: file_exc + unit) = Inl x \<and> f2 = f3) \<or>
          (\<exists>d. r1 = Inr () \<and> (Inr () :: file_exc + unit) = Inr () \<and>
            fs_attrs env (pk_path (pk_ready ?ps)) f3 = (d, f2) \<and> pk_changed pk = (pk_changed pk1 \<or> d))"
      with need have m: "pk_make env (pk_ready ?ps) f = (r1, pk1, f3)" by (simp split: if_splits)
      from * have "r1 = Inr ()" "pk_changed pk1 \<Longrightarrow> pk_changed pk" by auto
      with pk_make_frame(3) [OF m] show ?thesis by simp
    qed
    show ?thesis
      using pre True run(2) made pk_generate_frame(3) [OF g assms(1)] by auto
  next
    case False
    with run have "pk_remove env (pk_ready ?ps) f = (Inr (), pk, f2)" by simp
    from pk_remove_Inr [OF this] False pre run(2) show ?thesis by auto
  qed
qed

text \<open>Removing.\<close>

lemma private_key_absent:
  assumes "pk_main env ps f = (Exited res, f')" and "p_state ps \<noteq> ''present''"
    and "\<not> p_check_mode ps"
  shows "\<not> os_path_exists f' (p_path ps) \<and> only_at (p_path ps) f f' \<and>
    r_changed res = os_path_exists f (p_path ps)"
  using pk_main_applied [OF assms(1,3)] assms(2) pk_remove_Inr [of env "pk_ready ps" f _ f'] by auto

lemma and_not_mask: "(m::int) AND k = 0 \<Longrightarrow> (m AND NOT u) AND k = 0"
  by (simp add: and.assoc and.commute [of "NOT u"]) (simp add: and.assoc [symmetric])

text \<open>C25: With the default mode a new key file gives its group and others no permission, whatever
  the umask.\<close>

theorem private_key_mode:
  assumes "pk_store env pk key f = (Inr (), f')" and "pk_mode pk = default_mode NoMode"
    and "\<not> os_path_exists f (pk_path pk)"
  shows "\<exists>m. file_mode f' (pk_path pk) = Some m \<and> m AND 63 = 0"
proof -
  from assms obtain f1 where o: "open_trunc (denied env) (umask env) 384 (pk_path pk) f = Inr f1"
    and w: "write_data (denied env) (pk_path pk) (dump_privatekey (lib env) key) f1 = Inr f'"
    by (auto simp: pk_store_def default_mode_def split: sum.splits)
  have "file_mode f (pk_path pk) = None"
    using assms(3) by (simp add: file_mode_def os_path_exists_def)
  with open_write_contents(2) [OF o w] have "file_mode f' (pk_path pk) = Some (384 AND NOT (umask env))"
    by simp
  moreover have "(384 AND NOT (umask env)) AND 63 = 0"
    by (rule and_not_mask) simp
  ultimately show ?thesis by blast
qed

text \<open>C26: When the device refuses the write of a new key, the run ends in an exception nobody catches
  and leaves an empty file at the key's path, which the next run takes for the key.\<close>

theorem private_key_failed_write:
  assumes "pyopenssl_found env" and "os_path_isdir f (os_path_dirname (p_path ps))"
    and "p_state ps = ''present''" and "\<not> p_check_mode ps" and "\<not> os_path_exists f (p_path ps)"
    and "generate_key (lib env) ''TYPE_RSA'' (p_size ps) = Inr key" and "p_type ps = ''RSA''"
    and "p_mode ps = NoMode"
    and "denied env OpenWrite (p_path ps) = None" and "denied env WriteData (p_path ps) = Some e"
  shows "\<exists>f'. pk_main env ps f = (Crashed (OSError (Refused e)), f') \<and>
    contents f' (p_path ps) = Some ''''"
  using assms
  by (simp add: pk_main_def Let_def pk_generate_def pk_make_def pk_store_def open_trunc_def
      write_data_def PrivateKey_init_def default_mode_def os_path_exists_def contents_def)

section \<open>Fingerprints\<close>

lemma concat_pairs_of: "concat (pairs_of d) = d"
  by (induction d rule: pairs_of.induct) auto

lemma pairs_of_chars: "f \<in> set (pairs_of d) \<Longrightarrow> set f \<subseteq> set d"
  by (metis concat_pairs_of UN_upper set_concat)

lemma split_pairs:
  assumes "CHR '':'' \<notin> set d"
  shows "concat (split_on CHR '':'' (join '':'' (pairs_of d))) = d"
proof (cases "d = []")
  case False
  then have "pairs_of d \<noteq> []" by (cases d rule: pairs_of.cases) auto
  moreover have "\<forall>f \<in> set (pairs_of d). CHR '':'' \<notin> set f"
    using pairs_of_chars [of _ d] assms by blast
  ultimately show ?thesis by (simp add: split_on_join concat_pairs_of)
qed simp

lemma fold_dset_map_of:
  "distinct (map fst xs) \<Longrightarrow>
     map_of (fold (\<lambda>(k, h) d. dset k (g h) d) xs acc) k =
       (case map_of xs k of Some h \<Rightarrow> Some (g h) | None \<Rightarrow> map_of acc k)"
proof (induction xs arbitrary: acc)
  case (Cons x xs)
  then have "map_of xs (fst x) = None" by (simp add: map_of_eq_None_iff)
  with Cons show ?case by (cases x) (auto split: option.splits)
qed simp

lemma fingerprint_reads_back:
  assumes "get_fingerprint env path f = Inr fp" and "read_file (denied env) path f = Inr pem"
    and "crypto_lib.load_privatekey (lib env) pem = Inr key"
    and "dump_publickey (lib env) = Some dump"
    and "distinct (map fst (algorithms (lib env)))" and "map_of (algorithms (lib env)) algo = Some hash"
    and "CHR '':'' \<notin> set (hash (dump key))"
  shows "\<exists>v. map_of fp algo = Some v \<and> concat (split_on CHR '':'' v) = hash (dump key)"
  using assms fold_dset_map_of [OF assms(5), of "\<lambda>h. join '':'' (pairs_of (h (dump key)))" "[]" algo]
  by (auto simp: get_fingerprint_def split_pairs)

section \<open>Runs on a concrete machine\<close>

text \<open>No attribute ever differs.\<close>

definition same_attrs :: set_attrs where
  "same_attrs p f = (False, f)"

lemma same_attrs_ok: "attrs_ok same_attrs"
  by (simp add: attrs_ok_def same_attrs_def)

definition sample_lib :: crypto_lib where
  "sample_lib = \<lparr>generate_key = (\<lambda>t n. Inr ''key''), dump_privatekey = (\<lambda>k. ''pem''),
     load_privatekey = (\<lambda>pem. Inr ''key''), dump_publickey = Some (\<lambda>k. ''der''),
     algorithms = [(''md5'', (\<lambda>d. ''0aff''))]\<rparr>"

definition sample_env :: "denials \<Rightarrow> crypto_lib os_env" where
  "sample_env deny = \<lparr>denied = deny, umask = 18, fs_attrs = same_attrs, lib = sample_lib,
     pyopenssl_found = True\<rparr>"

definition sample_params :: pk_params where
  "sample_params = \<lparr>p_state = ''present'', p_size = 2048, p_type = ''RSA'', p_force = False,
     p_path = ''/k/key.pem'', p_mode = NoMode, p_check_mode = False\<rparr>"

definition sample_fs :: fs where
  "sample_fs = [(''/k'', Directory)]"

lemma sample_dirname: "os_path_dirname ''/k/key.pem'' = ''/k''"
  by (simp add: os_path_dirname_def rfind_slash_def)

lemmas sample_defs = sample_env_def sample_params_def sample_fs_def sample_lib_def same_attrs_def

theorem private_key_second_run_witness:
  "\<exists>f1 f2 r. pk_generate_at (sample_env (\<lambda>op p. None), sample_params\<lparr>p_mode := ModeInt 384\<rparr>) sample_fs =
       (Inr True, f1) \<and>
     pk_generate_at (sample_env (\<lambda>op p. None), sample_params\<lparr>p_mode := ModeInt 384\<rparr>) f1 = (r, f2) \<and>
     contents f2 = contents f1"
proof -
  let ?p = "(sample_env (\<lambda>op p. None), sample_params\<lparr>p_mode := ModeInt 384\<rparr>)"
  obtain f1 where 1: "pk_generate_at ?p sample_fs = (Inr True, f1)"
    by (simp add: pk_generate_at_def pk_generate_def pk_make_def pk_store_def open_trunc_def
        write_data_def PrivateKey_init_def os_path_exists_def get_fingerprint_def read_file_def
        sample_defs Let_def)
  obtain r f2 where 2: "pk_generate_at ?p f1 = (r, f2)" by fastforce
  have "attrs_ok (fs_attrs (sample_env (\<lambda>op p. None)))" "\<not> p_force (sample_params\<lparr>p_mode := ModeInt 384\<rparr>)"
    by (simp_all add: sample_env_def same_attrs_ok sample_params_def)
  from private_key_second_run [OF this 1 2] 1 2 show ?thesis by blast
qed

text \<open>A machine where the mode of the key file is to be 0600, and a key with mode 0644.\<close>

definition chmod_600 :: set_attrs where
  "chmod_600 p f =
     (case map_of f p of
        Some (RegFile c m) \<Rightarrow> if m = 384 then (False, f)
          else (True, map (\<lambda>(q, n). (q, if q = p then RegFile c 384 else n)) f)
      | _ \<Rightarrow> (False, f))"

lemma chmod_600_ok: "attrs_ok chmod_600"
proof -
  have m: "map_of (map (\<lambda>(q, n). (q, if q = p then x else n)) f) q =
      (case map_of f q of None \<Rightarrow> None | Some n \<Rightarrow> Some (if q = p then x else n))" for f :: fs and p q x
    by (induction f) (auto split: option.split)
  have "map (\<lambda>(q, n). (q, if q = p then RegFile c 384 else n)) f \<noteq> f"
    if "map_of f p = Some (RegFile c i)" "i \<noteq> 384" for f :: fs and p c i
    using m [of p "RegFile c 384" f p] that by auto
  then show ?thesis
    by (auto simp: attrs_ok_def chmod_600_def only_at_def os_path_exists_def contents_def m fun_eq_iff
        split: option.splits node.splits)
qed

definition chmod_env :: "crypto_lib os_env" where
  "chmod_env = sample_env (\<lambda>op p. None)\<lparr>fs_attrs := chmod_600\<rparr>"

definition open_key :: fs where
  "open_key = [(''/k'', Directory), (''/k/key.pem'', RegFile ''pem'' 420)]"

lemma open_key_runs:
  "case pk_main chmod_env (sample_params\<lparr>p_check_mode := True\<rparr>) open_key of (out, f1) \<Rightarrow>
     (case out of Exited pr \<Rightarrow> \<not> r_changed pr | _ \<Rightarrow> False) \<and>
     (case pk_main chmod_env (sample_params\<lparr>p_check_mode := False\<rparr>) open_key of (out, f2) \<Rightarrow>
        (case out of Exited res \<Rightarrow> True | _ \<Rightarrow> False) \<and>
        f2 = [(''/k'', Directory), (''/k/key.pem'', RegFile ''pem'' 384)])"
  by code_simp

text \<open>The real run reports the new mode, which check mode did not predict.\<close>

theorem private_key_check_mode_witness:
  "\<exists>predicted res f2. pk_main chmod_env (sample_params\<lparr>p_check_mode := True\<rparr>) open_key =
       (Exited predicted, open_key) \<and> \<not> r_changed predicted \<and>
     pk_main chmod_env (sample_params\<lparr>p_check_mode := False\<rparr>) open_key = (Exited res, f2) \<and>
     r_changed res \<and> contents f2 = contents open_key \<and> file_mode f2 ''/k/key.pem'' = Some 384"
proof -
  obtain pr res f1 f2 where 1: "pk_main chmod_env (sample_params\<lparr>p_check_mode := True\<rparr>) open_key = (Exited pr, f1)"
    and 2: "pk_main chmod_env (sample_params\<lparr>p_check_mode := False\<rparr>) open_key = (Exited res, f2)"
    and f2: "\<not> r_changed pr" "f2 = [(''/k'', Directory), (''/k/key.pem'', RegFile ''pem'' 384)]"
    using open_key_runs by (auto split: prod.splits file_outcome.splits)
  have "attrs_ok (fs_attrs chmod_env)" by (simp add: chmod_env_def chmod_600_ok)
  from private_key_check_mode [OF this 1 2] 1 2 f2 show ?thesis
    by (auto simp: open_key_def file_mode_def)
qed

theorem private_key_mode_witness:
  "\<exists>f'. pk_store (sample_env (\<lambda>op p. None)) (PrivateKey_init (sample_params\<lparr>p_mode := ModeInt 384\<rparr>))
       ''key'' sample_fs = (Inr (), f') \<and>
     (\<exists>m. file_mode f' ''/k/key.pem'' = Some m \<and> m AND 63 = 0)"
proof -
  let ?e = "sample_env (\<lambda>op p. None)" and ?pk = "PrivateKey_init (sample_params\<lparr>p_mode := ModeInt 384\<rparr>)"
  obtain f' where 1: "pk_store ?e ?pk ''key'' sample_fs = (Inr (), f')"
    by (simp add: pk_store_def open_trunc_def write_data_def PrivateKey_init_def sample_defs)
  have m: "pk_mode ?pk = default_mode NoMode" "\<not> os_path_exists sample_fs (pk_path ?pk)"
    "pk_path ?pk = ''/k/key.pem''"
    by (simp_all add: PrivateKey_init_def default_mode_def os_path_exists_def sample_defs)
  from private_key_mode [OF 1 m(1,2)] 1 m(3) show ?thesis by auto
qed

theorem private_key_failed_write_witness:
  "\<exists>f'. pk_main (sample_env (\<lambda>op p. if op = WriteData then Some ENOSPC else None)) sample_params
       sample_fs = (Crashed (OSError (Refused ENOSPC)), f') \<and>
     contents f' ''/k/key.pem'' = Some ''''"
proof -
  have "\<exists>f'. pk_main (sample_env (\<lambda>op p. if op = WriteData then Some ENOSPC else None)) sample_params
       sample_fs = (Crashed (OSError (Refused ENOSPC)), f') \<and>
     contents f' (p_path sample_params) = Some ''''"
    by (rule private_key_failed_write [where key = "''key''"])
      (simp_all add: sample_defs os_path_isdir_def sample_dirname os_path_exists_def)
  then show ?thesis by (simp add: sample_params_def)
qed

end
