(* ===== verification/OpenSSL_CSR.thy ===== *)
theory OpenSSL_CSR
  imports OS_Files Ansible
begin

text \<open>
  \<open>lib/modules/openssl_csr.py\<close>. pyOpenSSL is code outside the repository: the record
  \<open>csr_lib\<close> holds what the module calls of it, on opaque texts: building an unsigned request from
  version, subject and alternative names (in this order), loading the private key, setting the
  public key, signing, and the PEM form.
\<close>

section \<open>Environment\<close>

record csr_lib =
  set_version :: "int \<Rightarrow> file_exc + string"
  set_subject :: "string \<Rightarrow> (string \<times> string) list \<Rightarrow> file_exc + string"
  add_san :: "string \<Rightarrow> string \<Rightarrow> file_exc + string"
  csr_load_privatekey :: "string \<Rightarrow> file_exc + string"
  csr_set_pubkey :: "string \<Rightarrow> string \<Rightarrow> file_exc + string"
  csr_sign :: "string \<Rightarrow> string \<Rightarrow> string \<Rightarrow> file_exc + string"
  dump_certificate_request :: "string \<Rightarrow> string"

section \<open>\<open>CertificateSigningRequest\<close>\<close>

record csr_params =
  c_state :: string
  c_digest :: string
  c_privatekey_path :: "string option"
  c_version :: int
  c_force :: bool
  c_subjectAltName :: "string option"
  c_path :: string
  c_countryName :: "string option"
  c_stateOrProvinceName :: "string option"
  c_localityName :: "string option"
  c_organizationName :: "string option"
  c_organizationalUnitName :: "string option"
  c_commonName :: "string option"
  c_emailAddress :: "string option"
  c_check_mode :: bool

record csr =
  csr_state :: string
  csr_digest :: string
  csr_force :: bool
  csr_subjectAltName :: string
  csr_path :: string
  csr_privatekey_path :: "string option"
  csr_version :: int
  csr_changed :: bool
  csr_request :: "string option"
  csr_privatekey :: "string option"
  csr_subject :: "(string \<times> string) list"

definition csr_names :: "csr_params \<Rightarrow> (string \<times> string option) list" where
  "csr_names ps =
     [(''C'', c_countryName ps), (''ST'', c_stateOrProvinceName ps), (''L'', c_localityName ps),
      (''O'', c_organizationName ps), (''OU'', c_organizationalUnitName ps),
      (''CN'', c_commonName ps), (''emailAddress'', c_emailAddress ps)]"

text \<open>\<open>dict((k, v) for k, v in self.subject.items() if v)\<close>: no missing and no empty value.\<close>

definition truthy_names :: "(string \<times> string option) list \<Rightarrow> (string \<times> string) list" where
  "truthy_names names =
     concat (map (\<lambda>(k, v). case v of Some t \<Rightarrow> if t \<noteq> [] then [(k, t)] else [] | None \<Rightarrow> []) names)"

fun opt_text :: "string option \<Rightarrow> string" where
  "opt_text None = ''None''"
| "opt_text (Some t) = t"

definition csr_init :: "csr_params \<Rightarrow> csr" where
  "csr_init ps =
     \<lparr>csr_state = c_state ps, csr_digest = c_digest ps, csr_force = c_force ps,
      csr_subjectAltName =
        (case c_subjectAltName ps of Some san \<Rightarrow> san | None \<Rightarrow> ''DNS:'' @ opt_text (c_commonName ps)),
      csr_path = c_path ps, csr_privatekey_path = c_privatekey_path ps, csr_version = c_version ps,
      csr_changed = True, csr_request = None, csr_privatekey = None,
      csr_subject = truthy_names (csr_names ps)\<rparr>"

text \<open>\<open>s.encode('ascii')\<close> of a byte string.\<close>

definition encode_ascii :: "string \<Rightarrow> file_exc + string" where
  "encode_ascii s =
     (if list_all (\<lambda>c. (of_char c :: nat) < 128) s then Inr s
      else Inl (PyUnicodeError ''ordinal not in range(128)''))"

definition csr_read_key :: "csr_lib os_env \<Rightarrow> csr \<Rightarrow> fs \<Rightarrow> file_exc + string" where
  "csr_read_key env c f =
     (case csr_privatekey_path c of
        None \<Rightarrow> Inl (PyTypeError ''coercing to Unicode: need string or buffer, NoneType found'')
      | Some p \<Rightarrow>
          (case read_file (denied env) p f of Inl e \<Rightarrow> Inl (IOError e) | Inr pem \<Rightarrow> Inr pem))"

text \<open>The request: unsigned parts, private key, public key and signature.\<close>

definition csr_build :: "csr_lib os_env \<Rightarrow> csr \<Rightarrow> fs \<Rightarrow> file_exc + string \<times> string" where
  "csr_build env c f =
     ebind (set_version (lib env) (csr_version c)) (\<lambda>r0.
     ebind (set_subject (lib env) r0 (csr_subject c)) (\<lambda>r1.
     ebind (encode_ascii (csr_subjectAltName c)) (\<lambda>san.
     ebind (add_san (lib env) r1 san) (\<lambda>r2.
     ebind (csr_read_key env c f) (\<lambda>pem.
     ebind (csr_load_privatekey (lib env) pem) (\<lambda>key.
     ebind (csr_set_pubkey (lib env) r2 key) (\<lambda>r3.
     ebind (csr_sign (lib env) r3 key (csr_digest c)) (\<lambda>req. Inr (req, key)))))))))"

text \<open>\<open>open(path, 'wb')\<close>, \<open>write\<close>, \<open>close\<close>: either \<open>IOError\<close> is wrapped.\<close>

definition csr_store :: "csr_lib os_env \<Rightarrow> csr \<Rightarrow> string \<Rightarrow> fs \<Rightarrow> (file_exc + unit) \<times> fs" where
  "csr_store env c req f =
     (case open_trunc (denied env) (umask env) 438 (csr_path c) f of
        Inl e \<Rightarrow> (Inl (WrappedError (IOError e)), f)
      | Inr f1 \<Rightarrow>
          (case write_data (denied env) (csr_path c) (dump_certificate_request (lib env) req) f1 of
             Inl e \<Rightarrow> (Inl (WrappedError (IOError e)), f1)
           | Inr f2 \<Rightarrow> (Inr (), f2)))"

definition csr_make :: "csr_lib os_env \<Rightarrow> csr \<Rightarrow> fs \<Rightarrow> (file_exc + unit) \<times> csr \<times> fs" where
  "csr_make env c f =
     (case csr_build env c f of
        Inl x \<Rightarrow> (Inl x, c, f)
      | Inr (req, key) \<Rightarrow>
          let c1 = c\<lparr>csr_privatekey := Some key, csr_request := Some req\<rparr>;
              (r, f1) = csr_store env c1 req f
          in (r, c1, f1))"

definition csr_generate :: "csr_lib os_env \<Rightarrow> csr \<Rightarrow> fs \<Rightarrow> (file_exc + unit) \<times> csr \<times> fs" where
  "csr_generate env c f =
     (case (if \<not> os_path_exists f (csr_path c) \<or> csr_force c then csr_make env c f
            else (Inr (), c\<lparr>csr_changed := False\<rparr>, f)) of
        (Inl x, c1, f1) \<Rightarrow> (Inl x, c1, f1)
      | (Inr _, c1, f1) \<Rightarrow>
          let (diff, f2) = fs_attrs env (csr_path c1) f1
          in (Inr (), if diff then c1\<lparr>csr_changed := True\<rparr> else c1, f2))"

definition csr_remove :: "csr_lib os_env \<Rightarrow> csr \<Rightarrow> fs \<Rightarrow> (file_exc + unit) \<times> csr \<times> fs" where
  "csr_remove env c f =
     (case os_remove (denied env) (csr_path c) f of
        Inr f' \<Rightarrow> (Inr (), c, f')
      | Inl ENOENT \<Rightarrow> (Inr (), c\<lparr>csr_changed := False\<rparr>, f)
      | Inl e \<Rightarrow> (Inl (WrappedError (OSError e)), c, f))"

record csr_result =
  cr_csr :: string
  cr_subject :: "(string \<times> string) list"
  cr_subjectAltName :: string
  cr_changed :: bool

definition csr_dump :: "csr \<Rightarrow> csr_result" where
  "csr_dump c = \<lparr>cr_csr = csr_path c, cr_subject = csr_subject c,
     cr_subjectAltName = csr_subjectAltName c, cr_changed = csr_changed c\<rparr>"

fun csr_finish :: "(file_exc + unit) \<times> csr \<times> fs \<Rightarrow> csr_result file_outcome \<times> fs" where
  "csr_finish (Inl (WrappedError e), c, f) = (FailedExc e, f)"
| "csr_finish (Inl e, c, f) = (Crashed e, f)"
| "csr_finish (Inr _, c, f) = (Exited (csr_dump c), f)"

definition csr_main :: "csr_lib os_env \<Rightarrow> csr_params \<Rightarrow> fs \<Rightarrow> csr_result file_outcome \<times> fs" where
  "csr_main env ps f =
     (if \<not> pyopenssl_found env then (Failed ''the python pyOpenSSL module is required'', f)
      else
        let path = c_path ps; base_dir = os_path_dirname path in
        if \<not> os_path_isdir f base_dir then
          (Failed (''The directory '' @ path @ '' does not exist''), f)
        else
          let c = csr_init ps in
          if c_state ps = ''present'' then
            if c_check_mode ps then
              (Exited ((csr_dump c)\<lparr>cr_changed := c_force ps \<or> \<not> os_path_exists f path\<rparr>), f)
            else csr_finish (csr_generate env c f)
          else
            if c_check_mode ps then
              (Exited ((csr_dump c)\<lparr>cr_changed := os_path_exists f path\<rparr>), f)
            else csr_finish (csr_remove env c f))"

text \<open>
  The arguments of the module, read into the record, and the run from the start. The specification
  of \<open>privatekey_path\<close> says \<open>require=True\<close>, a key \<open>AnsibleModule\<close> does not read, so the argument
  is optional; \<open>subjectAltName\<close> has itself as alias.
\<close>

definition csr_argument_spec :: "(string \<times> argspec) list" where
  "csr_argument_spec =
     [(''state'', with_default (PStr ''present'') (with_choices [''present'', ''absent''] (kwarg ''str'' False))),
      (''digest'', with_default (PStr ''sha256'') (kwarg ''str'' False)),
      (''privatekey_path'', kwarg ''path'' False),
      (''version'', with_default (PStr ''3'') (kwarg ''int'' False)),
      (''force'', with_default (PBool False) (kwarg ''bool'' False)),
      (''subjectAltName'', with_aliases [''subjectAltName''] (kwarg ''str'' False)),
      (''path'', kwarg ''path'' True),
      (''countryName'', with_aliases [''C''] (kwarg ''str'' False)),
      (''stateOrProvinceName'', with_aliases [''ST''] (kwarg ''str'' False)),
      (''localityName'', with_aliases [''L''] (kwarg ''str'' False)),
      (''organizationName'', with_aliases [''O''] (kwarg ''str'' False)),
      (''organizationalUnitName'', with_aliases [''OU''] (kwarg ''str'' False)),
      (''commonName'', with_aliases [''CN''] (kwarg ''str'' False)),
      (''emailAddress'', with_aliases [''E''] (kwarg ''str'' False))]"

definition csr_params_of :: "pydict \<Rightarrow> bool \<Rightarrow> exit + csr_params" where
  "csr_params_of ps check_mode =
     ebind (str_param ps ''state'') (\<lambda>st.
     ebind (str_param ps ''digest'') (\<lambda>dg.
     ebind (bool_param ps ''force'') (\<lambda>fo.
     ebind (opt_str_param ps ''subjectAltName'') (\<lambda>san.
     ebind (str_param ps ''path'') (\<lambda>pa.
     ebind (opt_str_param ps ''privatekey_path'') (\<lambda>pk.
     ebind (int_param ps ''version'') (\<lambda>v.
     ebind (opt_str_param ps ''countryName'') (\<lambda>c.
     ebind (opt_str_param ps ''stateOrProvinceName'') (\<lambda>s.
     ebind (opt_str_param ps ''localityName'') (\<lambda>l.
     ebind (opt_str_param ps ''organizationName'') (\<lambda>og.
     ebind (opt_str_param ps ''organizationalUnitName'') (\<lambda>ou.
     ebind (opt_str_param ps ''commonName'') (\<lambda>cn.
     ebind (opt_str_param ps ''emailAddress'') (\<lambda>e.
       Inr \<lparr>c_state = st, c_digest = dg, c_privatekey_path = pk, c_version = v, c_force = fo,
            c_subjectAltName = san, c_path = pa, c_countryName = c, c_stateOrProvinceName = s,
            c_localityName = l, c_organizationName = og, c_organizationalUnitName = ou,
            c_commonName = cn, c_emailAddress = e, c_check_mode = check_mode\<rparr>))))))))))))))"

definition csr_module ::
  "ansible_module \<Rightarrow> csr_lib os_env \<Rightarrow> fs \<Rightarrow> exit + csr_result file_outcome \<times> fs" where
  "csr_module am env f =
     ebind (am csr_argument_spec) (\<lambda>(ps, check_mode).
     ebind (csr_params_of ps check_mode) (\<lambda>p. Inr (csr_main env p f)))"

section \<open>The contract\<close>

lemma csr_store_frame:
  assumes "csr_store env c req f = (r, f')"
  shows "only_at (csr_path c) f f'"
    and "r = Inr () \<Longrightarrow>
      contents f' = (contents f)(csr_path c \<mapsto> dump_certificate_request (lib env) req)"
proof -
  show "only_at (csr_path c) f f'"
    using assms
    by (auto simp: csr_store_def split: sum.splits
        intro: only_at_ops only_at_trans [OF only_at_ops(2) only_at_ops(3)])
  show "contents f' = (contents f)(csr_path c \<mapsto> dump_certificate_request (lib env) req)"
    if "r = Inr ()"
    using assms that by (auto simp: csr_store_def split: sum.splits dest: open_write_contents(1))
qed

lemma csr_make_frame:
  assumes "csr_make env c f = (r, c', f')"
  shows "csr_path c' = csr_path c" and "only_at (csr_path c) f f'"
    and "r = Inr () \<Longrightarrow> csr_changed c' = csr_changed c \<and>
      (\<exists>req key. csr_build env c f = Inr (req, key) \<and>
         contents f' = (contents f)(csr_path c \<mapsto> dump_certificate_request (lib env) req))"
proof -
  show "csr_path c' = csr_path c" and "only_at (csr_path c) f f'"
    using assms
    by (auto simp: csr_make_def Let_def split: sum.splits prod.splits dest: csr_store_frame(1))
  show "csr_changed c' = csr_changed c \<and> (\<exists>req key. csr_build env c f = Inr (req, key) \<and>
         contents f' = (contents f)(csr_path c \<mapsto> dump_certificate_request (lib env) req))"
    if "r = Inr ()"
    using assms that
    by (auto simp: csr_make_def Let_def split: sum.splits prod.splits dest!: csr_store_frame(2))
qed

text \<open>What a run of \<open>generate\<close> consists of: making the file or not, then its attributes.\<close>

lemma csr_generate_cases:
  assumes "csr_generate env c f = (r, c', f')"
  obtains (failed) x where "csr_make env c f = (Inl x, c', f')" "r = Inl x"
      "\<not> os_path_exists f (csr_path c) \<or> csr_force c"
    | (made) c1 f1 d where "\<not> os_path_exists f (csr_path c) \<or> csr_force c" "r = Inr ()"
      "csr_make env c f = (Inr (), c1, f1)" "fs_attrs env (csr_path c) f1 = (d, f')"
      "csr_changed c' = (csr_changed c1 \<or> d)"
    | (kept) d where "os_path_exists f (csr_path c)" "\<not> csr_force c" "r = Inr ()"
      "fs_attrs env (csr_path c) f = (d, f')" "csr_changed c' = d"
proof (cases "\<not> os_path_exists f (csr_path c) \<or> csr_force c")
  case True
  obtain r1 c1 f1 where m: "csr_make env c f = (r1, c1, f1)" by (metis prod_cases3)
  show thesis
  proof (cases r1)
    case (Inl x)
    with assms True m show thesis by (intro failed) (auto simp: csr_generate_def)
  next
    case (Inr u)
    obtain d f2 where a: "fs_attrs env (csr_path c) f1 = (d, f2)" by fastforce
    with assms True m csr_make_frame(1) [OF m] Inr
    show thesis by (intro made [of c1 f1 d]) (auto simp: csr_generate_def Let_def)
  qed
next
  case False
  obtain d f2 where a: "fs_attrs env (csr_path c) f = (d, f2)" by fastforce
  with assms False show thesis
    by (intro kept [of d]) (auto simp: csr_generate_def Let_def split: if_splits)
qed

lemma csr_generate_frame:
  assumes "csr_generate env c f = (r, c', f')" and "attrs_ok (fs_attrs env)"
  shows "only_at (csr_path c) f f'"
    and "r = Inr () \<Longrightarrow> os_path_exists f' (csr_path c)"
    and "os_path_exists f (csr_path c) \<Longrightarrow> \<not> csr_force c \<Longrightarrow>
      contents f' = contents f \<and> (r = Inr () \<longrightarrow> csr_changed c' = (f' \<noteq> f))"
proof -
  note attrs = attrs_okD [OF assms(2)]
  show "only_at (csr_path c) f f'"
    using assms(1)
  proof (cases rule: csr_generate_cases)
    case made
    from csr_make_frame(2) [OF made(3)] attrs(2) [OF made(4)] show ?thesis
      by (rule only_at_trans)
  qed (auto dest: csr_make_frame(2) attrs(2))
  show "os_path_exists f' (csr_path c)" if "r = Inr ()"
    using assms(1)
  proof (cases rule: csr_generate_cases)
    case made
    have "os_path_exists f1 (csr_path c)" if "csr_make env c f = (Inr (), c1, f1)" for c1 f1
      using csr_make_frame(3) [OF that] by (auto intro: contents_exists)
    with made attrs(3) [OF made(4)] show ?thesis by simp
  qed (use that attrs(3) in auto)
  show "contents f' = contents f \<and> (r = Inr () \<longrightarrow> csr_changed c' = (f' \<noteq> f))"
    if "os_path_exists f (csr_path c)" "\<not> csr_force c"
    using assms(1)
  proof (cases rule: csr_generate_cases)
    case kept
    with attrs(1,4) [OF kept(4)] show ?thesis by simp
  qed (use that in auto)
qed

definition csr_generate_at :: "csr_lib os_env \<times> csr_params \<Rightarrow> fs \<Rightarrow> (file_exc + bool) \<times> fs" where
  "csr_generate_at p f =
     (case csr_generate (fst p) (csr_init (snd p)) f of
        (Inl x, c, f') \<Rightarrow> (Inl x, f') | (Inr _, c, f') \<Rightarrow> (Inr (csr_changed c), f'))"

lemma csr_generate_at_cases:
  assumes "csr_generate_at p f = (r, f')"
  obtains u c' where "csr_generate (fst p) (csr_init (snd p)) f = (u, c', f')"
    "r = (case u of Inl x \<Rightarrow> Inl x | Inr _ \<Rightarrow> Inr (csr_changed c'))"
  using assms by (auto simp: csr_generate_at_def split: prod.splits sum.splits)

lemma csr_init_simps [simp]:
  "csr_path (csr_init ps) = c_path ps" "csr_force (csr_init ps) = c_force ps"
  "csr_changed (csr_init ps)"
  by (simp_all add: csr_init_def)

interpretation csr_file: managed_file "\<lambda>p. c_path (snd p)" "\<lambda>p. c_force (snd p)"
    "\<lambda>p. attrs_ok (fs_attrs (fst p))" csr_generate_at
proof
  fix p :: "csr_lib os_env \<times> csr_params" and f f' r ch
  assume ok: "attrs_ok (fs_attrs (fst p))"
  note frame = csr_generate_frame [OF _ ok]
  show "only_at (c_path (snd p)) f f'" if "csr_generate_at p f = (r, f')"
    using that by (rule csr_generate_at_cases) (drule frame(1), simp)
  show "contents f' = contents f"
    if "os_path_exists f (c_path (snd p))" "\<not> c_force (snd p)" "csr_generate_at p f = (r, f')"
    using that(3) by (rule csr_generate_at_cases) (drule frame(3), use that in auto)
  show "os_path_exists f' (c_path (snd p))" if "csr_generate_at p f = (Inr ch, f')"
    using that
    by (rule csr_generate_at_cases) (drule frame(2), auto split: sum.splits)
  show "ch = (f' \<noteq> f)" if "csr_generate_at p f = (Inr ch, f')" "os_path_exists f (c_path (snd p))"
    "\<not> c_force (snd p)"
    using that(1)
    by (rule csr_generate_at_cases) (drule frame(3), use that in \<open>auto split: sum.splits\<close>)
qed

section \<open>Properties of whole runs\<close>

text \<open>A second run, as for private keys.\<close>

lemma csr_second_run:
  assumes "attrs_ok (fs_attrs env)" and "\<not> c_force ps"
    and "csr_generate_at (env, ps) f = (Inr ch, f1)" and "csr_generate_at (env, ps) f1 = (r, f2)"
  shows "contents f2 = contents f1 \<and> only_at (c_path ps) f f2 \<and>
    (\<forall>ch2. r = Inr ch2 \<longrightarrow> ch2 = (f2 \<noteq> f1))"
  using csr_file.second_run [of "(env, ps)"] assms by simp

text \<open>What ends up in a new request: the names the task gave, and a non-empty alternative name.\<close>

lemma map_of_truthy_names:
  "distinct (map fst names) \<Longrightarrow>
     map_of (truthy_names names) k =
       (case map_of names k of Some (Some t) \<Rightarrow> if t = [] then None else Some t | _ \<Rightarrow> None)"
proof (induction names)
  case (Cons x names)
  obtain k' v where x: "x = (k', v)" by fastforce
  with Cons.prems have "map_of names k' = None" by (simp add: map_of_eq_None_iff)
  with Cons x show ?case
    by (auto simp: truthy_names_def split: option.splits)
qed (simp add: truthy_names_def)

lemma csr_finish_Exited:
  assumes "csr_finish x = (Exited res, f')"
  shows "\<exists>c. x = (Inr (), c, f') \<and> res = csr_dump c"
proof -
  obtain r c f1 where x: "x = (r, c, f1)" by (cases x)
  with assms show ?thesis
    by (cases r; cases "projl r") auto
qed

lemma csr_main_present:
  assumes "csr_main env ps f = (Exited res, f')" and "c_state ps = ''present''"
    and "\<not> c_check_mode ps"
  obtains c where "csr_generate env (csr_init ps) f = (Inr (), c, f')" "res = csr_dump c"
  using assms by (auto simp: csr_main_def Let_def split: if_splits dest!: csr_finish_Exited)

text \<open>A run that makes a request reports a change, writes the signed request built from the task
  and nothing else, and its common name is the task's unless that is empty.\<close>

theorem csr_made_from_task:
  assumes "csr_main env ps f = (Exited res, f')" and "c_state ps = ''present''"
    and "\<not> c_check_mode ps" and "\<not> os_path_exists f (c_path ps)" and "attrs_ok (fs_attrs env)"
  shows "cr_changed res \<and>
    (\<exists>req key. csr_build env (csr_init ps) f = Inr (req, key) \<and>
       contents f' = (contents f)(c_path ps \<mapsto> dump_certificate_request (lib env) req)) \<and>
    map_of (csr_subject (csr_init ps)) ''CN'' =
      (if c_commonName ps = Some '''' then None else c_commonName ps)"
proof -
  obtain c where g: "csr_generate env (csr_init ps) f = (Inr (), c, f')" and res: "res = csr_dump c"
    using assms(1-3) by (rule csr_main_present)
  from g have "csr_changed c \<and> (\<exists>req key. csr_build env (csr_init ps) f = Inr (req, key) \<and>
       contents f' = (contents f)(c_path ps \<mapsto> dump_certificate_request (lib env) req))"
  proof (cases rule: csr_generate_cases)
    case made
    with csr_make_frame(3) [OF made(3)] attrs_okD(1) [OF assms(5) made(4)] show ?thesis by auto
  qed (use assms(4) in auto)
  moreover have "map_of (csr_subject (csr_init ps)) ''CN'' =
      (if c_commonName ps = Some '''' then None else c_commonName ps)"
    by (simp add: csr_init_def map_of_truthy_names csr_names_def split: option.splits)
  ultimately show ?thesis by (simp add: res csr_dump_def)
qed

text \<open>A private key path is not required of the task, and without one the module crashes.\<close>

lemma csr_needs_privatekey_path:
  assumes "c_privatekey_path ps = None"
  shows "csr_build env (csr_init ps) f \<noteq> Inr v"
  using assms
  by (auto simp: csr_build_def csr_read_key_def csr_init_def ebind_Inr_iff)

section \<open>A run on a concrete machine\<close>

definition csr_sample_env :: "csr_lib os_env" where
  "csr_sample_env = \<lparr>denied = (\<lambda>op p. None), umask = 18, fs_attrs = (\<lambda>p f. (False, f)),
     lib = \<lparr>set_version = (\<lambda>v. Inr ''v''), set_subject = (\<lambda>r sub. Inr r), add_san = (\<lambda>r san. Inr r),
            csr_load_privatekey = (\<lambda>pem. Inr ''key''), csr_set_pubkey = (\<lambda>r k. Inr r),
            csr_sign = (\<lambda>r k d. Inr ''signed''),
            dump_certificate_request = (\<lambda>r. ''pem'')\<rparr>,
     pyopenssl_found = True\<rparr>"

definition csr_sample_params :: csr_params where
  "csr_sample_params = \<lparr>c_state = ''present'', c_digest = ''sha256'',
     c_privatekey_path = Some ''/k/key'', c_version = 3, c_force = False, c_subjectAltName = None,
     c_path = ''/k/csr'', c_countryName = None, c_stateOrProvinceName = None,
     c_localityName = None, c_organizationName = Some '''', c_organizationalUnitName = None,
     c_commonName = Some ''www'', c_emailAddress = None, c_check_mode = False\<rparr>"

definition csr_sample_fs :: fs where
  "csr_sample_fs = [(''/k'', Directory), (''/k/key'', RegFile ''key'' 384)]"

theorem csr_made_from_task_witness:
  "\<exists>res f'. csr_main csr_sample_env csr_sample_params csr_sample_fs = (Exited res, f') \<and>
     cr_changed res \<and> contents f' ''/k/csr'' = Some ''pem''"
proof -
  obtain res f' where run: "csr_main csr_sample_env csr_sample_params csr_sample_fs = (Exited res, f')"
    by (simp add: csr_main_def Let_def os_path_isdir_def os_path_dirname_def rfind_slash_def
        csr_generate_def csr_make_def csr_build_def csr_store_def csr_read_key_def read_file_def
        open_trunc_def write_data_def encode_ascii_def csr_init_def os_path_exists_def
        csr_sample_env_def csr_sample_params_def csr_sample_fs_def)
  have "cr_changed res \<and>
    (\<exists>req key. csr_build csr_sample_env (csr_init csr_sample_params) csr_sample_fs = Inr (req, key) \<and>
       contents f' = (contents csr_sample_fs)
         (c_path csr_sample_params \<mapsto> dump_certificate_request (lib csr_sample_env) req)) \<and>
    map_of (csr_subject (csr_init csr_sample_params)) ''CN'' =
      (if c_commonName csr_sample_params = Some '''' then None else c_commonName csr_sample_params)"
    by (rule csr_made_from_task [OF run])
      (simp_all add: csr_sample_params_def csr_sample_fs_def csr_sample_env_def os_path_exists_def
        attrs_ok_def)
  with run show ?thesis by (auto simp: csr_sample_params_def csr_sample_env_def)
qed

end
