(* ===== verification/File_Runs.thy ===== *)
theory File_Runs
  imports OpenSSL_PrivateKey OpenSSL_CSR
begin

text \<open>
  Private keys and certificate requests together: a play runs tasks of both modules over one file
  system, in any order and number, and a request is signed with a key file of an earlier task.
\<close>

section \<open>Tasks and steps\<close>

datatype file_task = KeyTask pk_params | RequestTask csr_params

fun task_path :: "file_task \<Rightarrow> string" where
  "task_path (KeyTask ps) = p_path ps"
| "task_path (RequestTask ps) = c_path ps"

text \<open>A task that neither forces nor removes.\<close>

fun gentle :: "file_task \<Rightarrow> bool" where
  "gentle (KeyTask ps) \<longleftrightarrow> \<not> p_force ps \<and> p_state ps = ''present''"
| "gentle (RequestTask ps) \<longleftrightarrow> \<not> c_force ps \<and> c_state ps = ''present''"

text \<open>One task, run by its module, however it ends; then any number of tasks of a kind.\<close>

inductive task_step ::
  "crypto_lib os_env \<Rightarrow> csr_lib os_env \<Rightarrow> file_task \<Rightarrow> fs \<Rightarrow> fs \<Rightarrow> bool"
  for kenv cenv where
  key: "pk_main kenv ps f = (r, g) \<Longrightarrow> task_step kenv cenv (KeyTask ps) f g"
| request: "csr_main cenv ps f = (r, g) \<Longrightarrow> task_step kenv cenv (RequestTask ps) f g"

inductive_cases task_step_key: "task_step kenv cenv (KeyTask ps) f g"
inductive_cases task_step_request: "task_step kenv cenv (RequestTask ps) f g"

inductive plays ::
  "crypto_lib os_env \<Rightarrow> csr_lib os_env \<Rightarrow> (file_task \<Rightarrow> bool) \<Rightarrow> fs \<Rightarrow> fs \<Rightarrow> bool"
  for kenv cenv P where
  no_task: "plays kenv cenv P f f"
| task: "plays kenv cenv P f g \<Longrightarrow> P t \<Longrightarrow> task_step kenv cenv t g h \<Longrightarrow> plays kenv cenv P f h"

section \<open>One step\<close>

text \<open>A run without check mode is the check of the environment, or \<open>generate\<close> or \<open>remove\<close>.\<close>

lemma pk_finish_store: "snd (pk_finish (r, pk, g)) = g"
  by (cases r; cases "projl r") auto

lemma csr_finish_store: "snd (csr_finish (r, c, g)) = g"
  by (cases r; cases "projl r") auto

lemma pk_main_cases:
  assumes "pk_main env ps f = (out, g)"
  obtains "g = f"
    | r pk where "p_state ps = ''present''" "pk_generate env (pk_ready ps) f = (r, pk, g)"
    | r pk where "p_state ps \<noteq> ''present''" "pk_remove env (pk_ready ps) f = (r, pk, g)"
proof -
  obtain r pk h where gen: "pk_generate env (pk_ready ps) f = (r, pk, h)" by (metis prod_cases3)
  obtain r' pk' h' where rem: "pk_remove env (pk_ready ps) f = (r', pk', h')" by (metis prod_cases3)
  have "pk_state (pk_ready ps) = p_state ps" by simp
  with assms have "g = f \<or> p_state ps = ''present'' \<and> g = h \<or> p_state ps \<noteq> ''present'' \<and> g = h'"
    using pk_finish_store [of r pk h] pk_finish_store [of r' pk' h'] gen rem
    by (auto simp: pk_main_def Let_def pk_ready_def split: if_splits)
  with gen rem that show thesis by blast
qed

lemma csr_main_cases:
  assumes "csr_main env ps f = (out, g)"
  obtains "g = f"
    | r c where "c_state ps = ''present''" "csr_generate env (csr_init ps) f = (r, c, g)"
    | r c where "c_state ps \<noteq> ''present''" "csr_remove env (csr_init ps) f = (r, c, g)"
proof -
  obtain r c h where gen: "csr_generate env (csr_init ps) f = (r, c, h)" by (metis prod_cases3)
  obtain r' c' h' where rem: "csr_remove env (csr_init ps) f = (r', c', h')" by (metis prod_cases3)
  have "csr_state (csr_init ps) = c_state ps" by (simp add: csr_init_def)
  with assms have "g = f \<or> c_state ps = ''present'' \<and> g = h \<or> c_state ps \<noteq> ''present'' \<and> g = h'"
    using csr_finish_store [of r c h] csr_finish_store [of r' c' h'] gen rem
    by (auto simp: csr_main_def Let_def split: if_splits)
  with gen rem that show thesis by blast
qed

lemma csr_remove_frame:
  assumes "csr_remove env c f = (r, c', f')"
  shows "only_at (csr_path c) f f'"
  using assms only_at_ops(1) [of "denied env" "csr_path c" f]
  by (auto simp: csr_remove_def split: sum.splits errno.splits)

text \<open>A task touches its own path only.\<close>

lemma task_step_only_at:
  assumes "task_step kenv cenv t f g" and "attrs_ok (fs_attrs kenv)" and "attrs_ok (fs_attrs cenv)"
  shows "only_at (task_path t) f g"
  using assms(1)
proof cases
  case (key ps r)
  from key(2) show ?thesis
    by (cases rule: pk_main_cases)
      (use key(1) pk_generate_frame(1) [OF _ assms(2)] pk_remove_frame(2) in force)+
next
  case (request ps r)
  from request(2) show ?thesis
    by (cases rule: csr_main_cases)
      (use request(1) csr_generate_frame(1) [OF _ assms(3)] csr_remove_frame in force)+
qed

text \<open>A gentle task leaves every file that is there.\<close>

lemma task_step_keeps:
  assumes "task_step kenv cenv t f g" and "gentle t"
    and "attrs_ok (fs_attrs kenv)" and "attrs_ok (fs_attrs cenv)" and "contents f p = Some c"
  shows "contents g p = Some c"
proof (cases "p = task_path t")
  case False
  then have "map_of g p = map_of f p"
    using task_step_only_at [OF assms(1,3,4)] by (simp add: only_at_def)
  with assms(5) show ?thesis by (simp add: contents_def)
next
  case True
  from assms(5) have ex: "os_path_exists f p" by (rule contents_exists)
  have "contents g = contents f"
    using assms(1)
  proof cases
    case (key ps r)
    from key(2) show ?thesis
    proof (cases rule: pk_main_cases)
      case (2 r pk)
      with pk_generate_frame(3) [OF 2(2) assms(3)] ex True key(1) assms(2) show ?thesis by simp
    qed (use assms(2) key(1) in auto)
  next
    case (request ps r)
    from request(2) show ?thesis
    proof (cases rule: csr_main_cases)
      case (2 r c)
      with csr_generate_frame(3) [OF 2(2) assms(4)] ex True request(1) assms(2) show ?thesis
        by simp
    qed (use assms(2) request(1) in auto)
  qed
  with assms(5) show ?thesis by simp
qed

section \<open>Plays\<close>

lemma plays_keep:
  assumes "plays kenv cenv gentle f g" and "attrs_ok (fs_attrs kenv)" and "attrs_ok (fs_attrs cenv)"
    and "contents f p = Some c"
  shows "contents g p = Some c"
  using assms(1,4)
proof (induction rule: plays.induct)
  case (task f g t h)
  with task_step_keeps [OF _ _ assms(2,3)] show ?case by blast
qed

text \<open>Whatever tasks do, forced and removing ones included, no path changes but those they name.\<close>

lemma plays_only:
  assumes "plays kenv cenv (\<lambda>t. task_path t \<in> A) f g"
    and "attrs_ok (fs_attrs kenv)" and "attrs_ok (fs_attrs cenv)" and "p \<notin> A"
  shows "map_of g p = map_of f p"
  using assms(1)
proof (induction rule: plays.induct)
  case (task f g t h)
  from task(2) assms(4) have "p \<noteq> task_path t" by auto
  with task_step_only_at [OF task(3) assms(2,3)] task.IH show ?case by (simp add: only_at_def)
qed simp

lemma key_there:
  assumes "pk_main env ps f = (Exited res, g)" and "p_state ps = ''present''"
    and "\<not> p_check_mode ps" and "attrs_ok (fs_attrs env)"
  shows "\<exists>pem. contents g (p_path ps) = Some pem"
proof -
  from pk_main_applied [OF assms(1,3)] assms(2) obtain pk where
    "pk_generate env (pk_ready ps) f = (Inr (), pk, g)" by auto
  moreover obtain r1 pk1 f1 where m: "(if \<not> os_path_exists f (pk_path (pk_ready ps)) \<or> pk_force (pk_ready ps)
      then pk_make env (pk_ready ps) f else (Inr (), pk_ready ps\<lparr>pk_changed := False\<rparr>, f)) =
      (r1, pk1, f1)"
    by (metis prod_cases3)
  moreover have path: "pk_path pk1 = p_path ps"
    using m by (auto split: if_splits dest: pk_make_frame(1))
  ultimately obtain fp d where fp: "get_fingerprint env (p_path ps) f1 = Inr fp"
    and d: "fs_attrs env (p_path ps) f1 = (d, g)"
    by (auto simp: pk_generate_def Let_def simp del: pk_ready_simps split: prod.splits sum.splits)
  from fp obtain pem where "contents f1 (p_path ps) = Some pem"
    by (auto simp: get_fingerprint_def read_file_def contents_def
        split: option.splits node.splits sum.splits)
  with attrs_okD(1) [OF assms(4) d] show ?thesis by simp
qed

definition signed_with ::
  "csr_lib os_env \<Rightarrow> csr_params \<Rightarrow> string \<Rightarrow> string \<Rightarrow> bool" where
  "signed_with env ps pem out \<longleftrightarrow>
     (\<exists>key unbound unsigned req. csr_load_privatekey (lib env) pem = Inr key \<and>
        csr_set_pubkey (lib env) unbound key = Inr unsigned \<and>
        csr_sign (lib env) unsigned key (c_digest ps) = Inr req \<and>
        out = dump_certificate_request (lib env) req)"

lemma request_signed:
  assumes "csr_main env ps f = (Exited res, g)" and "c_state ps = ''present''"
    and "\<not> c_check_mode ps" and "attrs_ok (fs_attrs env)" and "\<not> os_path_exists f (c_path ps)"
    and "c_privatekey_path ps = Some kp"
  shows "\<exists>pem out. contents f kp = Some pem \<and> contents g (c_path ps) = Some out \<and>
    signed_with env ps pem out"
proof -
  obtain c where "csr_generate env (csr_init ps) f = (Inr (), c, g)"
    using assms(1-3) by (rule csr_main_present)
  then show ?thesis
  proof (cases rule: csr_generate_cases)
    case (made c1 f1 d)
    from csr_make_frame(3) [OF made(3)] obtain req key where
      b: "csr_build env (csr_init ps) f = Inr (req, key)"
      and f1: "contents f1 = (contents f)(c_path ps \<mapsto> dump_certificate_request (lib env) req)"
      by auto
    from attrs_okD(1) [OF assms(4)] made(4) f1
    have out: "contents g (c_path ps) = Some (dump_certificate_request (lib env) req)" by simp
    have init: "csr_privatekey_path (csr_init ps) = Some kp" "csr_digest (csr_init ps) = c_digest ps"
      using assms(6) by (simp_all add: csr_init_def)
    from b obtain r2 r3 pem where k: "csr_read_key env (csr_init ps) f = Inr pem"
      "csr_load_privatekey (lib env) pem = Inr key" "csr_set_pubkey (lib env) r2 key = Inr r3"
      "csr_sign (lib env) r3 key (c_digest ps) = Inr req"
      by (auto simp: csr_build_def ebind_Inr_iff init)
    from k(1) have "contents f kp = Some pem"
      by (auto simp: csr_read_key_def init read_file_def contents_def
          split: option.splits node.splits sum.splits)
    with out k(2-4) show ?thesis by (auto simp: signed_with_def)
  qed (use assms(5) in auto)
qed

section \<open>Properties of plays\<close>

text \<open>C23: No sequence of tasks of the two modules that neither force nor remove, in check mode or not,
  and ending well or not, ever changes the contents of a file that exists.\<close>

theorem gentle_plays_keep_files:
  assumes "plays kenv cenv gentle f g" and "attrs_ok (fs_attrs kenv)" and "attrs_ok (fs_attrs cenv)"
    and "contents f p = Some c"
  shows "contents g p = Some c"
  by (rule plays_keep [OF assms])

text \<open>C27: A key made by one task and a request made for it by a later one: whatever gentle tasks run
  between and after them, the key file is the one of the first task, the request in the end is the
  one signed with that key.\<close>

theorem request_signed_with_key:
  assumes "attrs_ok (fs_attrs kenv)" and "attrs_ok (fs_attrs cenv)"
    and key: "pk_main kenv kp f0 = (Exited made, f1)" "p_state kp = ''present''" "\<not> p_check_mode kp"
    and between: "plays kenv cenv gentle f1 f2"
    and request: "csr_main cenv cp f2 = (Exited asked, f3)" "c_state cp = ''present''"
      "\<not> c_check_mode cp" "\<not> os_path_exists f2 (c_path cp)"
      "c_privatekey_path cp = Some (p_path kp)" "\<not> c_force cp"
    and after: "plays kenv cenv gentle f3 f4"
  shows "\<exists>pem out. contents f1 (p_path kp) = Some pem \<and> contents f4 (p_path kp) = Some pem \<and>
    contents f4 (c_path cp) = Some out \<and> signed_with cenv cp pem out"
proof -
  note keep = plays_keep [OF _ assms(1,2)]
  obtain pem where pem: "contents f1 (p_path kp) = Some pem"
    using key_there [OF key assms(1)] by blast
  with keep [OF between] have f2: "contents f2 (p_path kp) = Some pem" by blast
  obtain out where out: "contents f3 (c_path cp) = Some out" "signed_with cenv cp pem out"
    using request_signed [OF request(1-3) assms(2) request(4,5)] f2 by auto
  have "task_step kenv cenv (RequestTask cp) f2 f3" using request(1) by (rule task_step.request)
  from task_step_keeps [OF this _ assms(1,2) f2] request(2,6)
  have "contents f3 (p_path kp) = Some pem" by simp
  with pem out keep [OF after] show ?thesis by blast
qed

section \<open>A play on a concrete machine\<close>

definition key_env :: "crypto_lib os_env" where
  "key_env = sample_env (\<lambda>op p. None)"

definition request_task :: csr_params where
  "request_task = csr_sample_params\<lparr>c_privatekey_path := Some ''/k/key.pem''\<rparr>"

lemma sample_attrs_ok: "attrs_ok (fs_attrs key_env)" "attrs_ok (fs_attrs csr_sample_env)"
  using same_attrs_ok by (simp_all add: key_env_def sample_env_def csr_sample_env_def attrs_ok_def)

definition with_key :: fs where
  "with_key = sample_fs @ [(''/k/key.pem'', RegFile ''pem'' 384)]"

definition with_both :: fs where
  "with_both = with_key @ [(''/k/csr'', RegFile ''pem'' 420)]"

lemma sample_key_run:
  "case pk_main key_env sample_params sample_fs of (Exited r, g) \<Rightarrow> r_changed r \<and> g = with_key | _ \<Rightarrow> False"
  by code_simp

lemma sample_request_run:
  "case csr_main csr_sample_env request_task with_key of
     (Exited r, g) \<Rightarrow> cr_changed r \<and> g = with_both | _ \<Rightarrow> False"
  by code_simp

lemma sample_gentle: "gentle (KeyTask sample_params)" "gentle (RequestTask request_task)"
  by (simp_all add: sample_params_def request_task_def csr_sample_params_def)

lemma sample_plays:
  "plays key_env csr_sample_env gentle with_key with_both"
proof -
  obtain r where "csr_main csr_sample_env request_task with_key = (Exited r, with_both)"
    using sample_request_run by (auto split: prod.splits file_outcome.splits)
  then have "task_step key_env csr_sample_env (RequestTask request_task) with_key with_both"
    by (rule task_step.request)
  with plays.no_task sample_gentle(2) show ?thesis by (rule plays.task)
qed

theorem gentle_plays_keep_files_witness:
  "plays key_env csr_sample_env gentle with_key with_both \<and>
   contents with_both ''/k/key.pem'' = Some ''pem''"
  using gentle_plays_keep_files [OF sample_plays sample_attrs_ok, of "''/k/key.pem''" "''pem''"] sample_plays
  by (simp add: with_key_def sample_fs_def contents_def)

theorem request_signed_with_key_witness:
  "\<exists>made asked out. pk_main key_env sample_params sample_fs = (Exited made, with_key) \<and>
     csr_main csr_sample_env request_task with_key = (Exited asked, with_both) \<and>
     contents with_both ''/k/csr'' = Some out \<and> signed_with csr_sample_env request_task ''pem'' out"
proof -
  obtain made where key: "pk_main key_env sample_params sample_fs = (Exited made, with_key)"
    using sample_key_run by (auto split: prod.splits file_outcome.splits)
  obtain asked where request: "csr_main csr_sample_env request_task with_key = (Exited asked, with_both)"
    using sample_request_run by (auto split: prod.splits file_outcome.splits)
  have "\<exists>pem out. contents with_key (p_path sample_params) = Some pem \<and>
    contents with_both (p_path sample_params) = Some pem \<and>
    contents with_both (c_path request_task) = Some out \<and> signed_with csr_sample_env request_task pem out"
    by (rule request_signed_with_key [OF sample_attrs_ok key _ _ plays.no_task request _ _ _ _ _ plays.no_task])
      (simp_all add: sample_params_def request_task_def csr_sample_params_def with_key_def sample_fs_def
        os_path_exists_def)
  with key request show ?thesis
    by (auto simp: request_task_def csr_sample_params_def sample_params_def with_key_def contents_def
        sample_fs_def)
qed

end
