(* ===== verification/Docker_Network.thy ===== *)
theory Docker_Network
  imports Ansible
begin

text \<open>
  \<open>lib/modules/docker_network.py\<close>. The Docker client is code outside the repository: the record
  \<open>docker_client\<close> holds the calls the module makes on it, over a daemon state \<open>'w\<close> the model
  does not look into; queries read it, the other calls may change it, and each may raise.
\<close>

section \<open>Client and parameters\<close>

record 'w docker_client =
  networks :: "string \<Rightarrow> string \<Rightarrow> 'w \<Rightarrow> exit + pydict list"
  inspect_network :: "pyval \<Rightarrow> 'w \<Rightarrow> exit + pydict"
  IPAMPool :: "pydict \<Rightarrow> exit + pyval"
  IPAMConfig :: "pyval \<Rightarrow> pyval list \<Rightarrow> pyval"
  create_net :: "string \<Rightarrow> pydict \<Rightarrow> 'w \<Rightarrow> (exit + pydict) \<times> 'w"
  remove_net :: "string \<Rightarrow> 'w \<Rightarrow> (exit + unit) \<times> 'w"
  connect_container :: "pyval \<Rightarrow> string \<Rightarrow> 'w \<Rightarrow> (exit + unit) \<times> 'w"
  disconnect_container :: "pyval \<Rightarrow> string \<Rightarrow> 'w \<Rightarrow> (exit + unit) \<times> 'w"

record task_parameters =
  network_name :: string
  connected :: "pyval list"
  dn_state :: string
  driver :: string
  driver_options :: pydict
  dn_force :: bool
  appends :: bool
  ipam_driver :: pyval
  ipam_options :: pydict
  ipv6 :: bool
  debug :: bool

text \<open>
  The manager object. \<open>None\<close> for \<open>existing_network\<close> is Python's; \<open>diff_flag\<close> is
  \<open>module._diff\<close>. Of \<open>results\<close>: \<open>actions\<close> is \<open>None\<close> once it was popped, \<open>res_diff\<close>
  and \<open>facts\<close> until they are stored.
\<close>

record manager =
  parameters :: task_parameters
  dn_check_mode :: bool
  diff_flag :: bool
  existing_network :: "pydict option"
  res_changed :: bool
  actions :: "string list option"
  res_diff :: "string list option"
  facts :: "pydict option option"

type_synonym 'w step = "manager \<Rightarrow> 'w \<Rightarrow> (exit + unit) \<times> manager \<times> 'w"

definition andthen :: "'w step \<Rightarrow> 'w step \<Rightarrow> 'w step" where
  "andthen m k s w =
     (case m s w of (Inl x, s', w') \<Rightarrow> (Inl x, s', w') | (Inr _, s', w') \<Rightarrow> k s' w')"

fun for_each :: "('a \<Rightarrow> 'w step) \<Rightarrow> 'a list \<Rightarrow> 'w step" where
  "for_each f [] s w = (Inr (), s, w)"
| "for_each f (x # xs) s w = andthen (f x) (for_each f xs) s w"

section \<open>Reading a network\<close>

definition container_name :: "pyval \<Rightarrow> exit + pyval" where
  "container_name c = py_index c ''Name''"

text \<open>\<open>containers.values()\<close>, none where there are no containers.\<close>

definition container_values :: "pyval \<Rightarrow> exit + pyval list" where
  "container_values cs =
     (if py_truth cs then
        (case cs of
           PDict d \<Rightarrow> Inr (map snd d)
         | _ \<Rightarrow> Inl (Raise (AttributeError ''object has no attribute values'')))
      else Inr [])"

definition container_names_in_network :: "pydict option \<Rightarrow> exit + pyval list" where
  "container_names_in_network network =
     (case network of
        None \<Rightarrow> Inl (Raise (TypeError ''NoneType object has no attribute __getitem__''))
      | Some net \<Rightarrow> ebind (dindex net ''Containers'') (\<lambda>cs.
                      ebind (container_values cs) (emap container_name)))"

text \<open>\<open>if self.existing_network\<close>: neither \<open>None\<close> nor empty.\<close>

fun is_there :: "pydict option \<Rightarrow> bool" where
  "is_there None = False"
| "is_there (Some net) = (net \<noteq> [])"

definition get_existing_network ::
  "'w docker_client \<Rightarrow> string \<Rightarrow> 'w \<Rightarrow> exit + pydict option" where
  "get_existing_network cl nm w =
     ebind (networks cl ''names'' nm w) (\<lambda>ns.
     ebind (if ns = [] then networks cl ''ids'' nm w else Inr ns) (\<lambda>ns.
       Inr (case ns of [] \<Rightarrow> None | n # _ \<Rightarrow> Some n)))"

section \<open>Differences\<close>

definition driver_differences :: "task_parameters \<Rightarrow> pydict \<Rightarrow> exit + string list" where
  "driver_differences p net =
     (if driver p = [] then Inr []
      else ebind (dindex net ''Driver'') (\<lambda>v.
             Inr (if py_eq (PStr (driver p)) v then [] else [''driver''])))"

definition option_difference :: "pyval \<Rightarrow> string \<times> pyval \<Rightarrow> exit + string list" where
  "option_difference opts kv =
     ebind (py_in (PStr (fst kv)) opts) (\<lambda>there.
       if \<not> there then Inr [''driver_options.'' @ fst kv]
       else ebind (py_index opts (fst kv)) (\<lambda>v.
              Inr (if py_eq (snd kv) v then [] else [''driver_options.'' @ fst kv])))"

definition driver_option_differences :: "task_parameters \<Rightarrow> pydict \<Rightarrow> exit + string list" where
  "driver_option_differences p net =
     (if driver_options p = [] then Inr []
      else if \<not> py_truth (dget net ''Options'' PNone) then Inr [''driver_options'']
      else ebind (emap (option_difference (dget net ''Options'' PNone)) (driver_options p))
             (\<lambda>ds. Inr (concat ds)))"

definition ipam_driver_differences :: "task_parameters \<Rightarrow> pydict \<Rightarrow> exit + string list" where
  "ipam_driver_differences p net =
     (if \<not> py_truth (ipam_driver p) then Inr []
      else
        let ipam = dget net ''IPAM'' PNone in
        if \<not> py_truth ipam then Inr [''ipam_driver'']
        else ebind (py_index ipam ''Driver'') (\<lambda>v.
               Inr (if py_eq v (ipam_driver p) then [] else [''ipam_driver''])))"

text \<open>The first key of the network's configuration that is the option's name in lower case.\<close>

definition camel_key :: "pydict \<Rightarrow> string \<Rightarrow> string option" where
  "camel_key config key = find (\<lambda>net_key. key = lower net_key) (dkeys config)"

definition ipam_option_difference :: "pydict \<Rightarrow> string \<times> pyval \<Rightarrow> string list" where
  "ipam_option_difference config kv =
     (let diff = [''ipam_options.'' @ fst kv] in
      case camel_key config (fst kv) of
        None \<Rightarrow> diff
      | Some ck \<Rightarrow> if ck = [] then diff
                   else if py_eq (dget config ck PNone) (snd kv) then [] else diff)"

text \<open>\<open>net['IPAM']['Config'][0]\<close>, the first address pool.\<close>

fun first_pool :: "pyval \<Rightarrow> exit + pydict" where
  "first_pool (PList (PDict d # _)) = Inr d"
| "first_pool _ = Inl (Raise (OutOfModel ''IPAM configuration that is no list of dictionaries''))"

definition ipam_option_differences :: "task_parameters \<Rightarrow> pydict \<Rightarrow> exit + string list" where
  "ipam_option_differences p net =
     (if ipam_options p = [] then Inr []
      else
        let ipam = dget net ''IPAM'' PNone in
        if \<not> py_truth ipam then Inr [''ipam_options'']
        else ebind (py_get ipam ''Config'' PNone) (\<lambda>config.
          if \<not> py_truth config then Inr [''ipam_options'']
          else ebind (first_pool config) (\<lambda>pool.
                 Inr (concat (map (ipam_option_difference pool) (ipam_options p))))))"

definition ipv6_differences :: "task_parameters \<Rightarrow> pydict \<Rightarrow> exit + string list" where
  "ipv6_differences p net =
     (if \<not> ipv6 p then Inr []
      else ebind (dindex net ''EnableIPv6'') (\<lambda>v.
             Inr (if py_eq (PBool True) v then [] else [''ipv6''])))"

definition has_different_config :: "task_parameters \<Rightarrow> pydict \<Rightarrow> exit + bool \<times> string list" where
  "has_different_config p net =
     ebind (driver_differences p net) (\<lambda>d1.
     ebind (driver_option_differences p net) (\<lambda>d2.
     ebind (ipam_driver_differences p net) (\<lambda>d3.
     ebind (ipam_option_differences p net) (\<lambda>d4.
     ebind (ipv6_differences p net) (\<lambda>d5.
       let differences = d1 @ d2 @ d3 @ d4 @ d5 in Inr (differences \<noteq> [], differences))))))"

section \<open>Actions\<close>

text \<open>\<open>self.results['actions'].append(...)\<close> with \<open>self.results['changed'] = True\<close>.\<close>

definition act :: "string \<Rightarrow> manager \<Rightarrow> manager" where
  "act a s = s\<lparr>actions := map_option (\<lambda>as. as @ [a]) (actions s), res_changed := True\<rparr>"

text \<open>A client call that is skipped in check mode, then its entry in \<open>actions\<close>.\<close>

definition effect :: "('w \<Rightarrow> (exit + unit) \<times> 'w) \<Rightarrow> exit + string \<Rightarrow> 'w step" where
  "effect call a s w =
     (case (if dn_check_mode s then (Inr (), w) else call w) of
        (Inl x, w') \<Rightarrow> (Inl x, s, w')
      | (Inr _, w') \<Rightarrow>
          (case a of Inl x \<Rightarrow> (Inl x, s, w') | Inr t \<Rightarrow> (Inr (), act t s, w')))"

definition message :: "string \<Rightarrow> pyval \<Rightarrow> exit + string" where
  "message verb c = ebind (fmt_s c) (\<lambda>t. Inr (verb @ '' container '' @ t))"

definition disconnect_one :: "'w docker_client \<Rightarrow> pyval \<Rightarrow> 'w step" where
  "disconnect_one cl c s w =
     effect (disconnect_container cl c (network_name (parameters s))) (message ''Disconnected'' c) s w"

text \<open>The loops over the containers: \<open>keep\<close> are the names that stay.\<close>

definition disconnect_value :: "'w docker_client \<Rightarrow> pyval list \<Rightarrow> pyval \<Rightarrow> 'w step" where
  "disconnect_value cl keep c s w =
     (case container_name c of
        Inl x \<Rightarrow> (Inl x, s, w)
      | Inr name \<Rightarrow> if py_mem name keep then (Inr (), s, w) else disconnect_one cl name s w)"

definition disconnect_all_containers :: "'w docker_client \<Rightarrow> 'w step" where
  "disconnect_all_containers cl s w =
     (case ebind (inspect_network cl (PStr (network_name (parameters s))) w)
             (\<lambda>net. ebind (dindex net ''Containers'') container_values) of
        Inl x \<Rightarrow> (Inl x, s, w)
      | Inr cs \<Rightarrow> for_each (disconnect_value cl []) cs s w)"

definition remove_network :: "'w docker_client \<Rightarrow> 'w step" where
  "remove_network cl s w =
     (if is_there (existing_network s) then
        andthen (disconnect_all_containers cl)
          (\<lambda>s. effect (remove_net cl (network_name (parameters s)))
                 (Inr (''Removed network '' @ network_name (parameters s))) s) s w
      else (Inr (), s, w))"

definition ipam_config :: "'w docker_client \<Rightarrow> task_parameters \<Rightarrow> exit + pyval" where
  "ipam_config cl p =
     ebind (if ipam_options p = [] then Inr []
            else ebind (IPAMPool cl (ipam_options p)) (\<lambda>pool. Inr [pool]))
       (\<lambda>pools. Inr (IPAMConfig cl (ipam_driver p) pools))"

definition create_network :: "'w docker_client \<Rightarrow> 'w step" where
  "create_network cl s w =
     (if is_there (existing_network s) then (Inr (), s, w)
      else
        let p = parameters s;
            a = ''Created network '' @ network_name p @ '' with driver '' @ driver p in
        case ipam_config cl p of
          Inl x \<Rightarrow> (Inl x, s, w)
        | Inr ipam \<Rightarrow>
            if dn_check_mode s then (Inr (), act a s, w)
            else
              (case create_net cl (network_name p)
                      [(''driver'', PStr (driver p)), (''options'', PDict (driver_options p)),
                       (''ipam'', ipam), (''enable_ipv6'', PBool (ipv6 p))] w of
                 (Inl x, w') \<Rightarrow> (Inl x, s, w')
               | (Inr resp, w') \<Rightarrow>
                   (case ebind (dindex resp ''Id'') (\<lambda>i. inspect_network cl i w') of
                      Inl x \<Rightarrow> (Inl x, s, w')
                    | Inr net \<Rightarrow> (Inr (), act a (s\<lparr>existing_network := Some net\<rparr>), w'))))"

definition is_container_connected :: "manager \<Rightarrow> pyval \<Rightarrow> exit + bool" where
  "is_container_connected s c =
     ebind (container_names_in_network (existing_network s)) (\<lambda>names. Inr (py_mem c names))"

definition connect_one :: "'w docker_client \<Rightarrow> pyval \<Rightarrow> 'w step" where
  "connect_one cl c s w =
     (case is_container_connected s c of
        Inl x \<Rightarrow> (Inl x, s, w)
      | Inr True \<Rightarrow> (Inr (), s, w)
      | Inr False \<Rightarrow>
          effect (connect_container cl c (network_name (parameters s))) (message ''Connected'' c) s w)"

definition connect_containers :: "'w docker_client \<Rightarrow> 'w step" where
  "connect_containers cl s w = for_each (connect_one cl) (connected (parameters s)) s w"

definition disconnect_missing :: "'w docker_client \<Rightarrow> 'w step" where
  "disconnect_missing cl s w =
     (case existing_network s of
        None \<Rightarrow> (Inr (), s, w)
      | Some net \<Rightarrow>
          if net = [] then (Inr (), s, w)
          else case ebind (dindex net ''Containers'') container_values of
                 Inl x \<Rightarrow> (Inl x, s, w)
               | Inr cs \<Rightarrow> for_each (disconnect_value cl (connected (parameters s))) cs s w)"

section \<open>States\<close>

definition finish_present :: "'w docker_client \<Rightarrow> string list \<Rightarrow> 'w step" where
  "finish_present cl differences s w =
     (let s1 = (if diff_flag s \<or> dn_check_mode s \<or> debug (parameters s)
                then s\<lparr>res_diff := Some differences\<rparr> else s);
          s2 = (if \<not> dn_check_mode s \<and> \<not> debug (parameters s) then s1\<lparr>actions := None\<rparr> else s1) in
      case get_existing_network cl (network_name (parameters s)) w of
        Inl x \<Rightarrow> (Inl x, s2, w)
      | Inr net \<Rightarrow> (Inr (), s2\<lparr>facts := Some net\<rparr>, w))"

definition make_network :: "'w docker_client \<Rightarrow> 'w step" where
  "make_network cl =
     andthen (create_network cl)
       (andthen (connect_containers cl)
          (\<lambda>s. if appends (parameters s) then (\<lambda>w. (Inr (), s, w)) else disconnect_missing cl s))"

text \<open>Forced or different: the network is removed and forgotten first.\<close>

definition clear_network :: "'w docker_client \<Rightarrow> bool \<Rightarrow> 'w step" where
  "clear_network cl b s w =
     (if b then andthen (remove_network cl) (\<lambda>s w. (Inr (), s\<lparr>existing_network := None\<rparr>, w)) s w
      else (Inr (), s, w))"

definition present :: "'w docker_client \<Rightarrow> 'w step" where
  "present cl s w =
     (case (if is_there (existing_network s)
            then has_different_config (parameters s) (the (existing_network s))
            else Inr (False, [])) of
        Inl x \<Rightarrow> (Inl x, s, w)
      | Inr (different, differences) \<Rightarrow>
          andthen (clear_network cl (dn_force (parameters s) \<or> different))
            (andthen (make_network cl) (finish_present cl differences)) s w)"

definition absent :: "'w docker_client \<Rightarrow> 'w step" where
  "absent cl = remove_network cl"

definition new_manager :: "task_parameters \<Rightarrow> bool \<Rightarrow> bool \<Rightarrow> manager" where
  "new_manager p cm df =
     \<lparr>parameters = p, dn_check_mode = cm, diff_flag = df, existing_network = None,
      res_changed = False, actions = Some [], res_diff = None, facts = None\<rparr>"

text \<open>An empty \<open>connected\<close> list is replaced by the containers of the existing network.\<close>

definition default_connected :: "manager \<Rightarrow> exit + manager" where
  "default_connected s =
     (if connected (parameters s) = [] \<and> is_there (existing_network s)
      then ebind (container_names_in_network (existing_network s)) (\<lambda>names.
             Inr (s\<lparr>parameters := (parameters s)\<lparr>connected := names\<rparr>\<rparr>))
      else Inr s)"

definition DockerNetworkManager ::
  "'w docker_client \<Rightarrow> task_parameters \<Rightarrow> bool \<Rightarrow> bool \<Rightarrow> 'w \<Rightarrow> (exit + unit) \<times> manager \<times> 'w" where
  "DockerNetworkManager cl p cm df w =
     (let s0 = new_manager p cm df in
      case ebind (get_existing_network cl (network_name p) w)
             (\<lambda>net. default_connected (s0\<lparr>existing_network := net\<rparr>)) of
        Inl x \<Rightarrow> (Inl x, s0, w)
      | Inr s \<Rightarrow>
          if dn_state p = ''present'' then present cl s w
          else if dn_state p = ''absent'' then absent cl s w
          else (Inr (), s, w))"

text \<open>The arguments of the module, read into the record, and the run from the start.\<close>

definition docker_argument_spec :: "(string \<times> argspec) list" where
  "docker_argument_spec =
     [(''network_name'', with_aliases [''name''] (kwarg ''str'' True)),
      (''connected'', with_default (PList []) (with_aliases [''containers''] (kwarg ''list'' False))),
      (''state'', with_default (PStr ''present'') (with_choices [''present'', ''absent''] (kwarg ''str'' False))),
      (''driver'', with_default (PStr ''bridge'') (kwarg ''str'' False)),
      (''driver_options'', with_default (PDict []) (kwarg ''dict'' False)),
      (''force'', with_default (PBool False) (kwarg ''bool'' False)),
      (''appends'', with_default (PBool False) (with_aliases [''incremental''] (kwarg ''bool'' False))),
      (''ipam_driver'', with_default PNone (kwarg ''str'' False)),
      (''ipam_options'', with_default (PDict []) (kwarg ''dict'' False)),
      (''ipv6'', with_default (PBool False) (kwarg ''bool'' False)),
      (''debug'', with_default (PBool False) (kwarg ''bool'' False))]"

definition docker_params_of :: "pydict \<Rightarrow> exit + task_parameters" where
  "docker_params_of ps =
     ebind (str_param ps ''network_name'') (\<lambda>nm.
     ebind (list_param ps ''connected'') (\<lambda>cs.
     ebind (str_param ps ''state'') (\<lambda>st.
     ebind (str_param ps ''driver'') (\<lambda>dr.
     ebind (dict_param ps ''driver_options'') (\<lambda>dro.
     ebind (bool_param ps ''force'') (\<lambda>fo.
     ebind (bool_param ps ''appends'') (\<lambda>ap.
     ebind (dindex ps ''ipam_driver'') (\<lambda>idr.
     ebind (dict_param ps ''ipam_options'') (\<lambda>ido.
     ebind (bool_param ps ''ipv6'') (\<lambda>v6.
     ebind (bool_param ps ''debug'') (\<lambda>db.
       Inr \<lparr>network_name = nm, connected = cs, dn_state = st, driver = dr, driver_options = dro,
            dn_force = fo, appends = ap, ipam_driver = idr, ipam_options = ido, ipv6 = v6,
            debug = db\<rparr>)))))))))))"

text \<open>What \<open>exit_json\<close> is given.\<close>

definition docker_results :: "manager \<Rightarrow> pydict" where
  "docker_results s =
     (''changed'', PBool (res_changed s)) #
     (case actions s of Some as \<Rightarrow> [(''actions'', PList (map PStr as))] | None \<Rightarrow> []) @
     (case res_diff s of Some ds \<Rightarrow> [(''diff'', PList (map PStr ds))] | None \<Rightarrow> []) @
     (case facts s of
        Some net \<Rightarrow> [(''ansible_facts'', PDict [(''docker_network'',
                       case net of Some n \<Rightarrow> PDict n | None \<Rightarrow> PNone)])]
      | None \<Rightarrow> [])"

text \<open>\<open>AnsibleDockerClient\<close> sets up the module; \<open>df\<close> is \<open>module._diff\<close>.\<close>

definition docker_main ::
  "ansible_module \<Rightarrow> bool \<Rightarrow> 'w docker_client \<Rightarrow> 'w \<Rightarrow> (exit + pydict) \<times> 'w" where
  "docker_main am df cl w =
     (case ebind (am docker_argument_spec) (\<lambda>(ps, check_mode).
             ebind (docker_params_of ps) (\<lambda>p. Inr (p, check_mode))) of
        Inl x \<Rightarrow> (Inl x, w)
      | Inr (p, check_mode) \<Rightarrow>
          (case DockerNetworkManager cl p check_mode df w of
             (Inl x, _, w') \<Rightarrow> (Inl x, w')
           | (Inr _, s, w') \<Rightarrow> (Inr (docker_results s), w')))"

section \<open>Relations every step respects\<close>

text \<open>
  The interface between the manager and a property of its runs: a reflexive and transitive
  relation between the states before and after that recording an action, replacing the network
  and storing results respect, and that a client call respects outside check mode. The manager
  respects every such relation.
\<close>

locale step_relation =
  fixes R :: "manager \<Rightarrow> 'w \<Rightarrow> manager \<Rightarrow> 'w \<Rightarrow> bool"
  assumes refl: "R s w s w"
    and trans: "R s w s1 w1 \<Longrightarrow> R s1 w1 s2 w2 \<Longrightarrow> R s w s2 w2"
    and called: "\<not> dn_check_mode s \<Longrightarrow> R s w s w'"
    and acted: "R s w (act a s) w"
    and network: "R s w (s\<lparr>existing_network := n\<rparr>) w"
    and stored: "R s w (s\<lparr>res_diff := d\<rparr>) w" "R s w (s\<lparr>actions := None\<rparr>) w"
      "R s w (s\<lparr>facts := e\<rparr>) w"
begin

definition obeys :: "'w step \<Rightarrow> bool" where
  "obeys m \<longleftrightarrow> (\<forall>s w r s' w'. m s w = (r, s', w') \<longrightarrow> R s w s' w')"

lemma obeysI: "(\<And>s w r s' w'. m s w = (r, s', w') \<Longrightarrow> R s w s' w') \<Longrightarrow> obeys m"
  by (simp add: obeys_def)

lemma obeysD: "obeys m \<Longrightarrow> m s w = (r, s', w') \<Longrightarrow> R s w s' w'"
  by (simp add: obeys_def)

lemma obeys_andthen:
  assumes "obeys m" and "obeys k"
  shows "obeys (andthen m k)"
proof (rule obeysI)
  fix s w r s' w' assume "andthen m k s w = (r, s', w')"
  then obtain r1 s1 w1 where m: "m s w = (r1, s1, w1)"
    and k: "(\<exists>x. r1 = Inl x \<and> s' = s1 \<and> w' = w1) \<or> k s1 w1 = (r, s', w')"
    by (cases "m s w") (auto simp: andthen_def split: sum.splits)
  from obeysD [OF assms(1) m] k obeysD [OF assms(2)] show "R s w s' w'"
    by (auto intro: trans)
qed

lemma obeys_for_each: "(\<And>x. obeys (f x)) \<Longrightarrow> obeys (for_each f xs)"
proof (induction xs)
  case Nil
  then show ?case by (auto intro: obeysI refl)
next
  case (Cons x xs)
  then have "obeys (andthen (f x) (for_each f xs))" by (blast intro: obeys_andthen)
  then show ?case by (simp add: obeys_def)
qed

lemma obeys_effect: "obeys (effect call a)"
proof (rule obeysI)
  fix s w r s' w' assume e: "effect call a s w = (r, s', w')"
  obtain u w1 where c: "(if dn_check_mode s then (Inr (), w) else call w) = (u, w1)"
    by fastforce
  then have "R s w s w1"
    by (cases "dn_check_mode s") (auto intro: refl called)
  moreover have "R s w1 s' w'"
    using e c by (auto simp: effect_def intro: refl acted split: sum.splits)
  ultimately show "R s w s' w'" by (rule trans)
qed

lemma obeys_const: "R s w s w" by (rule refl)

lemma obeys_disconnect_one: "obeys (disconnect_one cl c)"
  by (rule obeysI) (auto simp: disconnect_one_def dest: obeysD [OF obeys_effect])

lemma obeys_disconnect_value: "obeys (disconnect_value cl keep c)"
  by (rule obeysI)
    (auto simp: disconnect_value_def refl split: sum.splits if_splits
      dest: obeysD [OF obeys_disconnect_one])

lemma obeys_disconnect_all: "obeys (disconnect_all_containers cl)"
  by (rule obeysI)
    (auto simp: disconnect_all_containers_def refl split: sum.splits
      dest: obeysD [OF obeys_for_each [OF obeys_disconnect_value]])

lemma obeys_remove: "obeys (remove_network cl)"
proof (rule obeysI)
  fix s w r s' w' assume "remove_network cl s w = (r, s', w')"
  moreover have "obeys (\<lambda>s. effect (remove_net cl (network_name (parameters s)))
      (Inr (''Removed network '' @ network_name (parameters s))) s)"
    by (rule obeysI) (rule obeysD [OF obeys_effect])
  ultimately show "R s w s' w'"
    using obeys_andthen [OF obeys_disconnect_all]
    by (auto simp: remove_network_def refl dest: obeysD split: if_splits)
qed

lemma replaced: "\<not> dn_check_mode s \<Longrightarrow> R s w (act a (s\<lparr>existing_network := n\<rparr>)) w'"
  by (rule trans [OF called trans [OF network acted]])

lemma obeys_create: "obeys (create_network cl)"
proof (rule obeysI)
  fix s w r s' w' assume c: "create_network cl s w = (r, s', w')"
  show "R s w s' w'"
  proof (cases "dn_check_mode s")
    case True
    with c show ?thesis
      by (auto simp: create_network_def Let_def refl acted split: if_splits sum.splits)
  next
    case False
    from c False show ?thesis
      by (auto simp: create_network_def Let_def refl called replaced
          split: if_splits sum.splits prod.splits)
  qed
qed

lemma obeys_connect: "obeys (connect_containers cl)"
proof -
  have "obeys (connect_one cl c)" for c
    by (rule obeysI)
      (auto simp: connect_one_def refl split: sum.splits bool.splits
        dest: obeysD [OF obeys_effect])
  from obeysD [OF obeys_for_each [where f = "connect_one cl", OF this]] show ?thesis
    by (intro obeysI) (simp add: connect_containers_def)
qed

lemma obeys_disconnect_missing: "obeys (disconnect_missing cl)"
  by (rule obeysI)
    (auto simp: disconnect_missing_def refl split: sum.splits option.splits if_splits
      dest: obeysD [OF obeys_for_each [OF obeys_disconnect_value]])

lemma obeys_make: "obeys (make_network cl)"
  unfolding make_network_def
proof (intro obeys_andthen obeys_create obeys_connect obeysI)
  fix s w r s' w'
  assume "(if appends (parameters s) then \<lambda>w. (Inr (), s, w) else disconnect_missing cl s) w =
    (r, s', w')"
  then show "R s w s' w'"
    by (auto simp: refl dest: obeysD [OF obeys_disconnect_missing] split: if_splits)
qed

lemma obeys_finish: "obeys (finish_present cl ds)"
proof (rule obeysI)
  fix s w r s' w' assume f: "finish_present cl ds s w = (r, s', w')"
  define s1 where "s1 = (if diff_flag s \<or> dn_check_mode s \<or> debug (parameters s)
      then s\<lparr>res_diff := Some ds\<rparr> else s)"
  define s2 where "s2 = (if \<not> dn_check_mode s \<and> \<not> debug (parameters s)
      then s1\<lparr>actions := None\<rparr> else s1)"
  have 1: "R s w s1 w" by (auto simp: s1_def refl stored)
  have 2: "R s1 w s2 w" by (auto simp: s2_def refl stored)
  have "R s2 w s' w'"
    using f by (auto simp: finish_present_def Let_def s1_def [symmetric] s2_def [symmetric]
        refl stored split: sum.splits)
  with trans [OF 1 2] show "R s w s' w'" by (rule trans)
qed

lemma obeys_clear: "obeys (clear_network cl b)"
proof -
  have "obeys (\<lambda>s w. (Inr (), s\<lparr>existing_network := None\<rparr>, w))"
    by (rule obeysI) (auto intro: network)
  from obeysD [OF obeys_andthen [OF obeys_remove this]] show ?thesis
    by (intro obeysI) (auto simp: clear_network_def refl split: if_splits)
qed

lemma obeys_present: "obeys (present cl)"
proof (rule obeysI)
  fix s w r s' w' assume p: "present cl s w = (r, s', w')"
  have "obeys (andthen (clear_network cl b) (andthen (make_network cl) (finish_present cl ds)))"
    for b ds by (intro obeys_andthen obeys_clear obeys_make obeys_finish)
  from p obeysD [OF this] show "R s w s' w'"
    by (auto simp: present_def refl split: sum.splits prod.splits)
qed

end

text \<open>For a whole run, which fills in the containers of the task, the relation respects that too.\<close>

locale run_relation = step_relation +
  assumes params: "R s w (s\<lparr>parameters := p\<rparr>) w"
begin

lemma manager_related:
  assumes "DockerNetworkManager cl p cm df w = (r, s', w')"
  shows "R (new_manager p cm df) w s' w'"
proof (cases "ebind (get_existing_network cl (network_name p) w)
    (\<lambda>net. default_connected (new_manager p cm df\<lparr>existing_network := net\<rparr>))")
  case (Inl x)
  with assms show ?thesis by (simp add: DockerNetworkManager_def Let_def refl)
next
  case (Inr s)
  then obtain net where "default_connected (new_manager p cm df\<lparr>existing_network := net\<rparr>) = Inr s"
    by (auto simp: err_simps)
  then have "R (new_manager p cm df) w s w"
    by (auto simp: default_connected_def err_simps intro: network trans [OF network params]
        split: if_splits)
  moreover have "R s w s' w'"
    using assms Inr obeysD [OF obeys_present] obeysD [OF obeys_remove]
    by (auto simp: DockerNetworkManager_def Let_def absent_def refl split: if_splits)
  ultimately show ?thesis by (rule trans)
qed

end

text \<open>In check mode the daemon is left alone.\<close>

interpretation check_mode_idle: run_relation
  "\<lambda>s w s' w'. dn_check_mode s' = dn_check_mode s \<and> (dn_check_mode s \<longrightarrow> w' = w)"
  by unfold_locales (auto simp: act_def)

text \<open>No step changes the task.\<close>

interpretation same_task: step_relation
  "\<lambda>s w s' w'. parameters s' = parameters s \<and> dn_check_mode s' = dn_check_mode s"
  by unfold_locales (auto simp: act_def)

text \<open>As long as the actions are there, the run is marked changed exactly when there are some.\<close>

definition consistent :: "manager \<Rightarrow> bool" where
  "consistent s \<longleftrightarrow>
     (case actions s of None \<Rightarrow> True | Some as \<Rightarrow> res_changed s \<longleftrightarrow> as \<noteq> [])"

interpretation action_log: run_relation "\<lambda>s w s' w'. consistent s \<longrightarrow> consistent s'"
  by unfold_locales (auto simp: consistent_def act_def split: option.splits)

section \<open>What a run does to the containers\<close>

definition act_all :: "string list \<Rightarrow> manager \<Rightarrow> manager" where
  "act_all as s = fold act as s"

lemma act_all_simps [simp]:
  "actions (act_all as s) = map_option (\<lambda>old. old @ as) (actions s)"
  "res_changed (act_all as s) = (res_changed s \<or> as \<noteq> [])"
  "dn_check_mode (act_all as s) = dn_check_mode s" "parameters (act_all as s) = parameters s"
  "existing_network (act_all as s) = existing_network s" "diff_flag (act_all as s) = diff_flag s"
  unfolding act_all_def
  by (induction as arbitrary: s) (auto simp: act_def option.map_comp comp_def option.map_ident)

lemma act_all_Cons: "act_all (a # as) s = act_all as (act a s)"
  by (simp add: act_all_def)

lemma act_all_Nil [simp]: "act_all [] s = s"
  by (simp add: act_all_def)

lemma act_all_append: "act_all (as @ bs) s = act_all bs (act_all as s)"
  by (simp add: act_all_def)

lemma py_mem_names [simp]: "py_mem (PStr c) (map PStr names) \<longleftrightarrow> c \<in> set names"
  by (auto simp: py_mem_PStr)

lemma act_frame [simp]:
  "dn_check_mode (act a s) = dn_check_mode s" "parameters (act a s) = parameters s"
  "existing_network (act a s) = existing_network s"
  by (simp_all add: act_def)

lemma connect_each:
  assumes "container_names_in_network (existing_network s) = Inr (map PStr names)"
    and "dn_check_mode s \<or> set wanted \<subseteq> set names"
  shows "for_each (connect_one cl) (map PStr wanted) s w =
    (Inr (), act_all (map ((@) ''Connected container '') (filter (\<lambda>c. c \<notin> set names) wanted)) s, w)"
  using assms
proof (induction wanted arbitrary: s)
  case (Cons c cs)
  show ?case
  proof (cases "c \<in> set names")
    case True
    then have "connect_one cl (PStr c) s w = (Inr (), s, w)"
      using Cons.prems(1)
      by (auto simp: connect_one_def is_container_connected_def)
    with True Cons show ?thesis by (simp add: andthen_def)
  next
    case False
    then have "connect_one cl (PStr c) s w = (Inr (), act (''Connected container '' @ c) s, w)"
      using Cons.prems
      by (auto simp: connect_one_def is_container_connected_def effect_def message_def)
    with False Cons.IH [of "act (''Connected container '' @ c) s"] Cons.prems show ?thesis
      by (simp add: andthen_def act_all_Cons)
  qed
qed simp

lemma disconnect_each:
  assumes "emap container_name vs = Inr (map PStr names)"
    and "dn_check_mode s \<or> set names \<subseteq> set keep"
  shows "for_each (disconnect_value cl (map PStr keep)) vs s w =
    (Inr (), act_all (map ((@) ''Disconnected container '') (filter (\<lambda>c. c \<notin> set keep) names)) s, w)"
  using assms
proof (induction vs arbitrary: names s)
  case (Cons v vs)
  then obtain c cs where n: "names = c # cs" "container_name v = Inr (PStr c)"
    "emap container_name vs = Inr (map PStr cs)"
    by (cases names) (auto simp: err_simps)
  show ?case
  proof (cases "c \<in> set keep")
    case True
    then have "disconnect_value cl (map PStr keep) v s w = (Inr (), s, w)"
      using n by (auto simp: disconnect_value_def)
    with True n Cons.IH [OF n(3), of s] Cons.prems show ?thesis by (auto simp: andthen_def)
  next
    case False
    then have "disconnect_value cl (map PStr keep) v s w =
        (Inr (), act (''Disconnected container '' @ c) s, w)"
      using n Cons.prems
      by (auto simp: disconnect_value_def disconnect_one_def effect_def message_def)
    with False n Cons.IH [OF n(3), of "act (''Disconnected container '' @ c) s"] Cons.prems
    show ?thesis by (auto simp: andthen_def act_all_Cons)
  qed
qed simp

lemma differences_connected:
  "driver_differences (p\<lparr>connected := c\<rparr>) net = driver_differences p net"
  "driver_option_differences (p\<lparr>connected := c\<rparr>) net = driver_option_differences p net"
  "ipam_driver_differences (p\<lparr>connected := c\<rparr>) net = ipam_driver_differences p net"
  "ipam_option_differences (p\<lparr>connected := c\<rparr>) net = ipam_option_differences p net"
  "ipv6_differences (p\<lparr>connected := c\<rparr>) net = ipv6_differences p net"
  by (simp_all add: driver_differences_def driver_option_differences_def
      ipam_driver_differences_def ipam_option_differences_def ipv6_differences_def Let_def
      cong: if_cong)

lemma has_different_config_connected:
  "has_different_config (p\<lparr>connected := c\<rparr>) net = has_different_config p net"
  unfolding has_different_config_def differences_connected by (rule refl)

text \<open>
  The containers a task asks for, and the plan for a network that is there and needs no
  rebuilding: connections in the order of the list, then disconnections.
\<close>

definition wanted_names :: "string list \<Rightarrow> string list \<Rightarrow> string list" where
  "wanted_names wanted names = (if wanted = [] then names else wanted)"

definition container_plan :: "bool \<Rightarrow> string list \<Rightarrow> string list \<Rightarrow> string list" where
  "container_plan keep_others wanted names =
     map ((@) ''Connected container '') (filter (\<lambda>c. c \<notin> set names) wanted) @
     (if keep_others then []
      else map ((@) ''Disconnected container '') (filter (\<lambda>n. n \<notin> set wanted) names))"

definition unchanged_network ::
  "'w docker_client \<Rightarrow> task_parameters \<Rightarrow> 'w \<Rightarrow> string list \<Rightarrow> bool" where
  "unchanged_network cl p w names \<longleftrightarrow>
     (\<exists>net cs vs. get_existing_network cl (network_name p) w = Inr (Some net) \<and> net \<noteq> [] \<and>
        has_different_config p net = Inr (False, []) \<and> \<not> dn_force p \<and>
        dindex net ''Containers'' = Inr cs \<and> container_values cs = Inr vs \<and>
        emap container_name vs = Inr (map PStr names))"

lemma present_plan:
  assumes net: "unchanged_network cl p w names" and "dn_state p = ''present''"
    and wanted: "connected p = map PStr wanted"
    and plan: "plan = container_plan (appends p) (wanted_names wanted names) names"
    and quiet: "cm \<or> plan = []"
  shows "\<exists>s'. DockerNetworkManager cl p cm df w = (Inr (), s', w) \<and>
    (res_changed s' \<longleftrightarrow> plan \<noteq> []) \<and> (cm \<longrightarrow> actions s' = Some plan)"
proof -
  from net obtain nw cs vs where g: "get_existing_network cl (network_name p) w = Inr (Some nw)"
    and nw: "nw \<noteq> []" and d: "has_different_config p nw = Inr (False, [])" and force: "\<not> dn_force p"
    and c: "dindex nw ''Containers'' = Inr cs" "container_values cs = Inr vs"
      "emap container_name vs = Inr (map PStr names)"
    unfolding unchanged_network_def by blast
  let ?goal = "wanted_names wanted names"
  define s where "s = new_manager (p\<lparr>connected := map PStr ?goal\<rparr>) cm df\<lparr>existing_network := Some nw\<rparr>"
  have names: "container_names_in_network (Some nw) = Inr (map PStr names)"
    using c by (simp add: container_names_in_network_def)
  have start: "default_connected (new_manager p cm df\<lparr>existing_network := Some nw\<rparr>) = Inr s"
    using wanted nw names
    by (auto simp: default_connected_def new_manager_def s_def wanted_names_def)
  have s [simp]: "parameters s = p\<lparr>connected := map PStr ?goal\<rparr>" "existing_network s = Some nw"
    "dn_check_mode s = cm" "actions s = Some []" "\<not> res_changed s"
    by (simp_all add: s_def new_manager_def)
  let ?s1 = "act_all (map ((@) ''Connected container '') (filter (\<lambda>c. c \<notin> set names) ?goal)) s"
  have on: "connect_containers cl s w = (Inr (), ?s1, w)"
    using connect_each [of s names ?goal cl w] names quiet plan
    by (auto simp: connect_containers_def container_plan_def filter_empty_conv subset_iff)
  have off: "(if appends p then (Inr (), ?s1, w) else disconnect_missing cl ?s1 w) =
      (Inr (), act_all plan s, w)"
  proof (cases "appends p")
    case False
    have "for_each (disconnect_value cl (map PStr ?goal)) vs ?s1 w = (Inr (),
        act_all (map ((@) ''Disconnected container '') (filter (\<lambda>c. c \<notin> set ?goal) names)) ?s1, w)"
      using disconnect_each [OF c(3), of ?s1 ?goal cl w] quiet plan False
      by (auto simp: container_plan_def filter_empty_conv subset_iff)
    with False c nw plan show ?thesis
      by (simp add: disconnect_missing_def container_plan_def act_all_append)
  qed (simp add: plan container_plan_def)
  have "create_network cl s w = (Inr (), s, w)"
    using nw by (simp add: create_network_def)
  with on off have make: "make_network cl s w = (Inr (), act_all plan s, w)"
    by (cases "appends p") (simp_all add: make_network_def andthen_def)
  have "present cl s w = finish_present cl [] (act_all plan s) w"
    using nw d force make
    by (simp add: present_def has_different_config_connected clear_network_def andthen_def)
  with g start assms(2) show ?thesis
    by (simp add: DockerNetworkManager_def Let_def finish_present_def)
qed

text \<open>C29: In check mode, for a network that is there and needs no rebuilding, the actions reported are
  the connections of the wanted containers that are missing, in the task's order, then (unless
  \<open>appends\<close>) the disconnections of the others, in the network's order; no list wanted means the
  containers that are there.\<close>

theorem docker_present_plan:
  assumes "unchanged_network cl p w names" and "dn_state p = ''present''"
    and "connected p = map PStr wanted"
  shows "\<exists>s'. DockerNetworkManager cl p True df w = (Inr (), s', w) \<and>
    actions s' = Some (container_plan (appends p) (wanted_names wanted names) names)"
  using present_plan [OF assms refl, of True df] by auto

text \<open>A network that already is what the task asks for is left alone and not reported changed.\<close>

theorem docker_in_sync:
  assumes "unchanged_network cl p w names" and "dn_state p = ''present''"
    and "connected p = map PStr wanted" and "set wanted \<subseteq> set names"
    and "appends p \<or> wanted = [] \<or> set names \<subseteq> set wanted"
  shows "\<exists>s'. DockerNetworkManager cl p cm df w = (Inr (), s', w) \<and> \<not> res_changed s'"
proof -
  have "container_plan (appends p) (wanted_names wanted names) names = []"
    using assms(4,5) by (auto simp: container_plan_def wanted_names_def filter_empty_conv)
  from present_plan [OF assms(1-3) refl, of cm df] this show ?thesis by auto
qed

text \<open>C31: In check mode the daemon's state is the same after the run, whatever the run does or
  raises.\<close>

theorem docker_check_mode:
  assumes "DockerNetworkManager cl p True df w = (r, s', w')"
  shows "w' = w"
  using check_mode_idle.manager_related [OF assms] by (simp add: new_manager_def)

text \<open>As long as the actions are in the result, it says changed exactly when there is one.\<close>

theorem docker_changed_iff_actions:
  assumes "DockerNetworkManager cl p cm df w = (r, s', w')"
  shows "consistent s'"
  using action_log.manager_related [OF assms] by (simp add: new_manager_def consistent_def)

lemma docker_absent_missing:
  assumes "get_existing_network cl (network_name p) w = Inr None" and "dn_state p = ''absent''"
  shows "\<exists>s'. DockerNetworkManager cl p cm df w = (Inr (), s', w) \<and> \<not> res_changed s'"
  using assms
  by (simp add: DockerNetworkManager_def Let_def default_connected_def new_manager_def absent_def
      remove_network_def)

text \<open>C32: In check mode, a task that connects containers to a network that does not exist yet always
  ends in a \<open>TypeError\<close>: nothing was created, and the containers of no network are looked up.\<close>

theorem docker_check_mode_new_network:
  assumes "get_existing_network cl (network_name p) w = Inr None" and "dn_state p = ''present''"
    and "connected p = c # cs" and "ipam_config cl p = Inr ipam"
  shows "\<exists>s'. DockerNetworkManager cl p True df w =
    (Inl (Raise (TypeError ''NoneType object has no attribute __getitem__'')), s', w)"
  using assms
  by (simp add: DockerNetworkManager_def Let_def default_connected_def new_manager_def present_def
      andthen_def clear_network_def make_network_def create_network_def connect_containers_def
      connect_one_def is_container_connected_def container_names_in_network_def remove_network_def
      act_def)

section \<open>Configuration differences\<close>

lemma has_different_config_flag:
  assumes "has_different_config p net = Inr (different, differences)"
  shows "different \<longleftrightarrow> differences \<noteq> []"
  using assms by (auto simp: has_different_config_def err_simps Let_def)

text \<open>
  An address option whose name is no lower-cased key of the daemon's report (\<open>aux_addresses\<close>
  against \<open>AuxiliaryAddresses\<close>) differs for ever.
\<close>

lemma ipam_option_never_matches:
  assumes "(k, v) \<in> set (ipam_options p)" and "\<forall>net_key \<in> set (dkeys pool). k \<noteq> lower net_key"
    and "first_pool config = Inr pool" and "py_truth config"
    and "map_of net ''IPAM'' = Some (PDict ipam)" and "map_of ipam ''Config'' = Some config"
    and "has_different_config p net = Inr (different, differences)"
  shows "different"
proof -
  have "find (\<lambda>net_key. k = lower net_key) (dkeys pool) = None"
    using assms(2) by (simp add: find_None_iff)
  then have "ipam_option_difference pool (k, v) \<noteq> []"
    by (simp add: ipam_option_difference_def camel_key_def)
  then have "concat (map (ipam_option_difference pool) (ipam_options p)) \<noteq> []"
    using assms(1) by auto
  moreover have "ipam \<noteq> []" using assms(6) by auto
  then have "ipam_option_differences p net =
      Inr (concat (map (ipam_option_difference pool) (ipam_options p)))"
    using assms(1,3-6) by (auto simp: ipam_option_differences_def dget_Some)
  ultimately obtain ds where "ipam_option_differences p net = Inr ds" "ds \<noteq> []" by blast
  with assms(7) show ?thesis by (auto simp: has_different_config_def err_simps Let_def)
qed

section \<open>Runs against a concrete daemon\<close>

text \<open>A daemon whose state is its one network, if any; calls that change it are not offered.\<close>

definition sample_client :: "pydict list docker_client" where
  "sample_client = \<lparr>
     networks = (\<lambda>kind nm w. Inr (if kind = ''names'' then w else [])),
     inspect_network = (\<lambda>nm w. Inl (Raise (KeyError ''network''))),
     IPAMPool = (\<lambda>d. Inr (PDict d)), IPAMConfig = (\<lambda>d ps. PList ps),
     create_net = (\<lambda>nm d w. (Inl (Raise (OutOfModel ''create'')), w)),
     remove_net = (\<lambda>nm w. (Inl (Raise (OutOfModel ''remove'')), w)),
     connect_container = (\<lambda>c nm w. (Inl (Raise (OutOfModel ''connect'')), w)),
     disconnect_container = (\<lambda>c nm w. (Inl (Raise (OutOfModel ''disconnect'')), w))\<rparr>"

definition sample_network :: pydict where
  "sample_network = [(''Driver'', PStr ''bridge''),
     (''Containers'', PDict [(''id1'', PDict [(''Name'', PStr ''a'')]), (''id2'', PDict [(''Name'', PStr ''b'')])])]"

definition sample_task :: "string list \<Rightarrow> task_parameters" where
  "sample_task wanted = \<lparr>network_name = ''net'', connected = map PStr wanted,
     dn_state = ''present'', driver = ''bridge'', driver_options = [], dn_force = False,
     appends = False, ipam_driver = PNone, ipam_options = [], ipv6 = False, debug = False\<rparr>"

lemma sample_unchanged:
  "unchanged_network sample_client (sample_task wanted) [sample_network] [''a'', ''b'']"
  by (simp add: unchanged_network_def sample_client_def sample_task_def sample_network_def
      get_existing_network_def has_different_config_def driver_differences_def
      driver_option_differences_def ipam_driver_differences_def ipam_option_differences_def
      ipv6_differences_def dindex_def container_values_def container_name_def)

theorem docker_present_plan_witness:
  "\<exists>s'. DockerNetworkManager sample_client (sample_task [''b'', ''c'']) True False [sample_network] =
       (Inr (), s', [sample_network]) \<and>
     actions s' = Some [''Connected container c'', ''Disconnected container a'']"
  using docker_present_plan [OF sample_unchanged, of "[''b'', ''c'']" "[''b'', ''c'']" False]
  by (simp add: sample_task_def container_plan_def wanted_names_def)

theorem docker_in_sync_witness:
  "\<exists>s'. DockerNetworkManager sample_client (sample_task [''b'', ''a'']) False False [sample_network] =
       (Inr (), s', [sample_network]) \<and> \<not> res_changed s'"
  by (rule docker_in_sync [OF sample_unchanged, where wanted = "[''b'', ''a'']"])
    (simp_all add: sample_task_def)

theorem docker_check_mode_witness:
  "\<exists>r s'. DockerNetworkManager sample_client (sample_task [''c'']) True False [] = (r, s', [])"
proof -
  obtain r s' w' where run: "DockerNetworkManager sample_client (sample_task [''c'']) True False [] =
      (r, s', w')"
    by (metis prod_cases3)
  from docker_check_mode [OF run] run show ?thesis by blast
qed

theorem docker_changed_iff_actions_witness:
  "\<exists>r s' w'. DockerNetworkManager sample_client (sample_task [''c'']) False False [sample_network] =
     (r, s', w') \<and> consistent s'"
proof -
  obtain r s' w' where run: "DockerNetworkManager sample_client (sample_task [''c'']) False False
      [sample_network] = (r, s', w')"
    by (metis prod_cases3)
  from docker_changed_iff_actions [OF run] run show ?thesis by blast
qed

theorem docker_check_mode_new_network_witness:
  "\<exists>s'. DockerNetworkManager sample_client (sample_task [''c'']) True False [] =
     (Inl (Raise (TypeError ''NoneType object has no attribute __getitem__'')), s', [])"
  by (rule docker_check_mode_new_network [where c = "PStr ''c''" and cs = "[]" and ipam = "PList []"])
    (simp_all add: sample_client_def sample_task_def get_existing_network_def ipam_config_def)

end
