(* ===== verification/Docker_Runs.thy ===== *)
theory Docker_Runs
  imports Docker_Network
begin

text \<open>
  Runs of \<open>docker_network.py\<close> that change the daemon. What the module relies on is stated over
  the calls of the client: how a network is reported, and what connecting, disconnecting and
  creating do to the report. From that: where a run ends, and that the next one has nothing to do.
\<close>

section \<open>What the daemon promises\<close>

text \<open>The daemon reports the network \<open>nm\<close> as \<open>net\<close>, with these containers.\<close>

definition network_at ::
  "'w docker_client \<Rightarrow> string \<Rightarrow> 'w \<Rightarrow> pydict \<Rightarrow> string list \<Rightarrow> bool" where
  "network_at cl nm w net names \<longleftrightarrow>
     get_existing_network cl nm w = Inr (Some net) \<and> net \<noteq> [] \<and>
     container_names_in_network (Some net) = Inr (map PStr names)"

text \<open>The part of a report the module compares with the task.\<close>

definition settings :: "pydict \<Rightarrow> pyval option list" where
  "settings net = map (map_of net) [''Driver'', ''Options'', ''IPAM'', ''EnableIPv6'']"

















section \<open>Settings\<close>




section \<open>Steps that leave the manager's view alone\<close>

text \<open>What the loops over the containers keep of the manager.\<close>

definition same_view :: "manager \<Rightarrow> manager \<Rightarrow> bool" where
  "same_view s s' \<longleftrightarrow> parameters s' = parameters s \<and> existing_network s' = existing_network s \<and>
     dn_check_mode s' = dn_check_mode s"


lemma same_view_act [simp]: "same_view s (act a s)"
  by (simp add: same_view_def)












section \<open>Where a run ends\<close>













section \<open>A daemon with one network\<close>

text \<open>
  The state is the list of its containers, or \<open>None\<close> where it does not exist. The container \<open>web\<close> has
  the identifier \<open>4f5e\<close>.
\<close>

definition container_called :: "string \<Rightarrow> string" where
  "container_called c = (if c = ''4f5e'' then ''web'' else c)"


definition report :: "string list \<Rightarrow> pydict" where
  "report cs = [(''Driver'', PStr ''bridge''), (''EnableIPv6'', PBool False),
     (''Options'', PDict [(''mtu'', PStr ''1400'')]),
     (''IPAM'', PDict [(''Driver'', PStr ''default''),
        (''Config'', PList [PDict [(''Subnet'', PStr ''172.3.27.0/24'')]])]),
     (''Containers'', PDict (map (\<lambda>c. (c, PDict [(''Name'', PStr c)])) cs))]"

fun attach :: "pyval \<Rightarrow> string list option \<Rightarrow> (exit + unit) \<times> string list option" where
  "attach (PStr c) (Some cs) =
     (if container_called c \<in> set cs then (Inl (Raise (OutOfModel ''already connected'')), Some cs)
      else (Inr (), Some (cs @ [container_called c])))"
| "attach _ w = (Inl (Raise (OutOfModel ''connect'')), w)"

fun detach :: "pyval \<Rightarrow> string list option \<Rightarrow> (exit + unit) \<times> string list option" where
  "detach (PStr c) (Some cs) = (Inr (), Some (filter (\<lambda>d. d \<noteq> container_called c) cs))"
| "detach _ w = (Inl (Raise (OutOfModel ''disconnect'')), w)"

text \<open>It only reports a state that lists its containers by name.\<close>

definition proper :: "string list option \<Rightarrow> bool" where
  "proper w \<longleftrightarrow> (case w of None \<Rightarrow> True | Some cs \<Rightarrow> (\<forall>c \<in> set cs. container_called c = c))"

definition one_network :: "string list option docker_client" where
  "one_network = \<lparr>
     networks = (\<lambda>kind nm w. if proper w then Inr (if kind = ''names'' \<and> w \<noteq> None then [report (the w)] else [])
                             else Inl (Raise (OutOfModel ''network''))),
     inspect_network = (\<lambda>i w. case w of None \<Rightarrow> Inl (Raise (KeyError ''network'')) | Some cs \<Rightarrow> Inr (report cs)),
     IPAMPool = (\<lambda>d. Inr (PDict d)), IPAMConfig = (\<lambda>d ps. PList ps),
     create_net = (\<lambda>nm d w. (Inr [(''Id'', PStr nm)], Some [])),
     remove_net = (\<lambda>nm w. (Inr (), None)),
     connect_container = (\<lambda>c nm w. attach c w),
     disconnect_container = (\<lambda>c nm w. detach c w)\<rparr>"

lemma get_one_network [simp]:
  "get_existing_network one_network nm w =
     (if proper w then Inr (map_option report w) else Inl (Raise (OutOfModel ''network'')))"
  by (cases w) (simp_all add: get_existing_network_def one_network_def)

lemma report_not_empty [simp]: "report cs \<noteq> []"
  by (simp add: report_def)

lemma report_names [simp]: "container_names_in_network (Some (report cs)) = Inr (map PStr cs)"
proof -
  have "emap container_name (map (\<lambda>c. PDict [(''Name'', PStr c)]) cs) = Inr (map PStr cs)"
    by (induction cs) (simp_all add: container_name_def dindex_def)
  then show ?thesis
    by (simp add: container_names_in_network_def report_def dindex_def container_values_def comp_def)
qed

lemma one_network_at [simp]:
  "network_at one_network nm w net names \<longleftrightarrow> proper w \<and> w = Some names \<and> net = report names"
proof -
  have "inj PStr" by (auto simp: inj_def)
  then have "map PStr a = map PStr b \<longleftrightarrow> a = b" for a b by (rule inj_map_eq_map)
  then show ?thesis by (auto simp: network_at_def)
qed

lemma settings_report [simp]: "settings (report cs) = settings (report ds)"
  by (simp add: settings_def report_def)

lemma container_called_twice [simp]: "container_called (container_called c) = container_called c"
  by (simp add: container_called_def)








end
