(* ===== verification/IPA_Base.thy ===== *)
theory IPA_Base
  imports Ansible
begin

text \<open>
  \<open>lib/python/ipa.py\<close>, the data of \<open>IPAClient\<close>: class attributes, the instance, the
  overridable methods, initialisation, and the canonical form (\<open>clean\<close> and the \<open>munge_*\<close>
  methods) in which module parameters and find responses are compared.
\<close>

section \<open>Class attributes\<close>

text \<open>
  The class attributes of \<open>IPAClient\<close> and its subclasses; \<open>class_base_keys\<close> is \<open>None\<close>
  where the class has no \<open>base_keys\<close> attribute. The two enable attributes belong to
  \<open>EnablableIPAClient\<close>.
\<close>

record client_class =
  cname :: string
  methods :: "(string \<times> string) list"
  state_choices :: "string list"
  change_functions :: "string list"
  param_keys :: "string list"
  class_base_keys :: "string list option"
  kw_args :: "(string \<times> argspec) list"
  fetch_url_timeout :: int
  enablekey :: "string option"
  enablekey_sense_inverted :: bool

definition IPAClient_class :: client_class where
  "IPAClient_class =
     \<lparr>cname = ''unnamed'',
      methods = [(''add'', ''{}_add''), (''rem'', ''{}_del''), (''mod'', ''{}_mod''),
                 (''find'', ''{}_find'')],
      state_choices = [''present'', ''absent'', ''exact''],
      change_functions = [''rem'', ''add_or_mod''],
      param_keys = [], class_base_keys = None, kw_args = [],
      fetch_url_timeout = 10, enablekey = None, enablekey_sense_inverted = False\<rparr>"

section \<open>The instance\<close>

record request =
  r_method :: string
  r_name :: "pyval list"
  r_item :: pydict

record entry =
  e_name :: string
  e_request :: "request option"
  e_response :: "pyval option"
  e_response_cleaned :: "pydict option"

record changes =
  scalars :: pydict
  list_add :: pydict
  list_del :: pydict

definition no_changes :: changes where
  "no_changes = \<lparr>scalars = [], list_add = [], list_del = []\<rparr>"

text \<open>
  The attributes of an \<open>IPAClient\<close> object. \<open>params\<close> and \<open>check_mode\<close> are those of
  \<open>self.module\<close>; \<open>s_methods\<close> is \<open>self._methods\<close>; \<open>param_data\<close> keeps the \<open>type\<close>
  of each parameter (no class sets the value filters); \<open>is_origin\<close> is the attribute of the
  dnsrecord client.
\<close>

record self =
  klass :: client_class
  s_methods :: "(string \<times> string) list"
  argument_spec :: "(string \<times> argspec) list"
  param_data :: "(string \<times> string) list"
  base_keys :: "string list"
  requests :: "entry list"
  responses :: pydict
  params :: pydict
  check_mode :: bool
  host :: pyval
  port :: pyval
  protocol :: pyval
  username :: pyval
  password :: pyval
  headers :: "pydict option"
  state :: pyval
  changed :: bool
  canon_params :: pydict
  diffs :: changes
  is_origin :: bool

definition new_self :: "client_class \<Rightarrow> self" where
  "new_self C = \<lparr>klass = C, s_methods = [], argument_spec = [], param_data = [], base_keys = [],
     requests = [], responses = [], params = [], check_mode = False, host = PNone, port = PNone,
     protocol = PNone, username = PNone, password = PNone, headers = None, state = PNone,
     changed = False, canon_params = [], diffs = no_changes, is_origin = False\<rparr>"

section \<open>Overridable methods\<close>

text \<open>
  The methods that subclasses override, as a table a client class carries. \<open>munge_response\<close>
  returns the cleaned dictionary and what its in-place updates leave in the response it was given
  (the caller copies the response one level deep only). A hook that calls another overridable hook
  takes that one as an argument. \<open>h_own\<close> is the \<open>getattr\<close> lookup of the change functions
  a class adds to \<open>rem\<close> and \<open>add_or_mod\<close>; a change function returns whether to stop.
\<close>

type_synonym change_function = "self \<Rightarrow> exit + bool \<times> self"

record hooks =
  h_init_kw_args :: "self \<Rightarrow> self"
  h_find_filter :: "(self \<Rightarrow> pyval \<Rightarrow> exit + bool) option"
  h_find_request_params :: "self \<Rightarrow> exit + pyval list"
  h_find_request_item :: "self \<Rightarrow> exit + pydict \<times> self"
  h_munge_module_params :: "self \<Rightarrow> exit + pydict"
  h_munge_response :: "self \<Rightarrow> pydict \<Rightarrow> exit + pydict \<times> pydict"
  h_compute_changes :: "self \<Rightarrow> pydict \<Rightarrow> pydict \<Rightarrow> exit + changes"
  h_mod_request_params :: "self \<Rightarrow> exit + pyval list"
  h_mod_rewrite :: "self \<Rightarrow> request \<Rightarrow> exit + request"
  h_rem_request_cleanup :: "self \<Rightarrow> request \<Rightarrow> request"
  h_rem_request_params :: "(self \<Rightarrow> exit + pyval list) \<Rightarrow> self \<Rightarrow> exit + pyval list"
  h_rem_request_item :: "self \<Rightarrow> exit + pydict"
  h_is_rem_param_request :: "self \<Rightarrow> bool"
  h_own :: "string \<Rightarrow> change_function option"

section \<open>Initialisation\<close>

definition init_methods :: "self \<Rightarrow> exit + self" where
  "init_methods s =
     ebind (emap (\<lambda>(k, pat). ebind (str_format pat (cname (klass s))) (\<lambda>m. Inr (k, m)))
              (methods (klass s)))
       (\<lambda>ms. Inr (s\<lparr>s_methods := ms\<rparr>))"

definition standard_params :: "client_class \<Rightarrow> (string \<times> argspec) list" where
  "standard_params C =
     [(''state'', (kwarg ''str'' False)\<lparr>sp_default := Some (PStr ''present''),
                     sp_choices := map PStr (state_choices C)\<rparr>),
      (''ipa_prot'', (kwarg ''str'' False)\<lparr>sp_default := Some (PStr ''https''),
                     sp_choices := [PStr ''http'', PStr ''https'']\<rparr>),
      (''ipa_host'', (kwarg ''str'' False)\<lparr>sp_default := Some (PStr ''ipa.example.com'')\<rparr>),
      (''ipa_port'', (kwarg ''int'' False)\<lparr>sp_default := Some (PInt 443)\<rparr>),
      (''ipa_user'', (kwarg ''str'' False)\<lparr>sp_default := Some (PStr ''admin'')\<rparr>),
      (''ipa_pass'', (kwarg ''str'' True)\<lparr>sp_no_log := True\<rparr>),
      (''validate_certs'', (kwarg ''bool'' False)\<lparr>sp_default := Some (PBool True)\<rparr>)]"

definition init_standard_params :: "self \<Rightarrow> self" where
  "init_standard_params s = s\<lparr>argument_spec := standard_params (klass s)\<rparr>"

definition init_kw_args :: "self \<Rightarrow> self" where
  "init_kw_args s =
     (let kws = kw_args (klass s);
          pd = map (\<lambda>(k, sp). (k, sp_type sp)) kws
      in s\<lparr>param_data := pd,
           argument_spec := fold (\<lambda>(k, sp). dset k sp) kws (argument_spec s),
           base_keys := (case class_base_keys (klass s) of
                           Some ks \<Rightarrow> ks
                         | None \<Rightarrow> filter (\<lambda>k. k \<notin> set (param_keys (klass s))) (dkeys pd))\<rparr>)"

definition param :: "self \<Rightarrow> string \<Rightarrow> pyval \<Rightarrow> pyval" where
  "param s k dflt = dget (params s) k dflt"

text \<open>
  \<open>AnsibleModule(argument_spec, ...)\<close> is code outside the repository: the argument \<open>am\<close>
  gives the parameters and the check mode flag it produces for a specification, or its exit.
\<close>

definition init_module :: "ansible_module \<Rightarrow> self \<Rightarrow> exit + self" where
  "init_module am s =
     ebind (am (argument_spec s)) (\<lambda>(ps, cm).
       let s1 = s\<lparr>params := ps, check_mode := cm\<rparr>
       in Inr (s1\<lparr>host := param s1 ''ipa_host'' PNone,
                  port := param s1 ''ipa_port'' PNone,
                  protocol := param s1 ''ipa_prot'' PNone,
                  username := param s1 ''ipa_user'' PNone,
                  password := param s1 ''ipa_pass'' PNone,
                  headers := None,
                  state := param s1 ''state'' PNone,
                  changed := False\<rparr>))"

definition init_client :: "hooks \<Rightarrow> client_class \<Rightarrow> ansible_module \<Rightarrow> exit + self" where
  "init_client H C am =
     ebind (init_methods (new_self C)) (\<lambda>s.
       init_module am ((h_init_kw_args H (init_standard_params s))
         \<lparr>requests := [], responses := []\<rparr>))"

text \<open>The documented contract of \<open>AnsibleModule\<close>: every key of the specification is a key of
  \<open>params\<close> (\<open>None\<close> or the default when the task did not set it).\<close>

definition ansible_params :: "(string \<times> argspec) list \<Rightarrow> pydict \<Rightarrow> bool" where
  "ansible_params spec ps \<longleftrightarrow> wf_dict ps \<and> (\<forall>k \<in> set (dkeys spec). dhas ps k)"

section \<open>Canonical form\<close>

definition munge_pop_request_keys :: "self \<Rightarrow> pydict \<Rightarrow> pydict" where
  "munge_pop_request_keys s item = filter (\<lambda>(k, _). k \<notin> set (param_keys (klass s))) item"

text \<open>
  The body of the loop over the items, in the order of the code: a list parameter is wrapped in a
  list, any other is taken out of one; then booleans and integers are converted from their
  strings. \<open>None\<close> is a \<open>continue\<close> without storing.
\<close>

fun unwrap_scalar :: "pyval \<Rightarrow> exit + pyval" where
  "unwrap_scalar (PList []) = Inl (Raise (IndexError ''list index out of range''))"
| "unwrap_scalar (PList (x # _)) = Inr x"
| "unwrap_scalar v = Inr v"

fun convert_scalar :: "string \<Rightarrow> pyval \<Rightarrow> exit + pyval" where
  "convert_scalar t (PStr s) =
     (if t = ''bool'' then
        Inr (if lower s = ''true'' then PBool True
             else if lower s = ''false'' then PBool False else PStr s)
      else if t = ''int'' then ebind (py_int s) (\<lambda>i. Inr (PInt i))
      else Inr (PStr s))"
| "convert_scalar t v = Inr v"

fun as_list :: "pyval \<Rightarrow> pyval list" where
  "as_list (PList xs) = xs"
| "as_list v = [v]"

definition clean_value :: "string \<Rightarrow> pyval \<Rightarrow> exit + pyval option" where
  "clean_value t v =
     (if t = ''list'' then
        (case as_list v of
           [] \<Rightarrow> Inr None
         | x # _ \<Rightarrow> Inr (if x = PNone then None else Some (PList (as_list v))))
      else
        ebind (unwrap_scalar v) (\<lambda>x.
          if x = PNone then Inr None
          else ebind (convert_scalar t x) (\<lambda>y. Inr (Some y))))"

definition clean_step :: "self \<Rightarrow> string \<times> pyval \<Rightarrow> pydict \<Rightarrow> exit + pydict" where
  "clean_step s p item =
     (case map_of (param_data s) (fst p) of
        None \<Rightarrow> Inr item
      | Some t \<Rightarrow>
          ebind (clean_value t (snd p))
            (\<lambda>r. Inr (case r of None \<Rightarrow> item | Some v \<Rightarrow> dset (fst p) v item)))"

definition clean :: "self \<Rightarrow> pydict \<Rightarrow> exit + pydict" where
  "clean s dirty = efold (clean_step s) dirty []"

definition munge_state_exact_add_defaults :: "self \<Rightarrow> pydict \<Rightarrow> pydict" where
  "munge_state_exact_add_defaults s item =
     (if state s \<noteq> PStr ''exact'' then item
      else fold (\<lambda>(k, sp) it.
                   if dhas it k then it
                   else case sp_default sp of None \<Rightarrow> it | Some v \<Rightarrow> dset k v it)
             (argument_spec s) item)"

definition munge_module_params :: "self \<Rightarrow> exit + pydict" where
  "munge_module_params s =
     ebind (clean s (params s))
       (\<lambda>item. Inr (munge_state_exact_add_defaults s (munge_pop_request_keys s item)))"

definition munge_response :: "self \<Rightarrow> pydict \<Rightarrow> exit + pydict \<times> pydict" where
  "munge_response s response =
     ebind (clean s response) (\<lambda>item. Inr (munge_pop_request_keys s item, response))"

section \<open>What the canonical form guarantees\<close>

text \<open>
  A cleaned value: never \<open>None\<close>, a non-empty list that does not start with \<open>None\<close> for
  a list parameter, and for the other types never a list unless the response nests one.
\<close>

fun clean_shape :: "string \<Rightarrow> pyval \<Rightarrow> bool" where
  "clean_shape t (PList vs) = (t = ''list'' \<longrightarrow> vs \<noteq> [] \<and> hd vs \<noteq> PNone)"
| "clean_shape t v = (t \<noteq> ''list'' \<and> v \<noteq> PNone)"

definition canonical :: "self \<Rightarrow> pydict \<Rightarrow> bool" where
  "canonical s d \<longleftrightarrow> wf_dict d \<and>
     (\<forall>k v. map_of d k = Some v \<longrightarrow>
        (\<exists>t. map_of (param_data s) k = Some t \<and> clean_shape t v))"

lemma convert_scalar_not_None: "convert_scalar t x = Inr y \<Longrightarrow> x \<noteq> PNone \<Longrightarrow> y \<noteq> PNone"
  by (cases x) (auto simp: err_simps split: if_splits)

lemma clean_shape_scalar: "t \<noteq> ''list'' \<Longrightarrow> v \<noteq> PNone \<Longrightarrow> clean_shape t v"
  by (cases v) auto

lemma clean_value_shape:
  assumes "clean_value t v = Inr (Some w)"
  shows "clean_shape t w"
proof (cases "t = ''list''")
  case True
  with assms show ?thesis
    by (auto simp: clean_value_def split: list.splits if_splits)
next
  case False
  with assms show ?thesis
    by (auto simp: clean_value_def err_simps split: if_splits
        intro: clean_shape_scalar dest: convert_scalar_not_None)
qed

lemma clean_step_cases:
  assumes "clean_step s p item = Inr item'"
  obtains "item' = item"
    | t v where "map_of (param_data s) (fst p) = Some t" "clean_shape t v"
        "item' = dset (fst p) v item"
proof (cases "map_of (param_data s) (fst p)")
  case None
  with assms that(1) show ?thesis by (simp add: clean_step_def)
next
  case (Some t)
  with assms obtain r where r: "clean_value t (snd p) = Inr r"
    and i: "item' = (case r of None \<Rightarrow> item | Some v \<Rightarrow> dset (fst p) v item)"
    by (auto simp: clean_step_def err_simps)
  show ?thesis
  proof (cases r)
    case None
    with i that(1) show ?thesis by simp
  next
    case (Some v)
    with r i have "clean_shape t v" and "item' = dset (fst p) v item"
      by (simp_all add: clean_value_shape)
    with \<open>map_of (param_data s) (fst p) = Some t\<close> show ?thesis by (rule that(2))
  qed
qed

lemma canonical_dset:
  "canonical s d \<Longrightarrow> map_of (param_data s) k = Some t \<Longrightarrow> clean_shape t v \<Longrightarrow>
     canonical s (dset k v d)"
  by (auto simp: canonical_def)

lemma canonical_Nil [simp]: "canonical s []"
  by (simp add: canonical_def)

lemma clean_canonical: "clean s dirty = Inr d \<Longrightarrow> canonical s d"
  unfolding clean_def
  by (erule efold_invariant) (auto elim!: clean_step_cases intro: canonical_dset)

lemma canonical_wf [intro]: "canonical s d \<Longrightarrow> wf_dict d"
  by (simp add: canonical_def)

lemma canonical_keys: "canonical s d \<Longrightarrow> k \<in> fst ` set d \<Longrightarrow> k \<in> fst ` set (param_data s)"
  unfolding canonical_def dhas_iff [symmetric] by (metis not_None_eq)

lemma map_of_munge_pop [simp]:
  "map_of (munge_pop_request_keys s d) k =
     (if k \<in> set (param_keys (klass s)) then None else map_of d k)"
  by (simp add: munge_pop_request_keys_def map_of_filter_key)

lemma canonical_munge_pop [intro]:
  "canonical s d \<Longrightarrow> canonical s (munge_pop_request_keys s d)"
  by (auto simp: canonical_def munge_pop_request_keys_def map_of_filter_key split: if_splits)

lemma munge_response_canonical:
  "munge_response s r = Inr (d, r') \<Longrightarrow> canonical s d \<and> r' = r"
  by (auto simp: munge_response_def err_simps dest!: clean_canonical)

lemma munge_response_no_keys:
  "munge_response s r = Inr (d, r') \<Longrightarrow> k \<in> set (param_keys (klass s)) \<Longrightarrow> map_of d k = None"
  by (auto simp: munge_response_def err_simps)

lemma munge_module_params_not_exact:
  "state s \<noteq> PStr ''exact'' \<Longrightarrow> munge_module_params s = Inr d \<Longrightarrow>
     canonical s d \<and> (\<forall>k \<in> set (param_keys (klass s)). map_of d k = None)"
  by (auto simp: munge_module_params_def munge_state_exact_add_defaults_def err_simps
      dest!: clean_canonical)

text \<open>A string parameter that is already canonical is left as it is.\<close>

lemma clean_value_str: "x \<noteq> PNone \<Longrightarrow> \<not> is_PList x \<Longrightarrow> clean_value ''str'' x = Inr (Some x)"
  by (cases x) (auto simp: clean_value_def)

lemma clean_value_list: "clean_shape ''list'' (PList vs) \<Longrightarrow>
    clean_value ''list'' (PList vs) = Inr (Some (PList vs))"
  by (cases vs) (auto simp: clean_value_def)

end
