(* ===== verification/IPA_Diff.thy ===== *)
theory IPA_Diff
  imports IPA_Base
begin

text \<open>
  \<open>lib/python/ipa.py\<close>, the difference between the wanted and the found attributes:
  \<open>get_slice\<close>, \<open>op\<close> and \<open>compute_changes\<close>. The abstract specification is what applying a
  difference to the found attributes must give, per attribute and for each \<open>state\<close>.
\<close>

section \<open>The code\<close>

definition is_list_param :: "self \<Rightarrow> string \<Rightarrow> bool" where
  "is_list_param s k \<longleftrightarrow> map_of (param_data s) k = Some ''list''"

text \<open>\<open>get_slice\<close> as the pair of its \<open>'list'\<close> and \<open>'scalar'\<close> dictionaries.\<close>

definition get_slice :: "self \<Rightarrow> pydict \<Rightarrow> pydict \<times> pydict" where
  "get_slice s ps = (filter (\<lambda>(k, _). is_list_param s k) ps,
                     filter (\<lambda>(k, _). \<not> is_list_param s k) ps)"

datatype set_op = Difference | Intersection

fun apply_set_op :: "set_op \<Rightarrow> pyval list \<Rightarrow> pyval list \<Rightarrow> pyval list" where
  "apply_set_op Difference xs ys = filter (\<lambda>x. \<not> py_mem x ys) xs"
| "apply_set_op Intersection xs ys = filter (\<lambda>x. py_mem x ys) xs"

text \<open>\<open>set(a.get(key, []))\<close>.\<close>

definition set_at :: "pydict \<Rightarrow> string \<Rightarrow> exit + pyval list" where
  "set_at d k = ebind (py_iter (dget d k (PList []))) py_set"

text \<open>
  The body of \<open>op\<close> for one key, and the loop over \<open>set(a) | set(b)\<close>. Each key is met once,
  so \<open>setdefault\<close> followed by \<open>extend\<close> stores the list.
\<close>

definition op_key :: "pydict \<Rightarrow> pydict \<Rightarrow> set_op \<Rightarrow> string \<Rightarrow> exit + pyval list" where
  "op_key a b f k =
     ebind (set_at a k) (\<lambda>xs. ebind (set_at b k) (\<lambda>ys. Inr (apply_set_op f xs ys)))"

definition op_step :: "pydict \<Rightarrow> pydict \<Rightarrow> set_op \<Rightarrow> string \<Rightarrow> pydict \<Rightarrow> exit + pydict" where
  "op_step a b f k res =
     ebind (op_key a b f k) (\<lambda>vs. Inr (if vs = [] then res else dset k (PList vs) res))"

definition op_dict :: "pydict \<Rightarrow> pydict \<Rightarrow> set_op \<Rightarrow> exit + pydict" where
  "op_dict a b f = efold (op_step a b f) (remdups (dkeys a @ dkeys b)) []"

text \<open>\<open>self.argument_spec[k].get('default', None)\<close>.\<close>

definition spec_default :: "self \<Rightarrow> string \<Rightarrow> exit + pyval" where
  "spec_default s k =
     ebind (dindex (argument_spec s) k)
       (\<lambda>sp. Inr (case sp_default sp of Some v \<Rightarrow> v | None \<Rightarrow> PNone))"

definition default_value :: "self \<Rightarrow> string \<Rightarrow> pyval" where
  "default_value s k =
     (case map_of (argument_spec s) k of None \<Rightarrow> PNone
      | Some sp \<Rightarrow> (case sp_default sp of None \<Rightarrow> PNone | Some v \<Rightarrow> v))"

definition has_default :: "self \<Rightarrow> string \<Rightarrow> bool" where
  "has_default s k \<longleftrightarrow>
     (case map_of (argument_spec s) k of None \<Rightarrow> False | Some sp \<Rightarrow> sp_default sp \<noteq> None)"

text \<open>New, changed and (state \<open>exact\<close>) deleted scalar keys.\<close>

definition scalar_keys :: "self \<Rightarrow> pydict \<Rightarrow> pydict \<Rightarrow> string list" where
  "scalar_keys s change_params curr_params =
     (let cs = snd (get_slice s change_params); us = snd (get_slice s curr_params)
      in filter (\<lambda>k. \<not> dhas us k) (dkeys cs)
         @ filter (\<lambda>k. dhas us k \<and>
               \<not> py_eq (dget change_params k PNone) (dget curr_params k PNone)) (dkeys cs)
         @ (if state s = PStr ''exact''
            then filter (\<lambda>k. \<not> dhas cs k \<and> \<not> has_default s k) (dkeys us) else []))"

definition scalar_changes :: "self \<Rightarrow> pydict \<Rightarrow> pydict \<Rightarrow> exit + pydict" where
  "scalar_changes s change_params curr_params =
     (if state s \<noteq> PStr ''absent'' then
        efold (store_step (spec_default s) (\<lambda>k. k) (\<lambda>k dflt. dget change_params k dflt))
          (scalar_keys s change_params curr_params) []
      else
        efold (store_step (spec_default s) (\<lambda>k. k) (\<lambda>k dflt. dflt))
          (dkeys (filter (\<lambda>(k, v). py_eq v (dget (snd (get_slice s curr_params)) k PNone))
                    (snd (get_slice s change_params)))) [])"

definition compute_changes :: "self \<Rightarrow> pydict \<Rightarrow> pydict \<Rightarrow> exit + changes" where
  "compute_changes s change_params curr_params =
     (let cl = fst (get_slice s change_params); ul = fst (get_slice s curr_params)
      in ebind (if state s \<noteq> PStr ''absent'' then op_dict cl ul Difference else Inr [])
         (\<lambda>la. ebind (if state s = PStr ''exact'' then op_dict ul cl Difference
                       else if state s = PStr ''absent'' then op_dict cl ul Intersection
                       else Inr [])
         (\<lambda>ld. ebind (scalar_changes s change_params curr_params)
         (\<lambda>sc. Inr \<lparr>scalars = sc, list_add = la, list_del = ld\<rparr>))))"

section \<open>Set operations on attributes\<close>

text \<open>
  The values of an attribute up to Python equality. \<open>attr_vals d k\<close> is the set behind a list
  attribute, empty where the key is missing.
\<close>

definition attr_list :: "pydict \<Rightarrow> string \<Rightarrow> pyval list" where
  "attr_list d k = (case map_of d k of Some (PList vs) \<Rightarrow> vs | _ \<Rightarrow> [])"

definition attr_vals :: "pydict \<Rightarrow> string \<Rightarrow> (nat \<times> int \<times> string) set" where
  "attr_vals d k = hkey ` set (attr_list d k)"

text \<open>List attributes hold lists of hashable values: what \<open>clean\<close> yields from JSON strings.\<close>

definition lists_ok :: "self \<Rightarrow> pydict \<Rightarrow> bool" where
  "lists_ok s d \<longleftrightarrow>
     (\<forall>k v. map_of d k = Some v \<longrightarrow> is_list_param s k \<longrightarrow>
        (\<exists>vs. v = PList vs \<and> (\<forall>x \<in> set vs. hashable x)))"

lemma map_of_get_slice [simp]:
  "map_of (fst (get_slice s d)) k = (if is_list_param s k then map_of d k else None)"
  "map_of (snd (get_slice s d)) k = (if is_list_param s k then None else map_of d k)"
  by (simp_all add: get_slice_def map_of_filter_key)

lemma dkeys_get_slice:
  "k \<in> fst ` set (fst (get_slice s d)) \<longleftrightarrow> k \<in> fst ` set d \<and> is_list_param s k"
  "k \<in> fst ` set (snd (get_slice s d)) \<longleftrightarrow> k \<in> fst ` set d \<and> \<not> is_list_param s k"
  by (auto simp: get_slice_def)

lemma wf_get_slice [simp, intro]:
  "wf_dict d \<Longrightarrow> wf_dict (fst (get_slice s d))"
  "wf_dict d \<Longrightarrow> wf_dict (snd (get_slice s d))"
  by (simp_all add: get_slice_def)

lemma hkey_apply_set_op:
  assumes "\<forall>x \<in> set xs. hashable x"
  shows "hkey ` set (apply_set_op Difference xs ys) = hkey ` set xs - hkey ` set ys"
    and "hkey ` set (apply_set_op Intersection xs ys) = hkey ` set xs \<inter> hkey ` set ys"
proof -
  have m: "py_mem x ys \<longleftrightarrow> hkey x \<in> hkey ` set ys" if "x \<in> set xs" for x
    using assms that by (simp add: py_mem_hkey)
  have "set (apply_set_op Difference xs ys) = {x \<in> set xs. hkey x \<notin> hkey ` set ys}"
    by (simp add: m cong: conj_cong)
  then show "hkey ` set (apply_set_op Difference xs ys) = hkey ` set xs - hkey ` set ys"
    by (simp only: image_Collect_notin image_Collect_in)
  have "set (apply_set_op Intersection xs ys) = {x \<in> set xs. hkey x \<in> hkey ` set ys}"
    by (simp add: m cong: conj_cong)
  then show "hkey ` set (apply_set_op Intersection xs ys) = hkey ` set xs \<inter> hkey ` set ys"
    by (simp only: image_Collect_notin image_Collect_in)
qed

lemma set_apply_set_op: "set (apply_set_op f xs ys) \<subseteq> set xs"
  by (cases f) auto

lemma set_at_list_slice:
  assumes "lists_ok s d"
  shows "\<exists>xs. set_at (fst (get_slice s d)) k = Inr xs \<and> (\<forall>x \<in> set xs. hashable x) \<and>
     hkey ` set xs = (if is_list_param s k then attr_vals d k else {})"
proof (cases "is_list_param s k \<and> map_of d k \<noteq> None")
  case True
  then obtain v where v: "map_of d k = Some v" by blast
  with True assms obtain vs where "v = PList vs" and h: "\<forall>x \<in> set vs. hashable x"
    unfolding lists_ok_def by blast
  with v True have "set_at (fst (get_slice s d)) k = Inr (dedup vs)"
    by (simp add: set_at_def dget_def py_set_def list_all_iff)
  moreover have "attr_vals d k = hkey ` set vs"
    using v \<open>v = PList vs\<close> by (simp add: attr_vals_def attr_list_def)
  moreover have "\<forall>x \<in> set (dedup vs). hashable x"
    using h set_dedup_subset by blast
  ultimately show ?thesis using True h by (auto simp: hkey_dedup)
next
  case False
  then have "dget (fst (get_slice s d)) k (PList []) = PList []"
    by (auto simp: dget_def)
  with False show ?thesis
    by (auto simp: set_at_def py_set_def attr_vals_def attr_list_def)
qed

section \<open>The dictionaries \<open>op\<close> returns\<close>

lemma op_step_Inr [err_simps]:
  "op_step a b f k acc = Inr d \<longleftrightarrow>
     (\<exists>vs. op_key a b f k = Inr vs \<and> d = (if vs = [] then acc else dset k (PList vs) acc))"
  by (auto simp: op_step_def err_simps)

definition op_entry :: "pydict \<Rightarrow> pydict \<Rightarrow> set_op \<Rightarrow> string \<Rightarrow> pyval option" where
  "op_entry a b f k =
     (case op_key a b f k of
        Inr (v # vs) \<Rightarrow> Some (PList (v # vs))
      | _ \<Rightarrow> None)"

lemma op_fold:
  assumes "efold (op_step a b f) ks acc = Inr d" and "distinct ks"
    and "\<forall>k \<in> set ks. map_of acc k = None" and "wf_dict acc"
  shows "map_of d = (\<lambda>k. if k \<in> set ks then op_entry a b f k else map_of acc k) \<and> wf_dict d"
  using assms
proof (induction ks arbitrary: acc)
  case (Cons k ks)
  from Cons.prems(1) obtain vs where vs: "op_key a b f k = Inr vs"
    and rest: "efold (op_step a b f) ks (if vs = [] then acc else dset k (PList vs) acc) = Inr d"
    by (auto simp: err_simps)
  let ?acc = "if vs = [] then acc else dset k (PList vs) acc"
  have "map_of d = (\<lambda>k'. if k' \<in> set ks then op_entry a b f k' else map_of ?acc k') \<and> wf_dict d"
    using Cons.prems by (intro Cons.IH [OF rest]) auto
  moreover have "map_of ?acc k = op_entry a b f k"
    using vs Cons.prems(3) by (cases vs) (auto simp: op_entry_def)
  moreover have "map_of ?acc k' = map_of acc k'" if "k' \<noteq> k" for k'
    using that by simp
  ultimately show ?case
    using Cons.prems(2) by (auto simp: fun_eq_iff)
qed simp

lemma op_dict_Inr:
  assumes "op_dict a b f = Inr d"
  shows "map_of d k = (if k \<in> fst ` set a \<union> fst ` set b then op_entry a b f k else None)"
    and "wf_dict d"
  using op_fold [OF assms [unfolded op_dict_def]] by (auto simp: fun_eq_iff)

lemma op_dict_total:
  assumes "\<And>k. \<exists>vs. op_key a b f k = Inr vs"
  shows "\<exists>d. op_dict a b f = Inr d"
proof -
  have "\<exists>d. efold (op_step a b f) ks acc = Inr d" for ks acc
  proof (induction ks arbitrary: acc)
    case (Cons k ks)
    obtain vs where "op_key a b f k = Inr vs" using assms by blast
    with Cons.IH show ?case by (simp add: op_step_def)
  qed simp
  then show ?thesis by (simp add: op_dict_def)
qed

text \<open>On the list slices of two dictionaries of hashable lists, \<open>op\<close> always returns.\<close>

lemma op_key_slices:
  assumes "lists_ok s a" and "lists_ok s b"
  shows "\<exists>vs. op_key (fst (get_slice s a)) (fst (get_slice s b)) f k = Inr vs \<and>
     (\<forall>x \<in> set vs. hashable x) \<and>
     hkey ` set vs =
       (if is_list_param s k
        then (case f of Difference \<Rightarrow> attr_vals a k - attr_vals b k
              | Intersection \<Rightarrow> attr_vals a k \<inter> attr_vals b k)
        else {})"
proof -
  obtain xs where xs: "set_at (fst (get_slice s a)) k = Inr xs" "\<forall>x \<in> set xs. hashable x"
    "hkey ` set xs = (if is_list_param s k then attr_vals a k else {})"
    using set_at_list_slice [OF assms(1)] by blast
  obtain ys where ys: "set_at (fst (get_slice s b)) k = Inr ys"
    "hkey ` set ys = (if is_list_param s k then attr_vals b k else {})"
    using set_at_list_slice [OF assms(2)] by blast
  have "op_key (fst (get_slice s a)) (fst (get_slice s b)) f k = Inr (apply_set_op f xs ys)"
    using xs ys by (simp add: op_key_def)
  moreover have "\<forall>x \<in> set (apply_set_op f xs ys). hashable x"
    using xs(2) set_apply_set_op by blast
  moreover have "hkey ` set (apply_set_op f xs ys) =
       (case f of Difference \<Rightarrow> hkey ` set xs - hkey ` set ys
        | Intersection \<Rightarrow> hkey ` set xs \<inter> hkey ` set ys)"
    using hkey_apply_set_op [OF xs(2)] by (cases f) simp_all
  ultimately show ?thesis
    using xs(3) ys(2) by (intro exI [of _ "apply_set_op f xs ys"]) (auto split: set_op.splits)
qed

lemma op_entry_vals:
  assumes "op_key a b f k = Inr vs"
  shows "op_entry a b f k = (if vs = [] then None else Some (PList vs))"
  using assms by (cases vs) (simp_all add: op_entry_def)

lemma attr_vals_Nil [simp]: "attr_vals [] k = {}"
  by (simp add: attr_vals_def attr_list_def)

lemma attr_vals_outside: "k \<notin> fst ` set d \<Longrightarrow> attr_vals d k = {}"
  by (simp add: attr_vals_def attr_list_def map_of_eq_None_iff [symmetric])

lemma op_dict_slices:
  assumes "lists_ok s a" and "lists_ok s b"
  shows "\<exists>d. op_dict (fst (get_slice s a)) (fst (get_slice s b)) f = Inr d \<and> wf_dict d \<and>
     (\<forall>k. attr_vals d k =
       (if is_list_param s k
        then (case f of Difference \<Rightarrow> attr_vals a k - attr_vals b k
              | Intersection \<Rightarrow> attr_vals a k \<inter> attr_vals b k)
        else {})) \<and>
     (\<forall>k v. map_of d k = Some v \<longrightarrow> is_list_param s k \<and>
        (\<exists>vs. v = PList vs \<and> vs \<noteq> [] \<and> (\<forall>x \<in> set vs. hashable x)))"
proof -
  let ?a = "fst (get_slice s a)" and ?b = "fst (get_slice s b)"
  note key = op_key_slices [OF assms, of f]
  obtain d where d: "op_dict ?a ?b f = Inr d"
    using op_dict_total key by meson
  note look = op_dict_Inr [OF d]
  have look2: "map_of d k = (if k \<in> fst ` set ?a \<union> fst ` set ?b
      then (if vs = [] then None else Some (PList vs)) else None)"
    if "op_key ?a ?b f k = Inr vs" for k vs
    using look(1) op_entry_vals [OF that] by simp
  have "attr_vals d k =
       (if is_list_param s k
        then (case f of Difference \<Rightarrow> attr_vals a k - attr_vals b k
              | Intersection \<Rightarrow> attr_vals a k \<inter> attr_vals b k)
        else {})" for k
  proof -
    obtain vs where vs: "op_key ?a ?b f k = Inr vs" and h: "hkey ` set vs =
       (if is_list_param s k
        then (case f of Difference \<Rightarrow> attr_vals a k - attr_vals b k
              | Intersection \<Rightarrow> attr_vals a k \<inter> attr_vals b k)
        else {})"
      using key by blast
    show ?thesis
    proof (cases "k \<in> fst ` set ?a \<union> fst ` set ?b")
      case True
      with look2 [OF vs] have "attr_vals d k = hkey ` set vs"
        by (simp add: attr_vals_def attr_list_def)
      with h show ?thesis by simp
    next
      case False
      with look2 [OF vs] have "attr_vals d k = {}"
        by (simp add: attr_vals_def attr_list_def)
      moreover have "\<not> is_list_param s k \<or> attr_vals a k = {}"
        using False by (auto simp: dkeys_get_slice intro!: attr_vals_outside)
      ultimately show ?thesis by (auto split: set_op.splits)
    qed
  qed
  moreover have "is_list_param s k \<and>
        (\<exists>vs. v = PList vs \<and> vs \<noteq> [] \<and> (\<forall>x \<in> set vs. hashable x))"
    if kv: "map_of d k = Some v" for k v
  proof -
    obtain vs where vs: "op_key ?a ?b f k = Inr vs" and h: "\<forall>x \<in> set vs. hashable x"
      using key by blast
    from kv look2 [OF vs] have "k \<in> fst ` set ?a \<union> fst ` set ?b" "vs \<noteq> []" "v = PList vs"
      by (auto split: if_splits)
    with h show ?thesis by (auto simp: dkeys_get_slice)
  qed
  ultimately show ?thesis using d look(2) by blast
qed


section \<open>Abstract specification of a difference\<close>

text \<open>The set of values an attribute must have, given the wanted and the found set.\<close>

definition goal_vals :: "pyval \<Rightarrow> (nat \<times> int \<times> string) set \<Rightarrow> (nat \<times> int \<times> string) set \<Rightarrow>
    (nat \<times> int \<times> string) set" where
  "goal_vals st want found =
     (if st = PStr ''exact'' then want
      else if st = PStr ''absent'' then found - want
      else found \<union> want)"

text \<open>What a server that honours \<open>addattr\<close> and \<open>delattr\<close> makes of the found set.\<close>

definition patched_vals :: "changes \<Rightarrow> pydict \<Rightarrow> string \<Rightarrow> (nat \<times> int \<times> string) set" where
  "patched_vals c found k =
     (attr_vals found k \<union> attr_vals (list_add c) k) - attr_vals (list_del c) k"

definition changes_empty :: "changes \<Rightarrow> bool" where
  "changes_empty c \<longleftrightarrow> scalars c = [] \<and> list_add c = [] \<and> list_del c = []"

text \<open>Every scalar the difference may touch has an entry in \<open>argument_spec\<close>.\<close>

definition spec_covers :: "self \<Rightarrow> pydict \<Rightarrow> pydict \<Rightarrow> bool" where
  "spec_covers s ch cu \<longleftrightarrow>
     (\<forall>k. dhas ch k \<longrightarrow> dhas (argument_spec s) k) \<and>
     (state s = PStr ''exact'' \<longrightarrow> (\<forall>k. dhas cu k \<longrightarrow> dhas (argument_spec s) k))"

lemma compute_changes_list_add:
  assumes "compute_changes s ch cu = Inr c" and "lists_ok s ch" and "lists_ok s cu"
  shows "attr_vals (list_add c) k =
     (if is_list_param s k \<and> state s \<noteq> PStr ''absent''
      then attr_vals ch k - attr_vals cu k else {})"
proof (cases "state s = PStr ''absent''")
  case True
  with assms(1) show ?thesis
    by (auto simp: compute_changes_def Let_def err_simps)
next
  case False
  from op_dict_slices [OF assms(2,3), of Difference]
  obtain d where "op_dict (fst (get_slice s ch)) (fst (get_slice s cu)) Difference = Inr d"
    "\<forall>k. attr_vals d k = (if is_list_param s k then attr_vals ch k - attr_vals cu k else {})"
    by auto
  with False assms(1) show ?thesis
    by (auto simp: compute_changes_def Let_def err_simps)
qed

lemma compute_changes_list_del:
  assumes "compute_changes s ch cu = Inr c" and "lists_ok s ch" and "lists_ok s cu"
  shows "attr_vals (list_del c) k =
     (if \<not> is_list_param s k then {}
      else if state s = PStr ''exact'' then attr_vals cu k - attr_vals ch k
      else if state s = PStr ''absent'' then attr_vals ch k \<inter> attr_vals cu k
      else {})"
proof -
  from op_dict_slices [OF assms(3,2), of Difference]
  obtain d where d: "op_dict (fst (get_slice s cu)) (fst (get_slice s ch)) Difference = Inr d"
    "\<forall>k. attr_vals d k = (if is_list_param s k then attr_vals cu k - attr_vals ch k else {})"
    by auto
  from op_dict_slices [OF assms(2,3), of Intersection]
  obtain e where e: "op_dict (fst (get_slice s ch)) (fst (get_slice s cu)) Intersection = Inr e"
    "\<forall>k. attr_vals e k = (if is_list_param s k then attr_vals ch k \<inter> attr_vals cu k else {})"
    by auto
  show ?thesis
    using assms(1) d e
    by (auto simp: compute_changes_def Let_def err_simps split: if_splits)
qed

lemma map_of_empty_iff: "d = [] \<longleftrightarrow> (\<forall>k. map_of d k = None)"
  by (cases d) auto

text \<open>Both list dictionaries hold non-empty lists of list parameters only.\<close>

definition list_changes_ok :: "self \<Rightarrow> pydict \<Rightarrow> bool" where
  "list_changes_ok s d \<longleftrightarrow> wf_dict d \<and>
     (\<forall>k v. map_of d k = Some v \<longrightarrow> is_list_param s k \<and>
        (\<exists>vs. v = PList vs \<and> vs \<noteq> [] \<and> (\<forall>x \<in> set vs. hashable x)))"

lemma list_changes_ok_Nil [simp]: "list_changes_ok s []"
  by (simp add: list_changes_ok_def)

lemma list_changes_ok_empty_iff:
  assumes "list_changes_ok s d"
  shows "d = [] \<longleftrightarrow> (\<forall>k. attr_vals d k = {})"
proof
  assume none: "\<forall>k. attr_vals d k = {}"
  have "map_of d k = None" for k
  proof (rule ccontr)
    assume "map_of d k \<noteq> None"
    then obtain v where v: "map_of d k = Some v" by blast
    with assms obtain vs where "v = PList vs" "vs \<noteq> []"
      unfolding list_changes_ok_def by blast
    with v have "attr_vals d k \<noteq> {}" by (simp add: attr_vals_def attr_list_def)
    with none show False by blast
  qed
  then show "d = []" by (simp add: map_of_empty_iff)
qed simp

lemma compute_changes_lists_ok:
  assumes "compute_changes s ch cu = Inr c" and "lists_ok s ch" and "lists_ok s cu"
  shows "list_changes_ok s (list_add c)" and "list_changes_ok s (list_del c)"
proof -
  note ops = op_dict_slices [OF assms(2,3), of Difference]
    op_dict_slices [OF assms(3,2), of Difference]
    op_dict_slices [OF assms(2,3), of Intersection]
  show "list_changes_ok s (list_add c)"
    using assms(1) ops(1)
    by (cases "state s = PStr ''absent''")
      (auto simp: compute_changes_def Let_def err_simps list_changes_ok_def)
  show "list_changes_ok s (list_del c)"
    using assms(1) ops(2,3)
    by (cases "state s = PStr ''absent''"; cases "state s = PStr ''exact''")
      (auto simp: compute_changes_def Let_def err_simps list_changes_ok_def)
qed

section \<open>Scalars\<close>

lemma scalar_keys_iff:
  "k \<in> set (scalar_keys s ch cu) \<longleftrightarrow> \<not> is_list_param s k \<and>
     (dhas ch k \<and> (\<not> dhas cu k \<or> \<not> py_eq (dget ch k PNone) (dget cu k PNone)) \<or>
      state s = PStr ''exact'' \<and> \<not> dhas ch k \<and> dhas cu k \<and> \<not> has_default s k)"
  by (auto simp: scalar_keys_def Let_def dkeys_get_slice map_of_eq_None_iff)

lemma compute_changes_scalarsD:
  "compute_changes s ch cu = Inr c \<Longrightarrow> scalar_changes s ch cu = Inr (scalars c)"
  by (auto simp: compute_changes_def Let_def err_simps)

lemma spec_default_no_default:
  "spec_default s k = Inr v \<Longrightarrow> \<not> has_default s k \<Longrightarrow> v = PNone"
  by (auto simp: spec_default_def has_default_def err_simps split: option.splits)

lemma spec_default_total: "dhas (argument_spec s) k \<Longrightarrow> \<exists>v. spec_default s k = Inr v"
  by (auto simp: spec_default_def dindex_def)

theorem compute_changes_scalars:
  assumes "compute_changes s ch cu = Inr c" and "state s \<noteq> PStr ''absent''"
  shows "map_of (scalars c) k =
     (if is_list_param s k then None
      else case map_of ch k of
             Some v \<Rightarrow> (case map_of cu k of
                          Some w \<Rightarrow> if py_eq v w then None else Some v
                        | None \<Rightarrow> Some v)
           | None \<Rightarrow> if state s = PStr ''exact'' \<and> dhas cu k \<and> \<not> has_default s k
                     then Some PNone else None)"
proof -
  let ?ks = "scalar_keys s ch cu"
  from compute_changes_scalarsD [OF assms(1)] assms(2)
  have st: "efold (store_step (spec_default s) (\<lambda>k. k) (\<lambda>k dflt. dget ch k dflt)) ?ks []
      = Inr (scalars c)"
    by (simp add: scalar_changes_def)
  note look = efold_store [OF st]
  show ?thesis
  proof (cases "k \<in> set ?ks")
    case True
    then obtain d where d: "spec_default s k = Inr d" using look(2) by blast
    with True look(1) [of k] have "map_of (scalars c) k = Some (dget ch k d)" by simp
    with True d show ?thesis
      by (auto simp: scalar_keys_iff dget_def dest: spec_default_no_default split: option.splits)
  next
    case False
    with look(1) [of k] have "map_of (scalars c) k = None" by simp
    with False show ?thesis
      by (auto simp: scalar_keys_iff dget_def split: option.splits)
  qed
qed

theorem compute_changes_scalars_absent:
  assumes "compute_changes s ch cu = Inr c" and "state s = PStr ''absent''" and "wf_dict ch"
  shows "map_of (scalars c) k =
     (case map_of ch k of
        Some v \<Rightarrow>
          if \<not> is_list_param s k \<and> py_eq v (dget cu k PNone) then Some (default_value s k) else None
      | None \<Rightarrow> None)"
proof -
  let ?us = "snd (get_slice s cu)" and ?cs = "snd (get_slice s ch)"
  let ?ks = "dkeys (filter (\<lambda>(k, v). py_eq v (dget ?us k PNone)) ?cs)"
  from compute_changes_scalarsD [OF assms(1)] assms(2)
  have st: "efold (store_step (spec_default s) (\<lambda>k. k) (\<lambda>k dflt. dflt)) ?ks [] = Inr (scalars c)"
    by (simp add: scalar_changes_def)
  have mem: "k \<in> set ?ks \<longleftrightarrow>
      (\<exists>v. map_of ch k = Some v \<and> \<not> is_list_param s k \<and> py_eq v (dget cu k PNone))"
  proof -
    have "k \<in> set ?ks \<longleftrightarrow> (\<exists>v. (k, v) \<in> set ?cs \<and> py_eq v (dget ?us k PNone))"
      by force
    then show ?thesis
      using assms(3) by (auto simp: wf_dict_map_of dget_def)
  qed
  have "spec_default s k = Inr (default_value s k)" if "k \<in> set ?ks"
    using efold_store(2) [OF st] that
    by (fastforce simp: spec_default_def default_value_def dindex_def err_simps split: option.splits)
  then show ?thesis using efold_store(1) [OF st, of k] mem by (auto split: option.splits)
qed

text \<open>A difference can always be computed when the keys have specifications.\<close>

theorem compute_changes_total:
  assumes "lists_ok s ch" and "lists_ok s cu" and "spec_covers s ch cu"
  shows "\<exists>c. compute_changes s ch cu = Inr c"
proof -
  have new: "\<forall>k \<in> set (scalar_keys s ch cu). \<exists>v. spec_default s k = Inr v"
    using assms(3) by (auto simp: scalar_keys_iff spec_covers_def intro!: spec_default_total)
  have old: "\<forall>k \<in> set (dkeys (filter P (snd (get_slice s ch)))). \<exists>v. spec_default s k = Inr v" for P
  proof
    fix k assume "k \<in> set (dkeys (filter P (snd (get_slice s ch))))"
    then have "k \<in> fst ` set (snd (get_slice s ch))" by auto
    then have "k \<in> fst ` set ch" by (simp add: dkeys_get_slice)
    then have "dhas ch k" by (simp only: dhas_iff)
    with assms(3) show "\<exists>v. spec_default s k = Inr v"
      by (simp add: spec_covers_def spec_default_total)
  qed
  have "\<exists>sc. scalar_changes s ch cu = Inr sc"
    using efold_store_total [OF new] efold_store_total [OF old]
    unfolding scalar_changes_def by (cases "state s = PStr ''absent''") (simp_all only: simp_thms if_True if_False)
  moreover obtain a d i where
    "op_dict (fst (get_slice s ch)) (fst (get_slice s cu)) Difference = Inr a"
    "op_dict (fst (get_slice s cu)) (fst (get_slice s ch)) Difference = Inr d"
    "op_dict (fst (get_slice s ch)) (fst (get_slice s cu)) Intersection = Inr i"
    using op_dict_slices [OF assms(1,2)] op_dict_slices [OF assms(2,1)] by meson
  ultimately show ?thesis by (auto simp: compute_changes_def Let_def)
qed

lemma patched_goal:
  assumes "compute_changes s ch cu = Inr c"
    and "lists_ok s ch" and "lists_ok s cu" and "is_list_param s k"
  shows "patched_vals c cu k = goal_vals (state s) (attr_vals ch k) (attr_vals cu k)"
  using assms compute_changes_list_add [OF assms(1-3), of k]
    compute_changes_list_del [OF assms(1-3), of k]
  by (auto simp: patched_vals_def goal_vals_def)

text \<open>C3: For every list attribute, adding the values of \<open>list_add\<close> to the found set and removing
  those of \<open>list_del\<close> gives exactly what \<open>state\<close> asks for: the union with the wanted values
  (\<open>present\<close>, \<open>enabled\<close>, \<open>disabled\<close>), the wanted values (\<open>exact\<close>), or the found
  values without them (\<open>absent\<close>).\<close>

theorem compute_changes_reaches_goal:
  assumes "compute_changes s ch cu = Inr c"
    and "lists_ok s ch" and "lists_ok s cu" and "is_list_param s k"
  shows "patched_vals c cu k = goal_vals (state s) (attr_vals ch k) (attr_vals cu k)"
  using assms by (rule patched_goal)

section \<open>Nothing to change\<close>

lemma scalars_empty_iff:
  assumes "compute_changes s ch cu = Inr c" and "wf_dict ch"
  shows "scalars c = [] \<longleftrightarrow>
    (\<forall>k v. map_of ch k = Some v \<longrightarrow> \<not> is_list_param s k \<longrightarrow>
        (if state s = PStr ''absent'' then \<not> py_eq v (dget cu k PNone)
         else \<exists>w. map_of cu k = Some w \<and> py_eq v w)) \<and>
    (state s = PStr ''exact'' \<longrightarrow>
      (\<forall>k. dhas cu k \<longrightarrow> \<not> is_list_param s k \<longrightarrow> dhas ch k \<or> has_default s k))"
proof (cases "state s = PStr ''absent''")
  case True
  then show ?thesis
    unfolding map_of_empty_iff compute_changes_scalars_absent [OF assms(1) True assms(2)]
    by (force split: option.splits if_splits)
next
  case False
  then show ?thesis
    unfolding map_of_empty_iff compute_changes_scalars [OF assms(1) False]
    by (force split: option.splits if_splits)
qed

lemma list_changes_empty_iff:
  assumes "compute_changes s ch cu = Inr c" and "lists_ok s ch" and "lists_ok s cu"
  shows "list_add c = [] \<and> list_del c = [] \<longleftrightarrow>
    (\<forall>k. is_list_param s k \<longrightarrow>
        goal_vals (state s) (attr_vals ch k) (attr_vals cu k) = attr_vals cu k)"
proof -
  note ok = compute_changes_lists_ok [OF assms]
  have "list_add c = [] \<and> list_del c = [] \<longleftrightarrow>
      (\<forall>k. attr_vals (list_add c) k = {} \<and> attr_vals (list_del c) k = {})"
    using list_changes_ok_empty_iff [OF ok(1)] list_changes_ok_empty_iff [OF ok(2)] by blast
  also have "\<dots> \<longleftrightarrow> (\<forall>k. is_list_param s k \<longrightarrow>
        goal_vals (state s) (attr_vals ch k) (attr_vals cu k) = attr_vals cu k)"
    unfolding compute_changes_list_add [OF assms] compute_changes_list_del [OF assms]
    by (auto simp: goal_vals_def)
  finally show ?thesis .
qed

text \<open>C4: In every state the difference is empty exactly when the found attributes already are what
  \<open>state\<close> asks for: every list attribute has its goal set, every wanted scalar is found with an equal
  value (with \<open>absent\<close>: none is), and for \<open>exact\<close> no other scalar without a default is found. List
  attributes hold lists of hashable values, and no attribute is wanted twice.\<close>

theorem compute_changes_empty_iff:
  assumes "compute_changes s ch cu = Inr c" and "wf_dict ch"
    and "lists_ok s ch" and "lists_ok s cu"
  shows "changes_empty c \<longleftrightarrow>
    (\<forall>k. is_list_param s k \<longrightarrow>
        goal_vals (state s) (attr_vals ch k) (attr_vals cu k) = attr_vals cu k) \<and>
    (\<forall>k v. map_of ch k = Some v \<longrightarrow> \<not> is_list_param s k \<longrightarrow>
        (if state s = PStr ''absent'' then \<not> py_eq v (dget cu k PNone)
         else \<exists>w. map_of cu k = Some w \<and> py_eq v w)) \<and>
    (state s = PStr ''exact'' \<longrightarrow>
      (\<forall>k. dhas cu k \<longrightarrow> \<not> is_list_param s k \<longrightarrow> dhas ch k \<or> has_default s k))"
  using list_changes_empty_iff [OF assms(1,3,4)] scalars_empty_iff [OF assms(1,2)]
  by (simp add: changes_empty_def conj_ac)

text \<open>
  The found attributes after a server applied a difference: lists are patched, scalars are set and
  those set to \<open>None\<close> are gone.
\<close>

definition applied :: "self \<Rightarrow> changes \<Rightarrow> pydict \<Rightarrow> pydict \<Rightarrow> bool" where
  "applied s c before after \<longleftrightarrow> lists_ok s after \<and>
     (\<forall>k. is_list_param s k \<longrightarrow> attr_vals after k = patched_vals c before k) \<and>
     (\<forall>k. \<not> is_list_param s k \<longrightarrow>
        map_of after k = (case map_of (scalars c) k of
                            None \<Rightarrow> map_of before k
                          | Some v \<Rightarrow> if v = PNone then None else Some v))"

lemma py_eq_None: "py_eq v PNone \<longleftrightarrow> v = PNone"
  by (cases v) auto

lemma applied_scalar:
  assumes "applied s c before after" and "\<not> is_list_param s k"
  shows "map_of after k = (case map_of (scalars c) k of
    None \<Rightarrow> map_of before k | Some v \<Rightarrow> if v = PNone then None else Some v)"
  using assms by (simp add: applied_def)

text \<open>The scalars of a difference are gone once it is applied.\<close>

lemma applied_scalars:
  assumes first: "compute_changes s ch cu = Inr c" and wf: "wf_dict ch"
    and vals: "\<forall>k v. map_of ch k = Some v \<longrightarrow> v \<noteq> PNone \<and> wf_val v"
    and resets: "state s = PStr ''absent'' \<longrightarrow> (\<forall>k v. map_of ch k = Some v \<longrightarrow>
        \<not> is_list_param s k \<longrightarrow> \<not> py_eq v (default_value s k))"
    and after: "applied s c cu cu'" and second: "compute_changes s ch cu' = Inr c'"
  shows "scalars c' = []"
proof (cases "state s = PStr ''absent''")
  case True
  have "\<not> py_eq v (dget cu' k PNone)" if "map_of ch k = Some v" "\<not> is_list_param s k" for k v
    using that vals resets True applied_scalar [OF after that(2)]
    by (auto simp: compute_changes_scalars_absent [OF first True wf] dget_def py_eq_None
        split: option.splits if_splits)
  with True show ?thesis by (simp add: scalars_empty_iff [OF second wf])
next
  case False
  have "\<exists>w. map_of cu' k = Some w \<and> py_eq v w" if "map_of ch k = Some v" "\<not> is_list_param s k" for k v
    using that vals applied_scalar [OF after that(2)] py_eq_refl(1) [of v]
    by (auto simp: compute_changes_scalars [OF first False] split: option.splits)
  moreover have "dhas ch k \<or> has_default s k"
    if "state s = PStr ''exact''" "dhas cu' k" "\<not> is_list_param s k" for k
    using that applied_scalar [OF after that(3)]
    by (auto simp: compute_changes_scalars [OF first False] split: option.splits if_splits)
  ultimately show ?thesis using False by (simp add: scalars_empty_iff [OF second wf])
qed

text \<open>C2: Convergence, in every state: once a server has applied the computed difference, computing it
  again against the new attributes gives nothing to do. With \<open>absent\<close> an attribute is reset to its
  default, so there no wanted scalar may equal the default of its attribute: it would be reset again
  for ever.\<close>

theorem compute_changes_converges:
  assumes first: "compute_changes s ch cu = Inr c" and wf: "wf_dict ch"
    and ok: "lists_ok s ch" "lists_ok s cu"
    and vals: "\<forall>k v. map_of ch k = Some v \<longrightarrow> v \<noteq> PNone \<and> wf_val v"
    and resets: "state s = PStr ''absent'' \<longrightarrow> (\<forall>k v. map_of ch k = Some v \<longrightarrow>
        \<not> is_list_param s k \<longrightarrow> \<not> py_eq v (default_value s k))"
    and after: "applied s c cu cu'"
    and second: "compute_changes s ch cu' = Inr c'"
  shows "changes_empty c'"
proof -
  have ok': "lists_ok s cu'" using after by (simp add: applied_def)
  have "goal_vals (state s) (attr_vals ch k) (attr_vals cu' k) = attr_vals cu' k"
    if "is_list_param s k" for k
    using that after patched_goal [OF first ok that]
    by (auto simp: applied_def goal_vals_def)
  then show ?thesis
    using list_changes_empty_iff [OF second ok(1) ok'] applied_scalars [OF first wf vals resets after second]
    by (simp add: changes_empty_def)
qed

section \<open>A difference on concrete attributes\<close>

definition diff_sample :: "string \<Rightarrow> self" where
  "diff_sample st = (new_self IPAClient_class)\<lparr>
     argument_spec := [(''user'', kwarg ''list'' False), (''desc'', kwarg ''str'' False)],
     param_data := [(''user'', ''list''), (''desc'', ''str'')], state := PStr st\<rparr>"

definition wanted_sample :: pydict where
  "wanted_sample = [(''user'', PList [PStr ''ann'', PStr ''bob'']), (''desc'', PStr ''new'')]"

definition found_sample :: pydict where
  "found_sample = [(''user'', PList [PStr ''bob'', PStr ''eve'']), (''desc'', PStr ''old'')]"

text \<open>What is found, and what is left of it, where the wanted attributes are to be taken away.\<close>

definition before_sample :: pydict where
  "before_sample = [(''user'', PList [PStr ''bob'', PStr ''eve'']), (''desc'', PStr ''new'')]"

definition reset_sample :: pydict where
  "reset_sample = [(''user'', PList [PStr ''eve''])]"

definition patched_sample :: pydict where
  "patched_sample = [(''user'', PList [PStr ''bob'', PStr ''ann'']), (''desc'', PStr ''new'')]"

lemma diff_sample_exact:
  "compute_changes (diff_sample ''exact'') wanted_sample found_sample =
     Inr \<lparr>scalars = [(''desc'', PStr ''new'')], list_add = [(''user'', PList [PStr ''ann''])],
          list_del = [(''user'', PList [PStr ''eve''])]\<rparr>"
  by code_simp

lemma diff_sample_again:
  "compute_changes (diff_sample ''exact'') wanted_sample patched_sample =
     Inr \<lparr>scalars = [], list_add = [], list_del = []\<rparr>"
  by code_simp

lemma diff_sample_lists:
  "lists_ok (diff_sample st) wanted_sample" "lists_ok (diff_sample st) found_sample"
  "lists_ok (diff_sample st) patched_sample"
  by (auto simp: lists_ok_def wanted_sample_def found_sample_def patched_sample_def diff_sample_def
      is_list_param_def split: if_splits)

lemma diff_sample_state: "state (diff_sample st) = PStr st"
  by (simp add: diff_sample_def)

theorem compute_changes_reaches_goal_witness:
  "patched_vals \<lparr>scalars = [(''desc'', PStr ''new'')], list_add = [(''user'', PList [PStr ''ann''])],
          list_del = [(''user'', PList [PStr ''eve''])]\<rparr> found_sample ''user'' =
     attr_vals wanted_sample ''user''"
  using compute_changes_reaches_goal [OF diff_sample_exact diff_sample_lists(1,2), of "''user''"]
  by (simp add: diff_sample_state goal_vals_def) (simp add: is_list_param_def diff_sample_def)

theorem compute_changes_empty_iff_witness:
  "changes_empty \<lparr>scalars = [], list_add = [], list_del = []\<rparr> \<and>
     attr_vals wanted_sample ''user'' = attr_vals patched_sample ''user''"
proof -
  have e: "changes_empty \<lparr>scalars = [], list_add = [], list_del = []\<rparr>"
    by (simp add: changes_empty_def)
  moreover have "is_list_param (diff_sample ''exact'') ''user''"
    by (simp add: is_list_param_def diff_sample_def)
  moreover have "goal_vals (PStr ''exact'') A B = A" for A B :: "(nat \<times> int \<times> string) set"
    by (simp add: goal_vals_def)
  ultimately show ?thesis
    using compute_changes_empty_iff [OF diff_sample_again _ diff_sample_lists(1,3)]
    by (simp add: diff_sample_state wanted_sample_def [THEN arg_cong, of wf_dict])
qed

lemma diff_sample_absent:
  "compute_changes (diff_sample ''absent'') wanted_sample before_sample =
     Inr \<lparr>scalars = [(''desc'', PNone)], list_add = [], list_del = [(''user'', PList [PStr ''bob''])]\<rparr>"
  "compute_changes (diff_sample ''absent'') wanted_sample reset_sample =
     Inr \<lparr>scalars = [], list_add = [], list_del = []\<rparr>"
  by code_simp+

theorem compute_changes_converges_witness:
  "changes_empty \<lparr>scalars = [], list_add = [], list_del = []\<rparr>"
proof (rule compute_changes_converges [OF diff_sample_absent(1) _ _ _ _ _ _ diff_sample_absent(2)])
  let ?c = "\<lparr>scalars = [(''desc'', PNone)], list_add = [], list_del = [(''user'', PList [PStr ''bob''])]\<rparr>"
  have user: "is_list_param (diff_sample ''absent'') k \<longleftrightarrow> k = ''user''" for k
    by (simp add: is_list_param_def diff_sample_def)
  show "wf_dict wanted_sample" by (simp add: wanted_sample_def)
  show "lists_ok (diff_sample ''absent'') wanted_sample" by (rule diff_sample_lists)
  show "lists_ok (diff_sample ''absent'') before_sample"
    by (auto simp: lists_ok_def before_sample_def user split: if_splits)
  show "\<forall>k v. map_of wanted_sample k = Some v \<longrightarrow> v \<noteq> PNone \<and> wf_val v"
    by (simp add: wanted_sample_def)
  show "state (diff_sample ''absent'') = PStr ''absent'' \<longrightarrow> (\<forall>k v. map_of wanted_sample k = Some v \<longrightarrow>
      \<not> is_list_param (diff_sample ''absent'') k \<longrightarrow> \<not> py_eq v (default_value (diff_sample ''absent'') k))"
    by (auto simp: user wanted_sample_def default_value_def diff_sample_def kwarg_def split: if_splits)
  have "attr_vals reset_sample ''user'' = {(2, 0, ''eve'')}"
    "attr_vals before_sample ''user'' = {(2, 0, ''bob''), (2, 0, ''eve'')}"
    by (simp_all add: attr_vals_def attr_list_def reset_sample_def before_sample_def)
  then show "applied (diff_sample ''absent'') ?c before_sample reset_sample"
    by (auto simp: applied_def user lists_ok_def reset_sample_def before_sample_def patched_vals_def
        attr_vals_def attr_list_def split: if_splits)
qed

end
