(* ===== verification/IPA_Session.thy ===== *)
theory IPA_Session
  imports IPA_Diff
begin

text \<open>
  \<open>lib/python/ipa.py\<close>, the conversation with the IPA server: \<open>login\<close>, \<open>_fail\<close>,
  \<open>_post_json\<close> and \<open>find\<close>. The transport (\<open>fetch_url\<close> of Ansible and the server behind
  it) is code outside the repository: a parameter that maps the server's state and a request to a
  reply and a new state. Every request the module sends is recorded in order.
\<close>

section \<open>URL quoting\<close>

text \<open>\<open>urllib.quote(s, safe='')\<close>: letters, digits and \<open>_.-\<close> are kept.\<close>

definition unreserved :: "char \<Rightarrow> bool" where
  "unreserved c \<longleftrightarrow> (let n = (of_char c :: nat) in
     48 \<le> n \<and> n \<le> 57 \<or> 65 \<le> n \<and> n \<le> 90 \<or> 97 \<le> n \<and> n \<le> 122 \<or>
     n = 95 \<or> n = 46 \<or> n = 45)"

definition hex_digit :: "nat \<Rightarrow> char" where
  "hex_digit n = (if n < 10 then char_of (48 + n) else char_of (55 + n))"

definition hex_val :: "char \<Rightarrow> nat" where
  "hex_val c = (let n = of_char c in if n < 58 then n - 48 else n - 55)"

definition quote_char :: "char \<Rightarrow> string" where
  "quote_char c = (if unreserved c then [c]
     else [CHR ''%'', hex_digit (of_char c div 16), hex_digit (of_char c mod 16)])"

definition quote :: "string \<Rightarrow> string" where
  "quote s = concat (map quote_char s)"

text \<open>The inverse a server applies to a form field.\<close>

fun unquote :: "string \<Rightarrow> string" where
  "unquote [] = []"
| "unquote (c # cs) =
     (if c = CHR ''%'' then
        (case cs of
           a # b # rest \<Rightarrow> char_of (16 * hex_val a + hex_val b) # unquote rest
         | _ \<Rightarrow> c # unquote cs)
      else c # unquote cs)"

fun quote_val :: "pyval \<Rightarrow> exit + string" where
  "quote_val (PStr s) = Inr (quote s)"
| "quote_val PNone = Inl (Raise (TypeError ''None object cannot be quoted''))"
| "quote_val _ = Inl (Raise (OutOfModel ''quote of a value that is no string''))"

lemma hex_roundtrip: "n < 16 \<Longrightarrow> hex_val (hex_digit n) = n"
  by (auto simp: hex_digit_def hex_val_def Let_def)

lemma unreserved_not_percent: "unreserved c \<Longrightarrow> c \<noteq> CHR ''%''"
  by (auto simp: unreserved_def)

lemma unquote_quote_append: "unquote (quote s @ t) = s @ unquote t"
proof (induction s)
  case (Cons c s)
  have "char_of (16 * ((of_char c :: nat) div 16) + of_char c mod 16) = c"
    by (simp only: mult_div_mod_eq char_of_char)
  then show ?case
    using Cons unreserved_not_percent [of c] of_char_div16 [of c]
    by (auto simp: quote_def quote_char_def hex_roundtrip)
qed (simp add: quote_def)

lemma unquote_quote: "unquote (quote s) = s"
  using unquote_quote_append [of s "[]"] by simp

lemma hex_digit_unreserved: "n < 16 \<Longrightarrow> unreserved (hex_digit n)"
  by (auto simp: hex_digit_def unreserved_def Let_def)

lemma quote_chars: "c \<in> set (quote s) \<Longrightarrow> unreserved c \<or> c = CHR ''%''"
proof -
  have q: "unreserved c \<or> c = CHR ''%''" if "c \<in> set (quote_char x)" for x
    using that of_char_div16 [of x]
    by (auto simp: quote_char_def hex_digit_unreserved split: if_splits)
  assume "c \<in> set (quote s)"
  then show ?thesis using q by (auto simp: quote_def)
qed

section \<open>The transport\<close>

datatype http_body = FormBody string | JsonBody pyval

record http_request =
  q_url :: string
  q_body :: http_body
  q_headers :: "pydict option"
  q_timeout :: int

text \<open>
  A reply is an exception's text, or a status, the message of \<open>info\<close>, the decoded JSON
  document (\<open>None\<close> where \<open>json.loads\<close> raises) and the \<open>Set-Cookie\<close> header.
\<close>

datatype http_reply = HttpRaise string | HttpReply int string "pyval option" pyval

type_synonym 'w fetch = "'w \<Rightarrow> http_request \<Rightarrow> http_reply \<times> 'w"

record 'w net =
  server :: 'w
  sent :: "http_request list"

definition fetch_url :: "'w fetch \<Rightarrow> http_request \<Rightarrow> 'w net \<Rightarrow> http_reply \<times> 'w net" where
  "fetch_url fetch q n =
     (let (r, w) = fetch (server n) q in (r, n\<lparr>server := w, sent := sent n @ [q]\<rparr>))"

lemma sent_fetch_url: "fetch_url fetch q n = (r, n') \<Longrightarrow> sent n' = sent n @ [q]"
  by (auto simp: fetch_url_def Let_def split: prod.splits)

section \<open>Failing\<close>

text \<open>
  \<open>_fail\<close>: \<open>'message' in e\<close> is a key test on a dictionary but a substring test on a string,
  and the \<open>e.get\<close> that follows does not exist on a string.
\<close>

definition fail_with :: "pyval \<Rightarrow> pyval \<Rightarrow> exit" where
  "fail_with msg e =
     (case py_in (PStr ''message'') e of
        Inl x \<Rightarrow> x
      | Inr True \<Rightarrow> (case py_get e ''message'' PNone of Inl x \<Rightarrow> x
                    | Inr v \<Rightarrow> FailJson (Some msg) v)
      | Inr False \<Rightarrow> FailJson (Some msg) e)"

text \<open>\<open>except Exception: self._fail(msg, str(e))\<close> around a body that ended in an exit.\<close>

fun except_fail :: "pyval \<Rightarrow> exit \<Rightarrow> exit" where
  "except_fail msg (Raise e) = fail_with msg (PStr (exc_str e))"
| "except_fail msg (FailJson m v) = FailJson m v"

definition status_ok :: "int \<Rightarrow> bool" where
  "status_ok st \<longleftrightarrow> st \<in> {200, 201, 204}"

section \<open>Login\<close>

definition get_base_url :: "self \<Rightarrow> exit + string" where
  "get_base_url s =
     ebind (fmt_s (protocol s)) (\<lambda>p. ebind (fmt_s (host s)) (\<lambda>h. Inr (p @ ''://'' @ h @ ''/ipa'')))"

definition get_json_url :: "self \<Rightarrow> exit + string" where
  "get_json_url s = ebind (get_base_url s) (\<lambda>u. Inr (u @ ''/session/json''))"

definition login_request :: "self \<Rightarrow> exit + http_request" where
  "login_request s =
     ebind (get_base_url s) (\<lambda>base.
     ebind (quote_val (username s)) (\<lambda>u.
     ebind (quote_val (password s)) (\<lambda>p.
       Inr \<lparr>q_url = base @ ''/session/login_password'',
            q_body = FormBody (''user='' @ u @ ''&password='' @ p),
            q_headers = Some [(''referer'', PStr base),
              (''Content-Type'', PStr ''application/x-www-form-urlencoded''),
              (''Accept'', PStr ''text/plain'')],
            q_timeout = 10\<rparr>)))"

definition session_headers :: "string \<Rightarrow> pyval \<Rightarrow> pydict" where
  "session_headers base cookie =
     [(''referer'', PStr base), (''Content-Type'', PStr ''application/json''),
      (''Accept'', PStr ''application/json''), (''Cookie'', cookie)]"

definition login :: "'w fetch \<Rightarrow> self \<Rightarrow> 'w net \<Rightarrow> (exit + unit) \<times> self \<times> 'w net" where
  "login fetch s n =
     (case login_request s of
        Inl x \<Rightarrow> (Inl x, s, n)
      | Inr q \<Rightarrow>
          (case fetch_url fetch q n of
             (HttpRaise m, n') \<Rightarrow> (Inl (fail_with (PStr ''login'') (PStr m)), s, n')
           | (HttpReply st msg doc cookie, n') \<Rightarrow>
               if \<not> status_ok st then
                 (Inl (except_fail (PStr ''login'') (fail_with (PStr ''login'') (PStr msg))), s, n')
               else
                 (case get_base_url s of
                    Inl x \<Rightarrow> (Inl (except_fail (PStr ''login'') x), s, n')
                  | Inr base \<Rightarrow>
                      (Inr (), s\<lparr>headers := Some (session_headers base cookie)\<rparr>, n'))))"

section \<open>Posting a JSON request\<close>

definition json_request :: "self \<Rightarrow> string \<Rightarrow> request \<Rightarrow> http_request" where
  "json_request s url r =
     \<lparr>q_url = url,
      q_body = JsonBody (PDict [(''method'', PStr (r_method r)),
                                (''params'', PList [PList (r_name r), PDict (r_item r)])]),
      q_headers = headers s,
      q_timeout = fetch_url_timeout (klass s)\<rparr>"

text \<open>What \<open>_post_json\<close> makes of the decoded reply.\<close>

definition select_found :: "hooks \<Rightarrow> self \<Rightarrow> pyval list \<Rightarrow> exit + pyval" where
  "select_found H s result =
     ebind (case h_find_filter H of None \<Rightarrow> Inr result | Some p \<Rightarrow> efilter (p s) result)
       (\<lambda>xs. Inr (if xs \<noteq> [] then last xs else PDict []))"

definition decode_result :: "hooks \<Rightarrow> self \<Rightarrow> string \<Rightarrow> pyval \<Rightarrow> exit + pyval" where
  "decode_result H s m result0 =
     ebind (py_in (PStr ''result'') result0) (\<lambda>inner.
     ebind (if inner then py_get result0 ''result'' PNone else Inr result0) (\<lambda>result.
       case result of
         PList xs \<Rightarrow>
           ebind (dindex (s_methods s) ''find'')
             (\<lambda>fm. if m = fm then select_found H s xs else Inr result)
       | _ \<Rightarrow> Inr result))"

definition decode_reply :: "hooks \<Rightarrow> self \<Rightarrow> string \<Rightarrow> pyval \<Rightarrow> exit + pyval" where
  "decode_reply H s m doc =
     ebind (py_get doc ''error'' PNone) (\<lambda>err.
       if err \<noteq> PNone then Inl (fail_with (PStr (''response '' @ m)) err)
       else
         ebind (py_in (PStr ''result'') doc) (\<lambda>has.
           if has then ebind (py_get doc ''result'' PNone) (decode_result H s m)
           else Inr PNone))"

definition post_json ::
  "'w fetch \<Rightarrow> hooks \<Rightarrow> self \<Rightarrow> request \<Rightarrow> 'w net \<Rightarrow> (exit + pyval) \<times> self \<times> 'w net" where
  "post_json fetch H s r n =
     (let m = r_method r; post_m = PStr (''post '' @ m) in
      case get_json_url s of
        Inl x \<Rightarrow> (Inl x, s, n)
      | Inr url \<Rightarrow>
          (case fetch_url fetch (json_request s url r) n of
             (HttpRaise e, n') \<Rightarrow> (Inl (fail_with post_m (PStr e)), s, n')
           | (HttpReply st msg doc cookie, n') \<Rightarrow>
               if \<not> status_ok st then
                 (Inl (except_fail post_m (fail_with (PStr m) (PStr msg))), s, n')
               else
                 (case doc of
                    None \<Rightarrow> (Inl (Raise (ValueError ''No JSON object could be decoded'')), s, n')
                  | Some d \<Rightarrow>
                      let s' = s\<lparr>responses := dset m d (responses s)\<rparr>
                      in (decode_reply H s' m d, s', n'))))"

section \<open>Finding the object\<close>

definition find_request_params :: "self \<Rightarrow> exit + pyval list" where
  "find_request_params s = Inr []"

definition find_request_item :: "self \<Rightarrow> exit + pydict \<times> self" where
  "find_request_item s =
     Inr (fold (\<lambda>k item. case map_of (params s) k of
                           None \<Rightarrow> item | Some v \<Rightarrow> dset k v item)
            (param_keys (klass s)) [(''all'', PBool True)], s)"

definition find_entry :: "request option \<Rightarrow> pyval option \<Rightarrow> pydict option \<Rightarrow> entry" where
  "find_entry q r c =
     \<lparr>e_name = ''find'', e_request = q, e_response = r, e_response_cleaned = c\<rparr>"

text \<open>Everything \<open>find\<close> computes before it posts: the canonical parameters and the request.\<close>

definition find_prepare :: "hooks \<Rightarrow> self \<Rightarrow> exit + request \<times> self" where
  "find_prepare H s =
     ebind (h_munge_module_params H s) (\<lambda>cp.
       let s1 = s\<lparr>canon_params := cp\<rparr> in
       ebind (dindex (s_methods s1) ''find'') (\<lambda>m.
       ebind (h_find_request_params H s1) (\<lambda>nm.
       ebind (h_find_request_item H s1) (\<lambda>(item, s2).
         Inr (\<lparr>r_method = m, r_name = nm, r_item = item\<rparr>, s2)))))"

text \<open>And after it: the cleaned response and the difference.\<close>

definition find_digest :: "hooks \<Rightarrow> self \<Rightarrow> entry list \<Rightarrow> request \<Rightarrow> pyval \<Rightarrow> exit + self" where
  "find_digest H s before q response =
     (case response of
        PDict d \<Rightarrow>
          ebind (h_munge_response H s d) (\<lambda>(cleaned, left).
          ebind (h_compute_changes H s (canon_params s) cleaned) (\<lambda>df.
            Inr (s\<lparr>requests := before @ [find_entry (Some q) (Some (PDict left)) (Some cleaned)],
                   diffs := df\<rparr>)))
      | _ \<Rightarrow> Inl (Raise (AttributeError ''object has no attribute copy'')))"

definition find_obj :: "'w fetch \<Rightarrow> hooks \<Rightarrow> self \<Rightarrow> 'w net \<Rightarrow> (exit + unit) \<times> self \<times> 'w net" where
  "find_obj fetch H s n =
     (let before = requests s;
          s0 = s\<lparr>requests := before @ [find_entry None None None]\<rparr>
      in case find_prepare H s0 of
           Inl x \<Rightarrow> (Inl x, s0, n)
         | Inr (q, s1) \<Rightarrow>
             let s2 = s1\<lparr>requests := before @ [find_entry (Some q) None None]\<rparr> in
             (case post_json fetch H s2 q n of
                (Inl x, s3, n') \<Rightarrow> (Inl x, s3, n')
              | (Inr response, s3, n') \<Rightarrow>
                  (case find_digest H s3 before q response of
                     Inl x \<Rightarrow> (Inl x, s3, n')
                   | Inr s4 \<Rightarrow> (Inr (), s4, n'))))"

section \<open>Properties of the conversation\<close>

text \<open>C17: The login form carries exactly the two credentials: split at \<open>&\<close> and \<open>=\<close> and
  unquoted, it is the user name and the password, whatever characters they contain.\<close>

theorem login_credentials_readable:
  assumes "login_request s = Inr q" and "username s = PStr u" and "password s = PStr p"
  shows "\<exists>body. q_body q = FormBody body \<and>
    map (\<lambda>f. map unquote (split_on CHR ''='' f)) (split_on CHR ''&'' body) =
      [[''user'', u], [''password'', p]]"
proof -
  have plain: "c \<notin> set (quote t)" if "c \<in> {CHR ''&'', CHR ''=''}" for c t
    using that quote_chars [of c t] by (auto simp: unreserved_def)
  have "split_on CHR ''&'' (''user='' @ quote u @ ''&password='' @ quote p) =
      split_on CHR ''&'' ((''user='' @ quote u) @ CHR ''&'' # (''password='' @ quote p))" by simp
  also have "\<dots> = [''user='' @ quote u, ''password='' @ quote p]"
    unfolding split_on_sep using plain by (simp add: split_on_no_sep_single)
  finally have amp: "split_on CHR ''&'' (''user='' @ quote u @ ''&password='' @ quote p) =
      [''user='' @ quote u, ''password='' @ quote p]" .
  have eq: "split_on CHR ''='' (k @ ''='' @ quote t) = [k, quote t]" if "CHR ''='' \<notin> set k" for k t
    using that plain by (simp add: split_on_append split_on_no_sep_single)
  have "split_on CHR ''='' (''user='' @ quote u) = [''user'', quote u]"
    "split_on CHR ''='' (''password='' @ quote p) = [''password'', quote p]"
    using eq [of "''user''"] eq [of "''password''"] by simp_all
  with amp assms show ?thesis
    by (auto simp: login_request_def err_simps unquote_quote)
qed

definition login_sample :: self where
  "login_sample = (new_self IPAClient_class)\<lparr>protocol := PStr ''https'', host := PStr ''ipa'',
     username := PStr ''a&b'', password := PStr ''x=%y''\<rparr>"

theorem login_credentials_readable_witness:
  "\<exists>q body. login_request login_sample = Inr q \<and> q_body q = FormBody body \<and>
    map (\<lambda>f. map unquote (split_on CHR ''='' f)) (split_on CHR ''&'' body) =
      [[''user'', ''a&b''], [''password'', ''x=%y'']]"
proof -
  obtain q where q: "login_request login_sample = Inr q"
    by (simp add: login_request_def login_sample_def get_base_url_def)
  have "username login_sample = PStr ''a&b''" "password login_sample = PStr ''x=%y''"
    by (simp_all add: login_sample_def)
  from login_credentials_readable [OF q this]
  obtain body where "q_body q = FormBody body"
    "map (\<lambda>f. map unquote (split_on CHR ''='' f)) (split_on CHR ''&'' body) =
      [[''user'', ''a&b''], [''password'', ''x=%y'']]" by (elim exE conjE)
  with q show ?thesis by (intro exI conjI)
qed

text \<open>An error text with the word \<open>message\<close> in it makes \<open>_fail\<close> itself raise.\<close>

theorem fail_with_message_text:
  assumes "is_infix ''message'' e"
  shows "fail_with msg (PStr e) = Raise (AttributeError ''object has no attribute get'')"
  using assms by (simp add: fail_with_def)

theorem fail_with_message_text_witness:
  "fail_with (PStr ''login'') (PStr ''bad message'') =
     Raise (AttributeError ''object has no attribute get'')"
  by (rule fail_with_message_text) code_simp

end
