(* ===== verification/IPA_Change.thy ===== *)
theory IPA_Change
  imports IPA_Session "HOL-Library.Multiset"
begin

text \<open>
  \<open>lib/python/ipa.py\<close>, the change requests: \<open>add_or_mod\<close>, \<open>rem\<close>, the queue, \<open>ensure\<close>
  and \<open>main\<close>; then the contract of a client class (locale \<open>ipa_client\<close>) and what follows
  from it for every client.
\<close>

section \<open>Accessors\<close>

text \<open>\<open>self.requests[0].get('response_cleaned', None)\<close>; the queue starts with the find entry.\<close>

definition response_cleaned :: "self \<Rightarrow> pydict option" where
  "response_cleaned s = (case requests s of [] \<Rightarrow> None | e # _ \<Rightarrow> e_response_cleaned e)"

definition is_absent :: "self \<Rightarrow> bool" where
  "is_absent s \<longleftrightarrow> (case response_cleaned s of None \<Rightarrow> True | Some d \<Rightarrow> d = [])"

definition obj_exists :: "self \<Rightarrow> exit + bool" where
  "obj_exists s =
     ebind (dindex (s_methods s) ''find'') (\<lambda>m.
     ebind (dindex (responses s) m) (\<lambda>find_response.
     ebind (py_get find_response ''result'' (PDict [])) (\<lambda>r.
     ebind (py_get r ''count'' (PInt 0)) (\<lambda>c. Inr (py_gt0 c)))))"

section \<open>Adding and modifying\<close>

definition base_mod_request_params :: "pyval list \<Rightarrow> self \<Rightarrow> exit + pyval list" where
  "base_mod_request_params extra_vals s =
     Inr (map snd (filter (\<lambda>(k, _). dhas (param_data s) k \<and> k \<in> set (param_keys (klass s)))
                     (params s)) @ extra_vals)"

definition attr_string :: "string \<Rightarrow> pyval \<Rightarrow> exit + string" where
  "attr_string k v = ebind (fmt_s v) (\<lambda>t. Inr (k @ ''='' @ t))"

text \<open>
  The list under \<open>key\<close> after one pass of the loop over \<open>item.pop(key).items()\<close>; \<open>None\<close>
  while the key is missing, in which case \<open>item[key].sort()\<close> raises.
\<close>

definition collect_step ::
  "string \<Rightarrow> string \<times> pyval \<Rightarrow> string list option \<Rightarrow> exit + string list option" where
  "collect_step key p acc =
     ebind (py_iter (snd p)) (\<lambda>vs.
     ebind (emap (attr_string (fst p)) vs) (\<lambda>ts.
       case acc of
         None \<Rightarrow> if ts = [] then Inl (Raise (KeyError key)) else Inr (Some (sort ts))
       | Some old \<Rightarrow> Inr (Some (sort (old @ ts)))))"

definition rewrite_key :: "string \<Rightarrow> pydict \<Rightarrow> exit + pydict" where
  "rewrite_key key item =
     (case map_of item key of
        None \<Rightarrow> Inr item
      | Some val \<Rightarrow>
          ebind (py_items val) (\<lambda>d.
          ebind (efold (collect_step key) d None) (\<lambda>r.
            Inr (case r of None \<Rightarrow> ddel key item
                 | Some ts \<Rightarrow> dset key (PList (map PStr ts)) (ddel key item)))))"

definition mod_rewrite_list_changes :: "self \<Rightarrow> request \<Rightarrow> exit + request" where
  "mod_rewrite_list_changes s r =
     ebind (efold rewrite_key
              (filter (\<lambda>k. k = ''addattr'' \<or> k = ''delattr'') (dkeys (r_item r))) (r_item r))
       (\<lambda>item. Inr (r\<lparr>r_item := dset ''all'' (PBool True) item\<rparr>))"

definition in_base :: "self \<Rightarrow> pydict \<Rightarrow> pydict" where
  "in_base s d = filter (\<lambda>(k, _). k \<in> set (base_keys s)) d"

definition opt_dict :: "string \<Rightarrow> pydict \<Rightarrow> pydict" where
  "opt_dict key d = (if d = [] then [] else [(key, PDict d)])"

definition build_item :: "self \<Rightarrow> pydict" where
  "build_item s =
     fold (\<lambda>(k, v). dset k v) (in_base s (scalars (diffs s)))
       (opt_dict ''addattr'' (in_base s (list_add (diffs s))) @
        opt_dict ''delattr'' (in_base s (list_del (diffs s))))"

definition enqueue :: "string \<Rightarrow> request \<Rightarrow> self \<Rightarrow> self" where
  "enqueue nm q s = s\<lparr>requests := requests s @
     [\<lparr>e_name = nm, e_request = Some q, e_response = None, e_response_cleaned = None\<rparr>]\<rparr>"

definition add_or_mod_request :: "hooks \<Rightarrow> self \<Rightarrow> exit + request" where
  "add_or_mod_request H s =
     ebind (dindex (s_methods s) (if is_absent s then ''add'' else ''mod'')) (\<lambda>m.
     ebind (h_mod_request_params H s) (\<lambda>nm.
       h_mod_rewrite H s
         \<lparr>r_method = m, r_name = nm, r_item = dset ''all'' (PBool True) (build_item s)\<rparr>))"

definition add_or_mod :: "hooks \<Rightarrow> change_function" where
  "add_or_mod H s =
     ebind (if build_item s = [] then obj_exists s else Inr False) (\<lambda>skip.
       if skip then Inr (False, s)
       else ebind (add_or_mod_request H s) (\<lambda>q. Inr (False, enqueue ''add_or_mod'' q s)))"

section \<open>Removing\<close>

definition rem_request_cleanup :: "self \<Rightarrow> request \<Rightarrow> request" where
  "rem_request_cleanup s r = r"

definition rem_request_params ::
  "(self \<Rightarrow> exit + pyval list) \<Rightarrow> self \<Rightarrow> exit + pyval list" where
  "rem_request_params mod_params s = mod_params s"

definition rem_request_item :: "self \<Rightarrow> exit + pydict" where
  "rem_request_item s = Inr []"

definition is_rem_param_request :: "self \<Rightarrow> bool" where
  "is_rem_param_request s \<longleftrightarrow> canon_params s \<noteq> []"

definition rem_request :: "hooks \<Rightarrow> self \<Rightarrow> exit + request" where
  "rem_request H s =
     ebind (dindex (s_methods s) ''rem'') (\<lambda>m.
     ebind (h_rem_request_params H (h_mod_request_params H) s) (\<lambda>nm.
     ebind (h_rem_request_item H s) (\<lambda>item.
       Inr (h_rem_request_cleanup H s \<lparr>r_method = m, r_name = nm, r_item = item\<rparr>))))"

definition rem :: "hooks \<Rightarrow> change_function" where
  "rem H s =
     (if state s \<noteq> PStr ''absent'' then Inr (False, s)
      else if h_is_rem_param_request H s then Inr (False, s)
      else if is_absent s then Inr (True, s)
      else if check_mode s then Inr (True, s)
      else ebind (rem_request H s) (\<lambda>q. Inr (True, enqueue ''rem'' q s)))"

section \<open>The queue\<close>

definition get_change_function :: "hooks \<Rightarrow> string \<Rightarrow> exit + change_function" where
  "get_change_function H nm =
     (if nm = ''rem'' then Inr (rem H)
      else if nm = ''add_or_mod'' then Inr (add_or_mod H)
      else case h_own H nm of
             Some f \<Rightarrow> Inr f
           | None \<Rightarrow> Inl (Raise (AttributeError (''object has no attribute '' @ nm))))"

fun queue_loop :: "hooks \<Rightarrow> string list \<Rightarrow> self \<Rightarrow> exit + self" where
  "queue_loop H [] s = Inr s"
| "queue_loop H (nm # nms) s =
     ebind (get_change_function H nm) (\<lambda>f.
     ebind (f s) (\<lambda>(stop, s'). if stop then Inr s' else queue_loop H nms s'))"

definition queue_requests :: "hooks \<Rightarrow> self \<Rightarrow> exit + self" where
  "queue_requests H s = queue_loop H (change_functions (klass s)) s"

text \<open>
  The loop over \<open>self.requests[1:]\<close>: \<open>pre\<close> are the entries already handled; an entry is
  shared with \<open>self.requests\<close>, so storing its response updates the queue.
\<close>

fun process_entries ::
  "'w fetch \<Rightarrow> hooks \<Rightarrow> entry list \<Rightarrow> entry list \<Rightarrow> self \<Rightarrow> 'w net \<Rightarrow> (exit + unit) \<times> self \<times> 'w net" where
  "process_entries fetch H pre [] s n = (Inr (), s, n)"
| "process_entries fetch H pre (e # es) s n =
     (case e_request e of
        None \<Rightarrow> (Inl (Raise (KeyError ''request'')), s, n)
      | Some q \<Rightarrow>
          (case (if check_mode s then (Inr (PDict []), s, n) else post_json fetch H s q n) of
             (Inl x, s', n') \<Rightarrow> (Inl x, s', n')
           | (Inr v, s', n') \<Rightarrow>
               let e' = e\<lparr>e_response := Some v\<rparr>
               in process_entries fetch H (pre @ [e']) es
                    (s'\<lparr>requests := pre @ e' # es, changed := True\<rparr>) n'))"

definition process_queue ::
  "'w fetch \<Rightarrow> hooks \<Rightarrow> self \<Rightarrow> 'w net \<Rightarrow> (exit + unit) \<times> self \<times> 'w net" where
  "process_queue fetch H s n =
     process_entries fetch H (take 1 (requests s)) (drop 1 (requests s)) s n"

section \<open>The main functions\<close>

definition last_response :: "self \<Rightarrow> exit + pyval" where
  "last_response s =
     (if requests s = [] then Inl (Raise (IndexError ''list index out of range''))
      else case e_response (last (requests s)) of
             Some v \<Rightarrow> Inr v
           | None \<Rightarrow> Inl (Raise (KeyError ''response'')))"

definition ensure ::
  "'w fetch \<Rightarrow> hooks \<Rightarrow> self \<Rightarrow> 'w net \<Rightarrow> (exit + bool \<times> pyval) \<times> self \<times> 'w net" where
  "ensure fetch H s n =
     (case find_obj fetch H s n of
        (Inl x, s1, n1) \<Rightarrow> (Inl x, s1, n1)
      | (Inr _, s1, n1) \<Rightarrow>
          (case queue_requests H s1 of
             Inl x \<Rightarrow> (Inl x, s1, n1)
           | Inr s2 \<Rightarrow>
               (case process_queue fetch H s2 n1 of
                  (Inl x, s3, n3) \<Rightarrow> (Inl x, s3, n3)
                | (Inr _, s3, n3) \<Rightarrow>
                    (ebind (last_response s3) (\<lambda>v. Inr (changed s3, v)), s3, n3))))"

datatype outcome = ExitJson bool string pyval | FailOutcome "pyval option" pyval

fun exit_outcome :: "exit \<Rightarrow> outcome" where
  "exit_outcome (Raise e) = FailOutcome None (PStr (exc_str e))"
| "exit_outcome (FailJson m v) = FailOutcome m v"

definition main ::
  "'w fetch \<Rightarrow> hooks \<Rightarrow> self \<Rightarrow> 'w net \<Rightarrow> outcome \<times> self \<times> 'w net" where
  "main fetch H s n =
     (case login fetch s n of
        (Inl x, s1, n1) \<Rightarrow> (exit_outcome x, s1, n1)
      | (Inr _, s1, n1) \<Rightarrow>
          (case ensure fetch H s1 n1 of
             (Inl x, s2, n2) \<Rightarrow> (exit_outcome x, s2, n2)
           | (Inr (ch, obj), s2, n2) \<Rightarrow> (ExitJson ch (cname (klass s2)) obj, s2, n2)))"

text \<open>The body of a module's \<open>main()\<close>: construct the client, run it. A constructor that does not
  return is an exit of \<open>AnsibleModule\<close> or an exception.\<close>

definition run_client ::
  "hooks \<Rightarrow> client_class \<Rightarrow> ansible_module \<Rightarrow> 'w fetch \<Rightarrow> 'w net \<Rightarrow> outcome \<times> self \<times> 'w net" where
  "run_client H C am fetch n =
     (case init_client H C am of
        Inl x \<Rightarrow> (exit_outcome x, new_self C, n)
      | Inr s \<Rightarrow> main fetch H s n)"

text \<open>The method table of \<open>IPAClient\<close> itself.\<close>

definition IPAClient_hooks :: hooks where
  "IPAClient_hooks =
     \<lparr>h_init_kw_args = init_kw_args,
      h_find_filter = None,
      h_find_request_params = find_request_params,
      h_find_request_item = find_request_item,
      h_munge_module_params = munge_module_params,
      h_munge_response = munge_response,
      h_compute_changes = compute_changes,
      h_mod_request_params = base_mod_request_params [],
      h_mod_rewrite = mod_rewrite_list_changes,
      h_rem_request_cleanup = rem_request_cleanup,
      h_rem_request_params = rem_request_params,
      h_rem_request_item = rem_request_item,
      h_is_rem_param_request = is_rem_param_request,
      h_own = (\<lambda>_. None)\<rparr>"

section \<open>Replies\<close>

text \<open>\<open>_post_json\<close> returns a value only for a reply with a success status whose document has
  no error, and records that document under the method; every other reply ends the run.\<close>

theorem post_json_success:
  assumes "post_json fetch H s q n = (Inr v, s', n')"
  shows "\<exists>url st msg d cookie w. get_json_url s = Inr url \<and>
    fetch (server n) (json_request s url q) = (HttpReply st msg (Some d) cookie, w) \<and>
    status_ok st \<and> py_get d ''error'' PNone = Inr PNone \<and>
    s' = s\<lparr>responses := dset (r_method q) d (responses s)\<rparr>"
proof -
  obtain url where url: "get_json_url s = Inr url"
    using assms by (cases "get_json_url s") (simp_all add: post_json_def Let_def)
  obtain rep w where f: "fetch (server n) (json_request s url q) = (rep, w)" by fastforce
  let ?n = "n\<lparr>server := w, sent := sent n @ [json_request s url q]\<rparr>"
  have fu: "fetch_url fetch (json_request s url q) n = (rep, ?n)"
    using f by (simp add: fetch_url_def)
  obtain st msg d cookie where rep: "rep = HttpReply st msg (Some d) cookie" "status_ok st"
    using assms url fu
    by (cases rep) (auto simp: post_json_def Let_def split: if_splits option.splits)
  let ?s = "s\<lparr>responses := dset (r_method q) d (responses s)\<rparr>"
  have "decode_reply H ?s (r_method q) d = Inr v \<and> s' = ?s"
    using assms url fu rep by (auto simp: post_json_def Let_def)
  moreover from this have "py_get d ''error'' PNone = Inr PNone"
    by (auto simp: decode_reply_def err_simps split: if_splits)
  ultimately show ?thesis using url f rep by blast
qed

text \<open>A server that answers every request with one document.\<close>

definition canned :: "pyval \<Rightarrow> 'w fetch" where
  "canned doc w q = (HttpReply 200 [] (Some doc) PNone, w)"

definition reply_sample :: pyval where
  "reply_sample = PDict [(''error'', PNone), (''result'', PDict [(''result'', PStr ''ok'')])]"

theorem post_json_success_witness:
  "\<exists>s' n'. post_json (canned reply_sample) IPAClient_hooks login_sample
       \<lparr>r_method = ''ping'', r_name = [], r_item = []\<rparr> \<lparr>server = (), sent = []\<rparr> =
       (Inr (PStr ''ok''), s', n') \<and>
     s' = login_sample\<lparr>responses := [(''ping'', reply_sample)]\<rparr>"
proof -
  obtain s' n' where run: "post_json (canned reply_sample) IPAClient_hooks login_sample
       \<lparr>r_method = ''ping'', r_name = [], r_item = []\<rparr> \<lparr>server = (), sent = []\<rparr> =
       (Inr (PStr ''ok''), s', n')"
    by (simp add: post_json_def Let_def get_json_url_def get_base_url_def login_sample_def
        fetch_url_def canned_def status_ok_def reply_sample_def decode_reply_def decode_result_def
        dget_def)
  have "responses login_sample = []" by (simp add: login_sample_def new_self_def)
  with post_json_success [OF run] run show ?thesis by (auto simp: canned_def)
qed

end
