(* ===== verification/IPA_Contract.thy ===== *)
theory IPA_Contract
  imports IPA_Change
begin

text \<open>
  The interface between the template methods of \<open>IPAClient\<close> and its subclasses: the locale
  \<open>ipa_client\<close> states what a subclass promises about the methods it overrides and the change
  functions it adds; the lemmas proved in it hold for every client.
\<close>

section \<open>What a change function may do\<close>

definition new_entry_ok :: "string set \<Rightarrow> entry \<Rightarrow> bool" where
  "new_entry_ok M e \<longleftrightarrow> e_response e = None \<and> (\<exists>q. e_request e = Some q \<and> r_method q \<in> M)"

text \<open>Only append requests with methods in \<open>M\<close>, and perhaps mark the object changed.\<close>

definition queues :: "string set \<Rightarrow> self \<Rightarrow> self \<Rightarrow> bool" where
  "queues M s s' \<longleftrightarrow>
     (\<exists>es ch. s' = s\<lparr>requests := requests s @ es, changed := ch\<rparr> \<and> (changed s \<longrightarrow> ch) \<and>
        (\<forall>e \<in> set es. new_entry_ok M e))"

lemma queuesI:
  "s' = s\<lparr>requests := requests s @ es, changed := ch\<rparr> \<Longrightarrow> (changed s \<Longrightarrow> ch) \<Longrightarrow>
     (\<And>e. e \<in> set es \<Longrightarrow> new_entry_ok M e) \<Longrightarrow> queues M s s'"
  unfolding queues_def by blast

lemma queuesE:
  assumes "queues M s s'"
  obtains es ch where "s' = s\<lparr>requests := requests s @ es, changed := ch\<rparr>" "changed s \<longrightarrow> ch"
    "\<forall>e \<in> set es. new_entry_ok M e"
  using assms unfolding queues_def by blast

lemma queues_refl [simp, intro]: "queues M s s"
  by (rule queuesI [where es = "[]" and ch = "changed s"]) simp_all

lemma queues_trans [trans]:
  assumes "queues M s t" and "queues M t u"
  shows "queues M s u"
proof -
  obtain es ch where t: "t = s\<lparr>requests := requests s @ es, changed := ch\<rparr>" "changed s \<longrightarrow> ch"
    "\<forall>e \<in> set es. new_entry_ok M e" using assms(1) by (rule queuesE)
  obtain es' ch' where u: "u = t\<lparr>requests := requests t @ es', changed := ch'\<rparr>" "changed t \<longrightarrow> ch'"
    "\<forall>e \<in> set es'. new_entry_ok M e" using assms(2) by (rule queuesE)
  show ?thesis
    by (rule queuesI [where es = "es @ es'" and ch = ch']) (use t u in auto)
qed

lemma queues_enqueue [intro]: "r_method q \<in> M \<Longrightarrow> queues M s (enqueue nm q s)"
  by (rule queuesI [where es = "[\<lparr>e_name = nm, e_request = Some q, e_response = None,
        e_response_cleaned = None\<rparr>]" and ch = "changed s"]) (auto simp: enqueue_def new_entry_ok_def)

lemma queues_set_changed [intro]: "queues M s (s\<lparr>changed := True\<rparr>)"
  by (rule queuesI [where es = "[]" and ch = True]) simp_all

lemma queues_enqueue_changed [intro]:
  "r_method q \<in> M \<Longrightarrow> queues M s (enqueue nm q (s\<lparr>changed := True\<rparr>))"
  by (rule queues_trans [OF queues_set_changed queues_enqueue])

lemmas queues_simps = queues_refl queues_enqueue queues_set_changed queues_enqueue_changed

lemma queues_mono: "queues M s s' \<Longrightarrow> M \<subseteq> N \<Longrightarrow> queues N s s'"
  unfolding queues_def new_entry_ok_def by blast

lemma queues_frame [frame_simps]:
  assumes "queues M s s'"
  shows "klass s' = klass s" "s_methods s' = s_methods s" "check_mode s' = check_mode s"
    "headers s' = headers s" "protocol s' = protocol s" "host s' = host s" "diffs s' = diffs s"
    "state s' = state s" "params s' = params s" "canon_params s' = canon_params s"
  using assms by (auto simp: queues_def)

lemma queues_requests: "queues M s s' \<Longrightarrow>
    \<exists>es. requests s' = requests s @ es \<and> (\<forall>e \<in> set es. new_entry_ok M e)"
  by (auto simp: queues_def)

lemma efold_queues:
  assumes "\<And>x t t'. x \<in> set xs \<Longrightarrow> f x t = Inr t' \<Longrightarrow> queues M t t'"
    and "efold f xs s = Inr s'"
  shows "queues M s s'"
  using assms
proof (induction xs arbitrary: s)
  case (Cons x xs)
  from Cons.prems(2) obtain t where t: "f x s = Inr t" "efold f xs t = Inr s'"
    by (auto simp: err_simps)
  have "queues M s t" by (rule Cons.prems(1) [OF _ t(1)]) simp
  also have "queues M t s'" by (rule Cons.IH [OF _ t(2)]) (auto intro: Cons.prems(1))
  finally show ?case .
qed simp

lemma efold_idle: "(\<And>x. x \<in> set xs \<Longrightarrow> f x s = Inr s) \<Longrightarrow> efold f xs s = Inr s"
  by (induction xs) auto

text \<open>The methods of the table that change something: not \<open>find\<close> and \<open>show\<close>.\<close>

definition change_keys :: "string set" where
  "change_keys = {''add'', ''rem'', ''mod'', ''enabled'', ''disabled''}"

definition change_methods :: "self \<Rightarrow> string set" where
  "change_methods s = {m. \<exists>k \<in> change_keys. map_of (s_methods s) k = Some m}"

lemma dindex_change_methods:
  "dindex (s_methods s) k = Inr m \<Longrightarrow> k \<in> change_keys \<Longrightarrow> m \<in> change_methods s"
  by (auto simp: err_simps change_methods_def)

section \<open>What is sent\<close>

fun json_method :: "http_request \<Rightarrow> string option" where
  "json_method q =
     (case q_body q of
        JsonBody (PDict ((_, PStr m) # _)) \<Rightarrow> Some m
      | _ \<Rightarrow> None)"

declare json_method.simps [simp del]

lemma json_method_json_request [simp]: "json_method (json_request s url r) = Some (r_method r)"
  by (simp add: json_request_def json_method.simps)

lemma json_method_login: "login_request s = Inr q \<Longrightarrow> json_method q = None"
  by (auto simp: login_request_def err_simps json_method.simps)

text \<open>\<open>posted M n n'\<close>: between the two network states only JSON requests with methods in \<open>M\<close>
  were sent.\<close>

definition posted :: "string set \<Rightarrow> 'w net \<Rightarrow> 'w net \<Rightarrow> bool" where
  "posted M n n' \<longleftrightarrow>
     (\<exists>qs. sent n' = sent n @ qs \<and> (\<forall>q \<in> set qs. \<exists>m \<in> M. json_method q = Some m))"

lemma posted_refl [simp, intro]: "posted M n n"
  by (simp add: posted_def)

lemma posted_trans [trans]: "posted M a b \<Longrightarrow> posted M b c \<Longrightarrow> posted M a c"
  unfolding posted_def by auto

lemma posted_mono: "posted M a b \<Longrightarrow> M \<subseteq> N \<Longrightarrow> posted N a b"
  unfolding posted_def by blast

lemma posted_empty: "posted {} n n' \<longleftrightarrow> sent n' = sent n"
  by (auto simp: posted_def)

lemma post_json_frame:
  assumes "post_json fetch H s q n = (r, s', n')"
  shows "(\<exists>rs. s' = s\<lparr>responses := rs\<rparr>) \<and> posted {r_method q} n n'"
proof -
  have id: "\<exists>rs. s = s\<lparr>responses := rs\<rparr>"
    by (rule exI [of _ "responses s"]) simp
  show ?thesis
  proof (cases "get_json_url s")
    case (Inl x)
    with assms id show ?thesis by (simp add: post_json_def Let_def)
  next
    case (Inr url)
    obtain rep n1 where f: "fetch_url fetch (json_request s url q) n = (rep, n1)"
      by (cases "fetch_url fetch (json_request s url q) n")
    then have "posted {r_method q} n n1"
      using sent_fetch_url [OF f] by (simp add: posted_def)
    with assms Inr f id show ?thesis
      by (auto simp: post_json_def Let_def split: http_reply.splits option.splits if_splits)
  qed
qed

lemma login_frame:
  assumes "login fetch s n = (r, s', n')"
  shows "(\<exists>h. s' = s\<lparr>headers := h\<rparr>) \<and>
     (\<exists>qs. sent n' = sent n @ qs \<and> length qs \<le> 1 \<and> (\<forall>q \<in> set qs. json_method q = None))"
proof -
  have id: "\<exists>h. s = s\<lparr>headers := h\<rparr>"
    by (rule exI [of _ "headers s"]) simp
  show ?thesis
  proof (cases "login_request s")
    case (Inl x)
    with assms id show ?thesis by (simp add: login_def)
  next
    case (Inr q)
    obtain rep n1 where f: "fetch_url fetch q n = (rep, n1)"
      by (cases "fetch_url fetch q n")
    with json_method_login [OF Inr]
    have "\<exists>qs. sent n1 = sent n @ qs \<and> length qs \<le> 1 \<and> (\<forall>q \<in> set qs. json_method q = None)"
      using sent_fetch_url [OF f] by (intro exI [of _ "[q]"]) simp
    with assms Inr f id show ?thesis
      by (auto simp: login_def split: http_reply.splits sum.splits if_splits)
  qed
qed

section \<open>Processing the queue\<close>

text \<open>In check mode nothing is sent; otherwise only methods of the queued entries.\<close>

lemma process_entries_posted:
  assumes "process_entries fetch H pre es s n = (r, s', n')"
    and "\<forall>e \<in> set es. new_entry_ok M e"
  shows "posted (if check_mode s then {} else M) n n'"
  using assms
proof (induction es arbitrary: pre s n)
  case (Cons e es)
  from Cons.prems(2) obtain q where q: "e_request e = Some q" "r_method q \<in> M"
    by (auto simp: new_entry_ok_def)
  obtain r1 s1 n1 where step:
    "(if check_mode s then (Inr (PDict []), s, n) else post_json fetch H s q n) = (r1, s1, n1)"
    by (metis prod_cases3)
  have s1: "(\<exists>rs. s1 = s\<lparr>responses := rs\<rparr>) \<and> posted (if check_mode s then {} else M) n n1"
  proof (cases "check_mode s")
    case True
    with step have "s1 = s \<and> n1 = n" by simp
    then show ?thesis by (auto intro: exI [of _ "responses s"])
  next
    case False
    with step post_json_frame [of fetch H s q n r1 s1 n1] q(2) show ?thesis
      by (auto intro: posted_mono)
  qed
  then have cm: "check_mode s1 = check_mode s" by auto
  show ?case
  proof (cases r1)
    case (Inl x)
    with Cons.prems(1) q step s1 show ?thesis by auto
  next
    case (Inr v)
    with Cons.prems(1) q step
    have rest: "process_entries fetch H (pre @ [e\<lparr>e_response := Some v\<rparr>]) es
        (s1\<lparr>requests := pre @ e\<lparr>e_response := Some v\<rparr> # es, changed := True\<rparr>) n1 = (r, s', n')"
      by (simp add: Let_def)
    have "posted (if check_mode s then {} else M) n1 n'"
      using Cons.IH [OF rest] Cons.prems(2) cm by simp
    with s1 show ?thesis by (blast intro: posted_trans)
  qed
qed simp

text \<open>
  A queue that is processed to the end was sent request by request in its order, and the object is
  marked changed exactly when there was something to process; in check mode nothing is sent.
\<close>

lemma post_json_ok:
  assumes "post_json fetch H s q n = (Inr v, s', n')"
  shows "\<exists>url. get_json_url s = Inr url \<and> sent n' = sent n @ [json_request s url q]"
proof (cases "get_json_url s")
  case (Inl x)
  with assms show ?thesis by (simp add: post_json_def Let_def)
next
  case (Inr url)
  obtain rep n1 where f: "fetch_url fetch (json_request s url q) n = (rep, n1)"
    by (cases "fetch_url fetch (json_request s url q) n")
  with assms Inr have "n' = n1"
    by (auto simp: post_json_def Let_def split: http_reply.splits option.splits if_splits)
  with sent_fetch_url [OF f] Inr show ?thesis by simp
qed

text \<open>A JSON request is sent at most once, and exactly once by a post that returns.\<close>

lemma post_json_once:
  assumes "post_json fetch H s q n = (r, s', n')"
  shows "\<exists>qs. sent n' = sent n @ qs \<and> (\<forall>x \<in> set qs. json_method x = Some (r_method q)) \<and>
    length qs \<le> 1 \<and> (r = Inr v \<longrightarrow> length qs = 1)"
proof (cases "get_json_url s")
  case (Inl x)
  with assms show ?thesis by (intro exI [of _ "[]"]) (auto simp: post_json_def Let_def)
next
  case (Inr url)
  obtain rep n1 where f: "fetch_url fetch (json_request s url q) n = (rep, n1)"
    by (cases "fetch_url fetch (json_request s url q) n")
  with assms Inr have "n' = n1"
    by (auto simp: post_json_def Let_def split: http_reply.splits option.splits if_splits)
  with sent_fetch_url [OF f] show ?thesis by (intro exI [of _ "[json_request s url q]"]) simp
qed

lemma json_request_cong:
  "headers s' = headers s \<Longrightarrow> klass s' = klass s \<Longrightarrow> json_request s' url q = json_request s url q"
  by (simp add: json_request_def)

lemma get_json_url_cong:
  "protocol s' = protocol s \<Longrightarrow> host s' = host s \<Longrightarrow> get_json_url s' = get_json_url s"
  by (simp add: get_json_url_def get_base_url_def)

lemma process_entries_changed:
  assumes "process_entries fetch H pre es s n = (Inr (), s', n')"
  shows "changed s' \<longleftrightarrow> changed s \<or> es \<noteq> []"
  using assms
proof (induction es arbitrary: pre s n)
  case (Cons e es)
  from Cons.prems obtain q v s1 n1 where
    step: "(if check_mode s then (Inr (PDict []), s, n) else post_json fetch H s q n) = (Inr v, s1, n1)"
    and rest: "process_entries fetch H (pre @ [e\<lparr>e_response := Some v\<rparr>]) es
        (s1\<lparr>requests := pre @ e\<lparr>e_response := Some v\<rparr> # es, changed := True\<rparr>) n1 = (Inr (), s', n')"
    by (auto simp: Let_def split: option.splits prod.splits sum.splits)
  from Cons.IH [OF rest] show ?case by simp
qed simp

lemma process_entries_sends:
  assumes "process_entries fetch H pre es s n = (Inr (), s', n')" and "\<not> check_mode s"
    and "get_json_url s = Inr url"
  shows "sent n' = sent n @ map (\<lambda>e. json_request s url (the (e_request e))) es"
  using assms
proof (induction es arbitrary: pre s n)
  case (Cons e es)
  from Cons.prems obtain q v s1 n1 where q: "e_request e = Some q"
    and step: "post_json fetch H s q n = (Inr v, s1, n1)"
    and rest: "process_entries fetch H (pre @ [e\<lparr>e_response := Some v\<rparr>]) es
        (s1\<lparr>requests := pre @ e\<lparr>e_response := Some v\<rparr> # es, changed := True\<rparr>) n1 = (Inr (), s', n')"
    by (auto simp: Let_def split: option.splits prod.splits sum.splits)
  from post_json_frame [OF step] obtain rs where s1: "s1 = s\<lparr>responses := rs\<rparr>" by blast
  let ?s2 = "s1\<lparr>requests := pre @ e\<lparr>e_response := Some v\<rparr> # es, changed := True\<rparr>"
  have same: "json_request ?s2 url q' = json_request s url q'" for q'
    using s1 by (intro json_request_cong) simp_all
  have "get_json_url ?s2 = Inr url"
    using Cons.prems(3) s1 get_json_url_cong [of ?s2 s] by simp
  then have "sent n' = sent n1 @ map (\<lambda>e. json_request ?s2 url (the (e_request e))) es"
    using Cons.IH [OF rest] Cons.prems(2) s1 by simp
  then have "sent n' = sent n1 @ map (\<lambda>e. json_request s url (the (e_request e))) es"
    by (simp only: same)
  with post_json_ok [OF step] q Cons.prems(3) show ?case by simp
qed simp

section \<open>Finding\<close>

text \<open>The attributes the find step and the change functions never touch.\<close>

definition same_setup :: "self \<Rightarrow> self \<Rightarrow> bool" where
  "same_setup s s' \<longleftrightarrow> klass s' = klass s \<and> s_methods s' = s_methods s \<and>
     argument_spec s' = argument_spec s \<and> param_data s' = param_data s \<and>
     base_keys s' = base_keys s \<and> params s' = params s \<and> check_mode s' = check_mode s \<and>
     state s' = state s \<and> changed s' = changed s \<and> protocol s' = protocol s \<and> host s' = host s"

lemma same_setup_refl [simp]: "same_setup s s"
  by (simp add: same_setup_def)

lemma same_setup_trans [trans]: "same_setup s t \<Longrightarrow> same_setup t u \<Longrightarrow> same_setup s u"
  by (simp add: same_setup_def)

lemma same_setup_frame [frame_simps]:
  assumes "same_setup s s'"
  shows "klass s' = klass s" "s_methods s' = s_methods s" "check_mode s' = check_mode s"
    "state s' = state s" "changed s' = changed s" "params s' = params s"
    "param_data s' = param_data s" "base_keys s' = base_keys s"
    "argument_spec s' = argument_spec s" "protocol s' = protocol s" "host s' = host s"
  using assms by (simp_all add: same_setup_def)

lemma same_setup_change_methods: "same_setup s s' \<Longrightarrow> change_methods s' = change_methods s"
  by (simp add: same_setup_def change_methods_def)

definition find_method :: "self \<Rightarrow> string set" where
  "find_method s = {m. map_of (s_methods s) ''find'' = Some m}"

lemma change_methods_headers [simp]:
  "change_methods (s\<lparr>headers := h\<rparr>) = change_methods s"
  "find_method (s\<lparr>headers := h\<rparr>) = find_method s"
  by (simp_all add: change_methods_def find_method_def)

lemma mod_rewrite_method: "mod_rewrite_list_changes s q = Inr q' \<Longrightarrow> r_method q' = r_method q"
  by (auto simp: mod_rewrite_list_changes_def err_simps)

text \<open>What the find step sends: its request at most once, and exactly once when it returns.\<close>

definition found_once :: "self \<Rightarrow> exit + unit \<Rightarrow> 'w net \<Rightarrow> 'w net \<Rightarrow> bool" where
  "found_once s r n n' \<longleftrightarrow>
     (\<exists>qs. sent n' = sent n @ qs \<and> (\<forall>x \<in> set qs. \<exists>m \<in> find_method s. json_method x = Some m) \<and>
        length qs \<le> 1 \<and> (r = Inr () \<longrightarrow> length qs = 1))"

lemma found_once_stop [simp]: "found_once s (Inl x) n n"
  by (simp add: found_once_def)

lemma post_json_found_once:
  assumes "post_json fetch H t q n = (rr, t', n')" and "map_of (s_methods s) ''find'' = Some (r_method q)"
    and "r = Inr () \<Longrightarrow> \<exists>v. rr = Inr v"
  shows "found_once s r n n'"
proof -
  obtain qs where "sent n' = sent n @ qs" "\<forall>x \<in> set qs. json_method x = Some (r_method q)"
    "length qs \<le> 1" "\<forall>v. rr = Inr v \<longrightarrow> length qs = 1"
    using post_json_once [OF assms(1)] by (cases rr) auto
  with assms(2,3) show ?thesis unfolding found_once_def find_method_def by auto
qed

section \<open>The contract of a client class\<close>

text \<open>
  No change function has anything to do: no list differs, no scalar that base requests carry
  differs, and the enable flag does not where the state asks for it. An empty difference is
  settled; for \<open>exact\<close>, where the
  defaults of connection parameters end up among the scalars, a settled one need not be empty.
\<close>

definition settled :: "self \<Rightarrow> bool" where
  "settled s \<longleftrightarrow> list_add (diffs s) = [] \<and> list_del (diffs s) = [] \<and>
     in_base s (scalars (diffs s)) = [] \<and>
     (case enablekey (klass s) of
        None \<Rightarrow> True
      | Some k \<Rightarrow> map_of (scalars (diffs s)) k = None \<or>
          state s \<noteq> PStr ''enabled'' \<and> state s \<noteq> PStr ''disabled'')"

lemma changes_empty_settled: "changes_empty (diffs s) \<Longrightarrow> settled s"
  by (simp add: settled_def changes_empty_def in_base_def split: option.splits)

locale ipa_client =
  fixes H :: hooks and C :: client_class and extra :: "string set"
  assumes resolves:
      "nm \<in> set (change_functions C) \<Longrightarrow>
         nm = ''rem'' \<or> nm = ''add_or_mod'' \<or> h_own H nm \<noteq> None"
    and own_queues:
      "h_own H nm = Some f \<Longrightarrow> f s = Inr (b, s') \<Longrightarrow> queues (extra \<union> change_methods s) s s'"
    and own_idle:
      "h_own H nm = Some f \<Longrightarrow> settled s \<Longrightarrow> f s = Inr (False, s)"
    and rewrite_method: "h_mod_rewrite H s q = Inr q' \<Longrightarrow> r_method q' = r_method q"
    and cleanup_method: "r_method (h_rem_request_cleanup H s q) = r_method q"
    and find_item_frame:
      "h_find_request_item H s = Inr (item, s') \<Longrightarrow> s' = s\<lparr>is_origin := is_origin s'\<rparr>"
begin

lemma add_or_mod_queues:
  assumes "add_or_mod H s = Inr (b, s')"
  shows "queues (extra \<union> change_methods s) s s'"
proof -
  have "queues (extra \<union> change_methods s) s (enqueue nm q s)"
    if "add_or_mod_request H s = Inr q" for q nm
  proof -
    from that obtain m nm' item where "dindex (s_methods s) (if is_absent s then ''add'' else ''mod'') = Inr m"
      and "h_mod_rewrite H s \<lparr>r_method = m, r_name = nm', r_item = item\<rparr> = Inr q"
      unfolding add_or_mod_request_def ebind_Inr_iff by blast
    then have "r_method q \<in> change_methods s"
      by (auto simp: change_keys_def dest: dindex_change_methods dest!: rewrite_method split: if_splits)
    then show ?thesis by blast
  qed
  with assms show ?thesis
    by (auto simp: add_or_mod_def err_simps split: if_splits)
qed

lemma rem_queues:
  assumes "rem H s = Inr (b, s')"
  shows "queues (extra \<union> change_methods s) s s'"
proof -
  have "queues (extra \<union> change_methods s) s (enqueue nm q s)" if "rem_request H s = Inr q" for q nm
  proof -
    from that obtain m nm' item where "dindex (s_methods s) ''rem'' = Inr m"
      and "q = h_rem_request_cleanup H s \<lparr>r_method = m, r_name = nm', r_item = item\<rparr>"
      unfolding rem_request_def ebind_Inr_iff by blast
    then have "r_method q \<in> change_methods s"
      by (auto dest: dindex_change_methods simp: cleanup_method change_keys_def)
    then show ?thesis by blast
  qed
  with assms show ?thesis
    by (auto simp: rem_def err_simps split: if_splits)
qed

lemma change_function_queues:
  assumes "get_change_function H nm = Inr f" and "f s = Inr (b, s')"
  shows "queues (extra \<union> change_methods s) s s'"
  using assms add_or_mod_queues rem_queues own_queues
  by (auto simp: get_change_function_def split: if_splits option.splits)

lemma queue_loop_queues:
  "queue_loop H nms s = Inr s' \<Longrightarrow> queues (extra \<union> change_methods s) s s'"
proof (induction nms arbitrary: s)
  case (Cons nm nms)
  from Cons.prems obtain f b s1 where f: "get_change_function H nm = Inr f" "f s = Inr (b, s1)"
    and rest: "(if b then Inr s1 else queue_loop H nms s1) = Inr s'"
    by (auto simp: err_simps)
  note q1 = change_function_queues [OF f]
  then have names: "change_methods s1 = change_methods s"
    by (simp add: change_methods_def queues_frame)
  show ?case
  proof (cases b)
    case True
    with rest q1 show ?thesis by simp
  next
    case False
    with rest Cons.IH [of s1] names have "queues (extra \<union> change_methods s) s1 s'" by simp
    with q1 show ?thesis by (rule queues_trans)
  qed
qed simp

lemma queue_requests_queues:
  "queue_requests H s = Inr s' \<Longrightarrow> queues (extra \<union> change_methods s) s s'"
  unfolding queue_requests_def by (rule queue_loop_queues)

text \<open>Nothing to change and the object is there: nothing is queued.\<close>

lemma queue_requests_idle:
  assumes "klass s = C" and "settled s" and "obj_exists s = Inr True"
    and "state s \<noteq> PStr ''absent'' \<or> h_is_rem_param_request H s"
  shows "queue_requests H s = Inr s"
proof -
  have b: "build_item s = []"
    using assms(2) by (simp add: build_item_def settled_def in_base_def opt_dict_def)
  have "queue_loop H nms s = Inr s" if "set nms \<subseteq> set (change_functions C)" for nms
    using that
  proof (induction nms)
    case (Cons nm nms)
    then have "nm = ''rem'' \<or> nm = ''add_or_mod'' \<or> h_own H nm \<noteq> None"
      using resolves [of nm] by simp
    with Cons own_idle [of nm _ s] assms b show ?case
      by (auto simp: get_change_function_def rem_def add_or_mod_def)
  qed simp
  with assms(1) show ?thesis by (simp add: queue_requests_def)
qed

lemma find_prepare_frame:
  assumes "find_prepare H s = Inr (q, s')"
  shows "map_of (s_methods s) ''find'' = Some (r_method q)"
    and "s' = s\<lparr>canon_params := canon_params s', is_origin := is_origin s'\<rparr>"
proof -
  from assms obtain cp m nm item where
    m: "map_of (s_methods s) ''find'' = Some m" and q: "q = \<lparr>r_method = m, r_name = nm, r_item = item\<rparr>"
    and i: "h_find_request_item H (s\<lparr>canon_params := cp\<rparr>) = Inr (item, s')"
    by (auto simp: find_prepare_def Let_def err_simps)
  show "map_of (s_methods s) ''find'' = Some (r_method q)"
    using m q by simp
  from find_item_frame [OF i]
  obtain b where "s' = s\<lparr>canon_params := cp, is_origin := b\<rparr>" by simp
  then show "s' = s\<lparr>canon_params := canon_params s', is_origin := is_origin s'\<rparr>" by simp
qed

lemma find_obj_frame:
  assumes "find_obj fetch H s n = (r, s', n')"
  shows "same_setup s s'" and "found_once s r n n'"
    and "r = Inr () \<Longrightarrow> \<exists>e. requests s' = requests s @ [e]"
proof -
  let ?s0 = "s\<lparr>requests := requests s @ [find_entry None None None]\<rparr>"
  have "same_setup s s' \<and> found_once s r n n' \<and>
      (r = Inr () \<longrightarrow> (\<exists>e. requests s' = requests s @ [e]))"
  proof (cases "find_prepare H ?s0")
    case (Inl x)
    with assms show ?thesis by (auto simp: find_obj_def Let_def same_setup_def)
  next
    case (Inr p)
    then obtain q s1 where p: "find_prepare H ?s0 = Inr (q, s1)" by (cases p) simp
    note fp = find_prepare_frame [OF p]
    let ?s2 = "s1\<lparr>requests := requests s @ [find_entry (Some q) None None]\<rparr>"
    have s2: "same_setup s ?s2"
      by (subst fp(2)) (simp add: same_setup_def)
    obtain rr s3 n3 where pj: "post_json fetch H ?s2 q n = (rr, s3, n3)"
      by (metis prod_cases3)
    from post_json_frame [OF pj] have s3: "same_setup ?s2 s3" by (auto simp: same_setup_def)
    have po': "found_once s r n n3" if "r = Inr () \<Longrightarrow> \<exists>v. rr = Inr v"
      using pj fp(1) that by (intro post_json_found_once [where q = q]) simp_all
    show ?thesis
    proof (cases rr)
      case (Inl x)
      with assms p pj have "r = Inl x" "s' = s3" "n' = n3"
        by (auto simp: find_obj_def Let_def)
      with s2 s3 po' show ?thesis by (auto intro: same_setup_trans)
    next
      case (Inr response)
      show ?thesis
      proof (cases "find_digest H s3 (requests s) q response")
        case (Inl x)
        with assms p pj \<open>rr = Inr response\<close> have "r = Inl x" "s' = s3" "n' = n3"
          by (auto simp: find_obj_def Let_def)
        with s2 s3 po' show ?thesis by (auto intro: same_setup_trans)
      next
        case (Inr s4)
        with assms p pj \<open>rr = Inr response\<close> have "s' = s4" "n' = n3"
          by (auto simp: find_obj_def Let_def)
        moreover from Inr obtain e df where
          "s4 = s3\<lparr>requests := requests s @ [e], diffs := df\<rparr>"
          by (auto simp: find_digest_def err_simps split: pyval.splits)
        moreover have "found_once s r n n3" using Inr \<open>rr = Inr response\<close> by (intro po') simp
        ultimately show ?thesis
          using s2 s3 by (auto simp: same_setup_def)
      qed
    qed
  qed
  then show "same_setup s s'" "found_once s r n n'"
    "r = Inr () \<Longrightarrow> \<exists>e. requests s' = requests s @ [e]" by auto
qed

text \<open>The JSON requests a run sends: the find request, then changes, none in check mode.\<close>

lemma ensure_posted:
  assumes "ensure fetch H s n = (r, s', n')" and "requests s = []"
  shows "\<exists>r1 n1. found_once s r1 n n1 \<and>
    (if r1 = Inr () then posted (if check_mode s then {} else extra \<union> change_methods s) n1 n'
     else n' = n1)"
proof -
  obtain r1 s1 n1 where f: "find_obj fetch H s n = (r1, s1, n1)"
    by (metis prod_cases3)
  note ff = find_obj_frame [OF f]
  show ?thesis
  proof (cases r1)
    case (Inl x)
    with assms(1) f ff(2) show ?thesis
      by (intro exI [of _ r1] exI [of _ n1]) (simp add: ensure_def)
  next
    case (Inr u)
    have "posted (if check_mode s then {} else extra \<union> change_methods s) n1 n'"
    proof (cases "queue_requests H s1")
      case (Inl x)
      with assms(1) f \<open>r1 = Inr u\<close> show ?thesis by (simp add: ensure_def)
    next
      case q: (Inr s2)
      from ff(3) Inr assms(2) obtain e where e: "requests s1 = [e]" by auto
      note qq = queue_requests_queues [OF q]
      then obtain es where es: "requests s2 = [e] @ es"
        "\<forall>e \<in> set es. new_entry_ok (extra \<union> change_methods s1) e"
        using queues_requests [OF qq] e by auto
      obtain r3 s3 n3 where pq: "process_queue fetch H s2 n1 = (r3, s3, n3)"
        by (metis prod_cases3)
      have cm: "check_mode s2 = check_mode s" and mn: "change_methods s1 = change_methods s"
        using queues_frame [OF qq] same_setup_frame [OF ff(1)]
        by (simp_all add: same_setup_change_methods [OF ff(1)])
      have "posted (if check_mode s2 then {} else extra \<union> change_methods s1) n1 n3"
        using process_entries_posted [OF pq [unfolded process_queue_def]] es by simp
      moreover have "n' = n3"
        using assms(1) f Inr q pq by (auto simp: ensure_def split: sum.splits)
      ultimately show ?thesis by (simp add: cm mn split: if_splits)
    qed
    with ff(2) Inr show ?thesis by (intro exI [of _ r1] exI [of _ n1]) simp
  qed
qed

end

text \<open>
  The log of a whole run: nothing, or the login form, then at most the find request \<open>F\<close>, and only
  after that JSON requests with methods in \<open>M\<close>.
\<close>

fun session_log :: "string \<Rightarrow> string set \<Rightarrow> http_request list \<Rightarrow> bool" where
  "session_log F M [] = True"
| "session_log F M [l] = (json_method l = None)"
| "session_log F M (l # f # qs) =
     (json_method l = None \<and> json_method f = Some F \<and> (\<forall>q \<in> set qs. \<exists>m \<in> M. json_method q = Some m))"

lemma login_ok_sends:
  assumes "login fetch s n = (Inr u, s', n')"
  shows "\<exists>q. sent n' = sent n @ [q] \<and> json_method q = None"
proof -
  from assms obtain q where q: "login_request s = Inr q"
    by (auto simp: login_def split: sum.splits)
  obtain rep n1 where f: "fetch_url fetch q n = (rep, n1)"
    by (cases "fetch_url fetch q n")
  with assms q have "n' = n1"
    by (auto simp: login_def split: http_reply.splits sum.splits if_splits)
  with sent_fetch_url [OF f] json_method_login [OF q] show ?thesis by blast
qed

context ipa_client begin

lemma main_log:
  assumes "main fetch H s n = (out, s', n')" and "requests s = []"
    and "map_of (s_methods s) ''find'' = Some F"
  shows "\<exists>qs. sent n' = sent n @ qs \<and>
     session_log F (if check_mode s then {} else extra \<union> change_methods s) qs"
    (is "\<exists>qs. _ \<and> session_log F ?M qs")
proof -
  obtain r1 s1 n1 where l: "login fetch s n = (r1, s1, n1)"
    by (metis prod_cases3)
  from login_frame [OF l] obtain h qs where s1: "s1 = s\<lparr>headers := h\<rparr>"
    and qs: "sent n1 = sent n @ qs" "length qs \<le> 1" "\<forall>q \<in> set qs. json_method q = None"
    by blast
  show ?thesis
  proof (cases r1)
    case (Inl x)
    with assms(1) l have "n' = n1" by (simp add: main_def)
    with qs show ?thesis by (cases qs) (auto intro: exI [of _ qs])
  next
    case (Inr u)
    with l login_ok_sends obtain q where q: "sent n1 = sent n @ [q]" "json_method q = None"
      by blast
    obtain r2 s2 n2 where e: "ensure fetch H s1 n1 = (r2, s2, n2)"
      by (metis prod_cases3)
    with assms(1) l Inr have n': "n' = n2" by (auto simp: main_def split: sum.splits)
    have s1': "requests s1 = []" "check_mode s1 = check_mode s" "change_methods s1 = change_methods s"
      "find_method s1 = find_method s"
      using assms(2) s1 by simp_all
    from ensure_posted [OF e s1'(1)] obtain r3 n3 where "found_once s1 r3 n1 n3"
      and rest: "if r3 = Inr () then posted ?M n3 n2 else n2 = n3"
      unfolding s1' by blast
    then have found: "found_once s r3 n1 n3" by (simp add: found_once_def s1'(4))
    have F: "find_method s = {F}" using assms(3) by (simp add: find_method_def)
    from found F obtain fs where fs: "sent n3 = sent n1 @ fs" "\<forall>x \<in> set fs. json_method x = Some F"
      "length fs \<le> 1" "r3 = Inr () \<longrightarrow> length fs = 1" by (auto simp: found_once_def)
    show ?thesis
    proof (cases "r3 = Inr ()")
      case True
      with fs obtain f where "fs = [f]" by (cases fs) auto
      moreover from True rest obtain qs' where "sent n2 = sent n3 @ qs'"
        "\<forall>q \<in> set qs'. \<exists>m \<in> ?M. json_method q = Some m" by (auto simp: posted_def)
      ultimately show ?thesis
        using q fs n' by (intro exI [of _ "q # f # qs'"]) simp
    next
      case False
      with rest q fs n' show ?thesis
        by (intro exI [of _ "q # fs"]) (cases fs, auto)
    qed
  qed
qed

end

end
