(* ===== verification/IPA_CA.thy ===== *)
theory IPA_CA
  imports IPA_Contract
begin

text \<open>\<open>lib/modules/ipa_ca.py\<close>: the client for certificate authorities.\<close>

definition CAIPAClient_class :: client_class where
  "CAIPAClient_class = IPAClient_class\<lparr>
     cname := ''ca'',
     param_keys := [''cn''],
     kw_args :=
       [(''cn'', (kwarg ''str'' True)\<lparr>sp_aliases := [''name'']\<rparr>),
        (''ipacasubjectdn'', kwarg ''str'' False),
        (''description'', kwarg ''str'' False)],
     fetch_url_timeout := 60\<rparr>"

text \<open>Once the CA exists only its description may be modified.\<close>

definition ca_mod_rewrite_list_changes :: "self \<Rightarrow> request \<Rightarrow> exit + request" where
  "ca_mod_rewrite_list_changes s r =
     ebind (mod_rewrite_list_changes s r) (\<lambda>r'.
       if r_method r' \<noteq> ''ca_mod'' then Inr r'
       else
         let keys = filter (\<lambda>k. k \<noteq> ''all'' \<and> k \<noteq> ''description'') (dkeys (r_item r'))
         in if keys \<noteq> []
            then Inl (fail_with (PList (map PStr keys))
                   (PStr ''Unable to modify CA parameters other than description''))
            else Inr r')"

definition CAIPAClient_hooks :: hooks where
  "CAIPAClient_hooks = IPAClient_hooks\<lparr>h_mod_rewrite := ca_mod_rewrite_list_changes\<rparr>"

definition ca_main ::
  "ansible_module \<Rightarrow> 'w fetch \<Rightarrow> 'w net \<Rightarrow> outcome \<times> self \<times> 'w net" where
  "ca_main = run_client CAIPAClient_hooks CAIPAClient_class"

interpretation ca: ipa_client CAIPAClient_hooks CAIPAClient_class "{}"
  by unfold_locales
    (auto simp: CAIPAClient_hooks_def CAIPAClient_class_def IPAClient_hooks_def IPAClient_class_def
      ca_mod_rewrite_list_changes_def Let_def err_simps rem_request_cleanup_def
      find_request_item_def dest!: mod_rewrite_method split: if_splits)


section \<open>Properties\<close>

lemma ca_extra_keys:
  assumes "ca_mod_rewrite_list_changes s r = Inr r'" and "r_method r = ''ca_mod''"
  shows "set (dkeys (r_item r')) \<subseteq> {''all'', ''description''}"
  using assms
  by (auto simp: ca_mod_rewrite_list_changes_def err_simps Let_def filter_empty_conv
      split: if_splits dest: mod_rewrite_method)

text \<open>A request that modifies an existing certificate authority carries its description and
  nothing else; any other changed parameter ends the run instead.\<close>

theorem ca_only_description:
  assumes "add_or_mod_request CAIPAClient_hooks s = Inr q" and "\<not> is_absent s"
    and "map_of (s_methods s) ''mod'' = Some ''ca_mod''"
  shows "set (dkeys (r_item q)) \<subseteq> {''all'', ''description''}"
proof -
  from assms obtain nm where "ca_mod_rewrite_list_changes s
      \<lparr>r_method = ''ca_mod'', r_name = nm, r_item = dset ''all'' (PBool True) (build_item s)\<rparr> = Inr q"
    by (auto simp: add_or_mod_request_def err_simps CAIPAClient_hooks_def)
  then show ?thesis by (rule ca_extra_keys) simp
qed

definition ca_sample :: self where
  "ca_sample = (new_self CAIPAClient_class)\<lparr>
     s_methods := [(''add'', ''ca_add''), (''mod'', ''ca_mod'')],
     param_data := [(''cn'', ''str''), (''description'', ''str'')],
     base_keys := [''description''],
     params := [(''cn'', PStr ''sub''), (''description'', PStr ''new'')],
     requests := [find_entry None None (Some [(''description'', PStr ''old'')])],
     diffs := \<lparr>scalars = [(''description'', PStr ''new'')], list_add = [], list_del = []\<rparr>\<rparr>"

theorem ca_only_description_witness:
  "\<exists>q. add_or_mod_request CAIPAClient_hooks ca_sample = Inr q \<and>
     set (dkeys (r_item q)) \<subseteq> {''all'', ''description''}"
proof -
  have m: "map_of (s_methods ca_sample) ''mod'' = Some ''ca_mod''" "\<not> is_absent ca_sample"
    by (simp_all add: ca_sample_def is_absent_def response_cleaned_def find_entry_def)
  obtain q where q: "add_or_mod_request CAIPAClient_hooks ca_sample = Inr q"
    using m
    by (simp add: add_or_mod_request_def CAIPAClient_hooks_def IPAClient_hooks_def dindex_def
        base_mod_request_params_def ca_mod_rewrite_list_changes_def mod_rewrite_list_changes_def
        build_item_def ca_sample_def in_base_def opt_dict_def Let_def)
  from ca_only_description [OF q m(2,1)] q show ?thesis by blast
qed

end
