(* ===== verification/IPA_Enablable.thy ===== *)
theory IPA_Enablable
  imports IPA_Contract
begin

text \<open>
  \<open>lib/python/ipa.py\<close>, \<open>EnablableIPAClient\<close>: clients whose object can be enabled and
  disabled through methods of its own (DNS zones, CA ACLs, users).
\<close>

section \<open>The code\<close>

definition EnablableIPAClient_class :: client_class where
  "EnablableIPAClient_class = IPAClient_class\<lparr>
     methods := [(''add'', ''{}_add''), (''rem'', ''{}_del''), (''mod'', ''{}_mod''),
                 (''find'', ''{}_find''), (''enabled'', ''{}_enable''),
                 (''disabled'', ''{}_disable'')],
     state_choices := [''present'', ''absent'', ''exact'', ''enabled'', ''disabled''],
     change_functions := [''rem'', ''add_or_mod'', ''enable_or_disable'']\<rparr>"

text \<open>\<open>self.enablekey\<close>; every subclass sets it.\<close>

definition enable_key :: "self \<Rightarrow> string" where
  "enable_key s = (case enablekey (klass s) of Some k \<Rightarrow> k | None \<Rightarrow> '''')"

definition enablable_init_kw_args :: "self \<Rightarrow> self" where
  "enablable_init_kw_args s =
     (let s1 = init_kw_args s
      in if class_base_keys (klass s) = None
         then s1\<lparr>base_keys := filter (\<lambda>k. k \<noteq> enable_key s) (base_keys s1)\<rparr>
         else s1)"

definition sense :: "self \<Rightarrow> bool \<Rightarrow> bool" where
  "sense s b = (if enablekey_sense_inverted (klass s) then \<not> b else b)"

definition enablable_munge_module_params :: "self \<Rightarrow> exit + pydict" where
  "enablable_munge_module_params s =
     ebind (munge_module_params s) (\<lambda>item.
       Inr (if state s = PStr ''enabled'' then dset (enable_key s) (PBool (sense s True)) item
            else if state s = PStr ''disabled''
            then dset (enable_key s) (PBool (sense s False)) item
            else item))"

text \<open>The pending change of the enable key; \<open>None\<close> is in no dictionary of changes.\<close>

definition enable_change :: "self \<Rightarrow> pyval option" where
  "enable_change s =
     (case enablekey (klass s) of None \<Rightarrow> None | Some k \<Rightarrow> map_of (scalars (diffs s)) k)"

definition enable_or_disable :: "(self \<Rightarrow> exit + pyval list) \<Rightarrow> change_function" where
  "enable_or_disable mod_params s =
     (case enable_change s of
        None \<Rightarrow> Inr (False, s)
      | Some v \<Rightarrow>
          if is_absent s \<or> (state s \<noteq> PStr ''enabled'' \<and> state s \<noteq> PStr ''disabled'')
          then Inr (False, s)
          else if check_mode s then Inr (False, s)
          else
            ebind (dindex (s_methods s)
                     (if sense s (py_truth v) then ''enabled'' else ''disabled'')) (\<lambda>m.
            ebind (mod_params s) (\<lambda>nm.
              Inr (False, enqueue ''enable_or_disable''
                     \<lparr>r_method = m, r_name = nm, r_item = []\<rparr> s))))"

definition enablable_own :: "(self \<Rightarrow> exit + pyval list) \<Rightarrow> string \<Rightarrow> change_function option" where
  "enablable_own mod_params nm =
     (if nm = ''enable_or_disable'' then Some (enable_or_disable mod_params) else None)"

definition EnablableIPAClient_hooks :: hooks where
  "EnablableIPAClient_hooks = IPAClient_hooks\<lparr>
     h_init_kw_args := enablable_init_kw_args,
     h_munge_module_params := enablable_munge_module_params,
     h_own := enablable_own (base_mod_request_params [])\<rparr>"

section \<open>Properties\<close>

lemma enable_or_disable_queues:
  assumes "enable_or_disable mp s = Inr (b, s')"
  shows "queues (change_methods s) s s'"
proof (cases "s' = s")
  case False
  with assms obtain k m nm where "dindex (s_methods s) k = Inr m" "k \<in> change_keys"
    and "s' = enqueue ''enable_or_disable'' \<lparr>r_method = m, r_name = nm, r_item = []\<rparr> s"
    unfolding enable_or_disable_def
    by (auto simp: ebind_Inr_iff change_keys_def split: option.splits if_splits)
  then show ?thesis by (simp add: queues_enqueue dindex_change_methods)
qed simp

lemma enable_or_disable_idle: "settled s \<Longrightarrow> enable_or_disable mp s = Inr (False, s)"
  by (auto simp: enable_or_disable_def enable_change_def settled_def split: option.splits)

text \<open>The toggle is only ever queued for the two toggling states.\<close>

lemma enable_or_disable_other_state:
  "state s \<noteq> PStr ''enabled'' \<Longrightarrow> state s \<noteq> PStr ''disabled'' \<Longrightarrow>
     enable_or_disable mp s = Inr (False, s)"
  by (simp add: enable_or_disable_def split: option.splits)

text \<open>
  Interface of the clients that inherit the toggle: their canonical parameters and their change
  function are the inherited ones, and the enable key is a scalar parameter.
\<close>

locale enablable_client = ipa_client +
  assumes inherits_params: "h_munge_module_params H = enablable_munge_module_params"
    and inherits_changes: "h_compute_changes H = compute_changes"
    and inherits_toggle:
      "h_own H ''enable_or_disable'' = Some (enable_or_disable (base_mod_request_params []))"
    and key_is_scalar: "\<exists>k sp. enablekey C = Some k \<and> map_of (kw_args C) k = Some sp \<and>
        sp_type sp \<noteq> ''list''"
begin

text \<open>The direction of the toggle is the one \<open>state\<close> asks for, inverted key or not.\<close>

lemma toggle_direction:
  assumes "h_munge_module_params H s = Inr cp" and "klass s = C"
    and "param_data s = map (\<lambda>(k, sp). (k, sp_type sp)) (kw_args C)"
    and "h_compute_changes H s cp found = Inr c"
    and "state s = PStr ''enabled'' \<or> state s = PStr ''disabled''"
  shows "map_of (scalars c) (enable_key s) =
     (let want = PBool (sense s (state s = PStr ''enabled''))
      in case map_of found (enable_key s) of
           Some w \<Rightarrow> if py_eq want w then None else Some want
         | None \<Rightarrow> Some want)"
proof -
  from key_is_scalar assms(2) obtain k sp where k: "enablekey C = Some k"
    "map_of (kw_args C) k = Some sp" "sp_type sp \<noteq> ''list''" by blast
  have "map_of (param_data s) k = Some (sp_type sp)"
    using k(2) assms(3) by (simp add: map_of_map)
  with k assms(2) have "\<not> is_list_param s (enable_key s)"
    by (simp add: is_list_param_def enable_key_def)
  moreover have "map_of cp (enable_key s) = Some (PBool (sense s (state s = PStr ''enabled'')))"
    using assms(1,5) by (auto simp: inherits_params enablable_munge_module_params_def err_simps)
  moreover have "compute_changes s cp found = Inr c" "state s \<noteq> PStr ''absent''"
    using assms(4,5) by (auto simp: inherits_changes)
  ultimately show ?thesis
    by (simp add: compute_changes_scalars Let_def split: option.splits)
qed

end

end
