(* ===== verification/IPA_CAACL.thy ===== *)
theory IPA_CAACL
  imports IPA_Enablable
begin

text \<open>\<open>lib/modules/ipa_caacl.py\<close>: the client for CA access control lists.\<close>

section \<open>The code\<close>

definition CAACLIPAClient_class :: client_class where
  "CAACLIPAClient_class = EnablableIPAClient_class\<lparr>
     cname := ''caacl'',
     param_keys := [''cn''],
     enablekey := Some ''ipaenabledflag'',
     class_base_keys := Some [''description''],
     change_functions := change_functions EnablableIPAClient_class @ [''add_remove_list_items''],
     kw_args :=
       [(''cn'', (kwarg ''str'' True)\<lparr>sp_aliases := [''name'']\<rparr>),
        (''description'', kwarg ''str'' False),
        (''ipaenabledflag'', kwarg ''bool'' False),
        (''user'', kwarg ''list'' False),
        (''group'', kwarg ''list'' False),
        (''host'', kwarg ''list'' False),
        (''hostgroup'', kwarg ''list'' False),
        (''service'', kwarg ''list'' False),
        (''certprofile'', kwarg ''list'' False),
        (''ca'', kwarg ''list'' False)]\<rparr>"

definition startswith :: "string \<Rightarrow> string \<Rightarrow> bool" where
  "startswith s p \<longleftrightarrow> take (length p) s = p"

definition member_prefixes :: "string list" where
  "member_prefixes = [''memberuser_'', ''memberhost_'', ''memberservice_'',
     ''ipamembercertprofile_'', ''ipamemberca_'']"

definition is_member_key :: "string \<Rightarrow> bool" where
  "is_member_key k \<longleftrightarrow> list_ex (startswith k) member_prefixes"

definition member_new_key :: "string \<Rightarrow> string" where
  "member_new_key k = split_on CHR ''_'' k ! 1"

definition munge_key_step :: "string \<Rightarrow> pydict \<Rightarrow> exit + pydict" where
  "munge_key_step k item =
     (if is_member_key k
      then ebind (dindex item k) (\<lambda>v. Inr (dset (member_new_key k) v (ddel k item)))
      else Inr item)"

definition munge_response_keys :: "pydict \<Rightarrow> exit + pydict" where
  "munge_response_keys item = efold munge_key_step (dkeys item) item"

definition caacl_munge_response :: "self \<Rightarrow> pydict \<Rightarrow> exit + pydict \<times> pydict" where
  "caacl_munge_response s response =
     ebind (munge_response_keys response) (\<lambda>item.
     ebind (munge_response s item) (\<lambda>(cleaned, _). Inr (cleaned, response)))"

definition from_lists :: "((self \<Rightarrow> pydict) \<times> string) list" where
  "from_lists = [(list_add \<circ> diffs, ''add''), (list_del \<circ> diffs, ''remove'')]"

definition method_items :: "(string \<times> string list) list" where
  "method_items =
     [(''user'', [''user'', ''group'']),
      (''host'', [''host'', ''hostgroup'']),
      (''profile'', [''certprofile'']),
      (''ca'', [''ca'']),
      (''service'', [''service''])]"

text \<open>\<open>item[attr] = sorted(val)\<close> for the attributes of one method.\<close>

definition collect_attr :: "pydict \<Rightarrow> string \<Rightarrow> pydict \<Rightarrow> exit + pydict" where
  "collect_attr d attr item =
     (case map_of d attr of
        None \<Rightarrow> Inr item
      | Some v \<Rightarrow> ebind (py_iter v) (\<lambda>vs. Inr (dset attr (PList (sort_key hkey vs)) item)))"

definition caacl_step ::
  "((self \<Rightarrow> pydict) \<times> string) \<times> (string \<times> string list) \<Rightarrow> self \<Rightarrow> exit + self" where
  "caacl_step p s =
     (let d = fst (fst p) s; method_op = snd (fst p);
          method_item = fst (snd p); attrs = snd (snd p) in
      ebind (efold (collect_attr d) attrs []) (\<lambda>item.
        if item = [] then Inr s
        else
          let s1 = s\<lparr>changed := True\<rparr> in
          if check_mode s1 then Inr s1
          else
            ebind (base_mod_request_params [] s1) (\<lambda>nm.
              Inr (enqueue (method_op @ ''_'' @ method_item)
                \<lparr>r_method = ''caacl_'' @ method_op @ ''_'' @ method_item,
                 r_name = nm, r_item = dset ''all'' (PBool True) item\<rparr> s1))))"

definition add_remove_list_items :: change_function where
  "add_remove_list_items s =
     ebind (efold caacl_step (List.product from_lists method_items) s) (\<lambda>s'. Inr (False, s'))"

definition CAACLIPAClient_hooks :: hooks where
  "CAACLIPAClient_hooks = EnablableIPAClient_hooks\<lparr>
     h_munge_response := caacl_munge_response,
     h_own := (\<lambda>nm. if nm = ''add_remove_list_items'' then Some add_remove_list_items
                     else enablable_own (base_mod_request_params []) nm)\<rparr>"

definition caacl_main ::
  "ansible_module \<Rightarrow> 'w fetch \<Rightarrow> 'w net \<Rightarrow> outcome \<times> self \<times> 'w net" where
  "caacl_main = run_client CAACLIPAClient_hooks CAACLIPAClient_class"

section \<open>The contract\<close>

definition caacl_methods :: "string set" where
  "caacl_methods =
     {''caacl_add_user'', ''caacl_add_host'', ''caacl_add_profile'', ''caacl_add_ca'',
      ''caacl_add_service'', ''caacl_remove_user'', ''caacl_remove_host'',
      ''caacl_remove_profile'', ''caacl_remove_ca'', ''caacl_remove_service''}"

lemma caacl_step_queues:
  "caacl_step p s = Inr s' \<Longrightarrow> ''caacl_'' @ snd (fst p) @ ''_'' @ fst (snd p) \<in> M \<Longrightarrow> queues M s s'"
  by (auto simp: caacl_step_def Let_def err_simps queues_simps split: if_splits)

lemma caacl_step_methods:
  "p \<in> set (List.product from_lists method_items) \<Longrightarrow>
     ''caacl_'' @ snd (fst p) @ ''_'' @ fst (snd p) \<in> caacl_methods"
  by (auto simp: from_lists_def method_items_def caacl_methods_def)

lemma add_remove_list_items_queues:
  assumes "add_remove_list_items s = Inr (b, s')"
  shows "queues (caacl_methods \<union> N) s s'"
proof -
  from assms have "efold caacl_step (List.product from_lists method_items) s = Inr s'"
    by (auto simp: add_remove_list_items_def ebind_Inr_iff)
  then have "queues caacl_methods s s'"
    by (rule efold_queues [rotated]) (blast intro: caacl_step_queues caacl_step_methods)
  then show ?thesis by (rule queues_mono) simp
qed

lemma collect_attr_Nil: "efold (collect_attr []) attrs item = Inr item"
  by (rule efold_idle) (simp add: collect_attr_def)

lemma add_remove_list_items_idle:
  assumes "settled s"
  shows "add_remove_list_items s = Inr (False, s)"
proof -
  have "efold caacl_step (List.product from_lists method_items) s = Inr s"
  proof (rule efold_idle)
    fix p assume "p \<in> set (List.product from_lists method_items)"
    with assms show "caacl_step p s = Inr s"
      by (auto simp: caacl_step_def from_lists_def settled_def collect_attr_Nil)
  qed
  then show ?thesis by (simp add: add_remove_list_items_def)
qed

interpretation caacl: enablable_client CAACLIPAClient_hooks CAACLIPAClient_class caacl_methods
  by unfold_locales
    (auto simp: CAACLIPAClient_hooks_def CAACLIPAClient_class_def EnablableIPAClient_hooks_def
      EnablableIPAClient_class_def IPAClient_hooks_def IPAClient_class_def enablable_own_def
      rem_request_cleanup_def find_request_item_def kwarg_def add_remove_list_items_idle
      dest: enable_or_disable_queues mod_rewrite_method enable_or_disable_idle
        add_remove_list_items_queues
      intro: queues_mono [OF enable_or_disable_queues] split: if_splits)


section \<open>Properties\<close>

definition renamed :: "string \<Rightarrow> string" where
  "renamed k = (if is_member_key k then member_new_key k else k)"

lemma member_key_has_sep: "is_member_key k \<Longrightarrow> CHR ''_'' \<in> set k"
proof -
  assume "is_member_key k"
  then obtain p where p: "p \<in> set member_prefixes" "take (length p) k = p"
    by (auto simp: is_member_key_def startswith_def list_ex_iff)
  then have "CHR ''_'' \<in> set p" by (auto simp: member_prefixes_def)
  with p(2) show ?thesis by (metis in_set_takeD)
qed

lemma new_key_no_sep:
  assumes "is_member_key k"
  shows "CHR ''_'' \<notin> set (member_new_key k)"
proof -
  obtain a b where "k = a @ CHR ''_'' # b"
    using member_key_has_sep [OF assms] by (meson split_list)
  then have "length (split_on CHR ''_'' k) \<ge> 2"
    by (simp add: split_on_sep) (metis One_nat_def Suc_leI add_mono length_greater_0_conv
        one_add_one plus_1_eq_Suc split_on_not_Nil)
  then have "member_new_key k \<in> set (split_on CHR ''_'' k)"
    unfolding member_new_key_def by (intro nth_mem) simp
  then show ?thesis by (rule split_on_no_sep)
qed

lemma renamed_not_other:
  assumes "is_member_key k" and "k' \<noteq> k"
  shows "renamed k' \<noteq> k"
  using assms new_key_no_sep [of k'] member_key_has_sep [of k]
  by (auto simp: renamed_def)

lemma munge_keys_fold:
  assumes "efold munge_key_step ks acc = Inr r" and "distinct (done @ ks)"
    and "inj_on renamed (set (done @ ks))"
    and "\<forall>k \<in> set done. map_of acc (renamed k) = map_of item k"
    and "\<forall>k \<in> set ks. map_of acc k = map_of item k"
  shows "\<forall>k \<in> set (done @ ks). map_of r (renamed k) = map_of item k"
  using assms
proof (induction ks arbitrary: acc "done")
  case (Cons k ks)
  from Cons.prems(1) obtain acc' where step: "munge_key_step k acc = Inr acc'"
    and rest: "efold munge_key_step ks acc' = Inr r" by (auto simp: err_simps)
  have k: "k \<notin> set done" "k \<notin> set ks" "map_of acc k = map_of item k" using Cons.prems by auto
  have inj: "renamed k' \<noteq> renamed k" if "k' \<in> set done \<union> set ks" for k'
    using Cons.prems(3) that k(1,2) by (auto simp: inj_on_def)
  have look: "map_of acc' q = (if q = renamed k then map_of item k else map_of acc q)"
    if "q \<noteq> k \<or> q = renamed k" for q
    using step that k(3)
    by (auto simp: munge_key_step_def renamed_def err_simps split: if_splits)
  have old: "map_of acc' (renamed k') = map_of item k'" if "k' \<in> set done" for k'
  proof -
    have "renamed k' \<noteq> k"
    proof (cases "is_member_key k")
      case True
      then show ?thesis by (rule renamed_not_other) (use that k(1) in auto)
    next
      case False
      then have "renamed k = k" by (simp add: renamed_def)
      with inj [of k'] that show ?thesis by simp
    qed
    with look [of "renamed k'"] inj [of k'] that Cons.prems(4) show ?thesis by auto
  qed
  have new: "map_of acc' k' = map_of item k'" if "k' \<in> set ks" for k'
  proof -
    have "k' \<noteq> renamed k"
      using inj [of k'] that new_key_no_sep [of k] member_key_has_sep [of k'] k(2)
      by (auto simp: renamed_def split: if_splits)
    with look [of k'] that k(2) Cons.prems(5) show ?thesis by auto
  qed
  have here: "map_of acc' (renamed k) = map_of item k" using look by simp
  have "\<forall>k \<in> set ((done @ [k]) @ ks). map_of r (renamed k) = map_of item k"
    by (rule Cons.IH [OF rest]) (use Cons.prems(2,3) old new here in auto)
  then show ?case by simp
qed auto

text \<open>The keys of a CA ACL reply are renamed to the parameters they belong to
  (\<open>memberuser_user\<close> to \<open>user\<close>, \<open>ipamembercertprofile_certprofile\<close> to \<open>certprofile\<close>, and so on) and
  every attribute keeps its value, as long as no two keys of the reply get the same name.\<close>

theorem caacl_keys_renamed:
  assumes "munge_response_keys item = Inr r" and "wf_dict item"
    and "inj_on renamed (set (dkeys item))" and "dhas item k"
  shows "map_of r (renamed k) = map_of item k"
proof -
  have "\<forall>k \<in> set ([] @ dkeys item). map_of r (renamed k) = map_of item k"
    by (rule munge_keys_fold [where acc = item])
      (use assms in \<open>simp_all add: munge_response_keys_def wf_dict_def\<close>)
  moreover have "k \<in> set (dkeys item)" using assms(4) unfolding dhas_iff by simp
  ultimately show ?thesis by auto
qed

lemma renamed_table:
  "renamed ''memberuser_user'' = ''user''" "renamed ''memberuser_group'' = ''group''"
  "renamed ''memberhost_host'' = ''host''" "renamed ''memberhost_hostgroup'' = ''hostgroup''"
  "renamed ''memberservice_service'' = ''service''"
  "renamed ''ipamembercertprofile_certprofile'' = ''certprofile''"
  "renamed ''ipamemberca_ca'' = ''ca''" "renamed ''cn'' = ''cn''"
  by (simp_all add: renamed_def is_member_key_def member_prefixes_def startswith_def
      member_new_key_def)

theorem caacl_keys_renamed_witness:
  "\<exists>r. munge_response_keys [(''cn'', PStr ''acl''), (''memberuser_user'', PList [PStr ''ann''])] = Inr r \<and>
     map_of r ''user'' = Some (PList [PStr ''ann''])"
proof -
  let ?item = "[(''cn'', PStr ''acl''), (''memberuser_user'', PList [PStr ''ann''])]"
  obtain r where r: "munge_response_keys ?item = Inr r"
    by (simp add: munge_response_keys_def munge_key_step_def dindex_def is_member_key_def
        member_prefixes_def startswith_def)
  have "map_of r (renamed ''memberuser_user'') = map_of ?item ''memberuser_user''"
    by (rule caacl_keys_renamed [OF r]) (simp_all add: renamed_table)
  with r show ?thesis by (simp add: renamed_table)
qed

end
