(* ===== verification/IPA_Cert.thy ===== *)
theory IPA_Cert
  imports IPA_Contract
begin

text \<open>\<open>lib/modules/ipa_cert.py\<close>: the client for certificates (request and revoke).\<close>

section \<open>The code\<close>

definition CertIPAClient_class :: client_class where
  "CertIPAClient_class = IPAClient_class\<lparr>
     cname := ''cert'',
     methods := [(''add'', ''{}_request''), (''mod'', ''{}_request''), (''rem'', ''{}_revoke''),
                 (''find'', ''{}_find''), (''show'', ''{}_show'')],
     param_keys := [''serial_number'', ''req''],
     kw_args :=
       [(''principal'', kwarg ''str'' True),
        (''cacn'', (kwarg ''str'' False)\<lparr>sp_default := Some (PStr ''ipa'')\<rparr>),
        (''req'', kwarg ''str'' False),
        (''serial_number'', kwarg ''str'' False),
        (''revocation_reason'', (kwarg ''int'' False)\<lparr>sp_choices := map PInt [0..10]\<rparr>)],
     fetch_url_timeout := 60\<rparr>"

text \<open>\<open>i['status'] == 'VALID'\<close>.\<close>

definition cert_find_filter :: "self \<Rightarrow> pyval \<Rightarrow> exit + bool" where
  "cert_find_filter s i =
     ebind (py_index i ''status'') (\<lambda>v. Inr (py_eq v (PStr ''VALID'')))"

text \<open>
  \<open>re.match(r'CN=([^,]*),O=', subject)\<close>: the group ends at the first comma, which must be
  followed by \<open>O=\<close>.
\<close>

definition subject_cn :: "string \<Rightarrow> string option" where
  "subject_cn sub =
     (if take 3 sub = ''CN='' then
        let r = drop 3 sub; cn = takeWhile (\<lambda>c. c \<noteq> CHR '','') r in
        if take 3 (drop (length cn) r) = '',O='' then Some cn else None
      else None)"

fun subject_to_principal :: "pyval \<Rightarrow> exit + pyval" where
  "subject_to_principal (PStr sub) =
     Inr (PStr (case subject_cn sub of None \<Rightarrow> sub | Some cn \<Rightarrow> cn))"
| "subject_to_principal _ = Inl (Raise (TypeError ''expected string or buffer''))"

definition cert_munge_module_params :: "self \<Rightarrow> exit + pydict" where
  "cert_munge_module_params s =
     ebind (munge_module_params s) (\<lambda>item.
     ebind (dindex item ''principal'') (\<lambda>v.
     ebind (subject_to_principal v) (\<lambda>p.
       Inr (dset ''principal'' p (ddel ''principal'' item)))))"

definition cert_mod_request_params :: "self \<Rightarrow> exit + pyval list" where
  "cert_mod_request_params s =
     (case map_of (params s) ''req'' of
        None \<Rightarrow> Inl (fail_with (PStr ''req'')
                  (PStr ''Certificate requests must include \"req\" parameter''))
      | Some v \<Rightarrow> Inr [v])"

text \<open>Subscripting \<open>self.response_cleaned\<close>, which is \<open>None\<close> before the find completed.\<close>

definition response_attr :: "self \<Rightarrow> string \<Rightarrow> exit + pyval" where
  "response_attr s k =
     (case response_cleaned s of
        None \<Rightarrow> Inl (Raise (TypeError ''NoneType object has no attribute __getitem__''))
      | Some d \<Rightarrow> dindex d k)"

definition cert_rem_request_params ::
  "(self \<Rightarrow> exit + pyval list) \<Rightarrow> self \<Rightarrow> exit + pyval list" where
  "cert_rem_request_params mod_params s =
     ebind (response_attr s ''serial_number'') (\<lambda>v. Inr [v])"

definition cert_rem_request_item :: "self \<Rightarrow> exit + pydict" where
  "cert_rem_request_item s =
     (case map_of (canon_params s) ''revocation_reason'' of
        None \<Rightarrow> Inl (fail_with (PStr ''revoke certificate'')
                  (PStr ''revocation_reason parameter required''))
      | Some reason \<Rightarrow>
          ebind (response_attr s ''cacn'') (\<lambda>ca.
            Inr [(''cacn'', ca), (''revocation_reason'', reason)]))"

definition cert_find_request_item :: "self \<Rightarrow> exit + pydict \<times> self" where
  "cert_find_request_item s =
     ebind (dindex (params s) ''principal'') (\<lambda>pr.
     ebind (subject_to_principal pr) (\<lambda>subject.
     ebind (dindex (params s) ''cacn'') (\<lambda>ca.
       let item = [(''all'', PBool True), (''subject'', subject), (''cacn'', ca),
                   (''exactly'', PBool True)];
           sn = dget (params s) ''serial_number'' PNone
       in Inr (if py_truth sn
               then dset ''max_serial_number'' sn (dset ''min_serial_number'' sn item)
               else item, s))))"

definition cert_munge_response :: "self \<Rightarrow> pydict \<Rightarrow> exit + pydict \<times> pydict" where
  "cert_munge_response s item =
     (case map_of item ''subject'' of
        None \<Rightarrow> Inr (item, item)
      | Some sub \<Rightarrow> ebind (subject_to_principal sub) (\<lambda>p. Inr (dset ''principal'' p item, item)))"

definition cert_compute_changes :: "self \<Rightarrow> pydict \<Rightarrow> pydict \<Rightarrow> exit + changes" where
  "cert_compute_changes s change_params curr_params =
     ebind (compute_changes s change_params curr_params) (\<lambda>ch.
       Inr (if state s = PStr ''absent'' then ch\<lparr>scalars := []\<rparr> else ch))"

definition CertIPAClient_hooks :: hooks where
  "CertIPAClient_hooks = IPAClient_hooks\<lparr>
     h_find_filter := Some cert_find_filter,
     h_find_request_item := cert_find_request_item,
     h_munge_module_params := cert_munge_module_params,
     h_munge_response := cert_munge_response,
     h_compute_changes := cert_compute_changes,
     h_mod_request_params := cert_mod_request_params,
     h_rem_request_params := cert_rem_request_params,
     h_rem_request_item := cert_rem_request_item,
     h_is_rem_param_request := (\<lambda>_. False)\<rparr>"

definition cert_main ::
  "ansible_module \<Rightarrow> 'w fetch \<Rightarrow> 'w net \<Rightarrow> outcome \<times> self \<times> 'w net" where
  "cert_main = run_client CertIPAClient_hooks CertIPAClient_class"

section \<open>The contract\<close>

lemma cert_find_request_item_frame: "cert_find_request_item s = Inr (item, s') \<Longrightarrow> s' = s"
  by (auto simp: cert_find_request_item_def Let_def err_simps)

interpretation cert: ipa_client CertIPAClient_hooks CertIPAClient_class "{}"
  by unfold_locales
    (auto simp: CertIPAClient_hooks_def CertIPAClient_class_def IPAClient_hooks_def
      IPAClient_class_def rem_request_cleanup_def
      dest!: mod_rewrite_method cert_find_request_item_frame)

text \<open>The group of the pattern is the common name, for every name without a comma.\<close>

lemma subject_cn_roundtrip:
  assumes "CHR '','' \<notin> set cn"
  shows "subject_cn (''CN='' @ cn @ '',O='' @ realm) = Some cn"
proof -
  have "takeWhile (\<lambda>c. c \<noteq> CHR '','') (cn @ '',O='' @ realm) = cn"
    using assms by (subst takeWhile_append2) auto
  then show ?thesis by (simp add: subject_cn_def Let_def)
qed


section \<open>Properties\<close>

lemma efilter_all:
  "efilter p xs = Inr ys \<Longrightarrow> y \<in> set ys \<Longrightarrow> y \<in> set xs \<and> p y = Inr True"
  by (induction xs arbitrary: ys) (auto simp: err_simps split: if_splits)

lemma select_found_cases:
  assumes "select_found H s xs = Inr v" and "h_find_filter H = Some p"
  shows "v = PDict [] \<or> v \<in> set xs \<and> p s v = Inr True"
proof -
  from assms obtain ys where ys: "efilter (p s) xs = Inr ys"
    and v: "v = (if ys \<noteq> [] then last ys else PDict [])"
    by (auto simp: select_found_def err_simps)
  show ?thesis
  proof (cases "ys = []")
    case False
    with v efilter_all [OF ys, of "last ys"] show ?thesis by simp
  qed (use v in simp)
qed

text \<open>The certificate a find settles on is nothing, or one of the found ones whose status is
  \<open>VALID\<close>: expired and revoked certificates count as absent.\<close>

theorem cert_found_is_valid:
  assumes "select_found CertIPAClient_hooks s xs = Inr v"
  shows "v = PDict [] \<or>
    v \<in> set xs \<and> (\<exists>st. py_index v ''status'' = Inr st \<and> py_eq st (PStr ''VALID''))"
  using select_found_cases [OF assms, of cert_find_filter]
  by (auto simp: CertIPAClient_hooks_def cert_find_filter_def err_simps)

theorem cert_found_is_valid_witness:
  "select_found CertIPAClient_hooks (new_self CertIPAClient_class)
     [PDict [(''status'', PStr ''VALID'')], PDict [(''status'', PStr ''REVOKED'')]] =
     Inr (PDict [(''status'', PStr ''VALID'')]) \<and>
   (\<exists>st. py_index (PDict [(''status'', PStr ''VALID'')]) ''status'' = Inr st \<and>
      py_eq st (PStr ''VALID''))"
proof -
  have f: "select_found CertIPAClient_hooks (new_self CertIPAClient_class)
     [PDict [(''status'', PStr ''VALID'')], PDict [(''status'', PStr ''REVOKED'')]] =
     Inr (PDict [(''status'', PStr ''VALID'')])"
    by (simp add: select_found_def CertIPAClient_hooks_def cert_find_filter_def dindex_def)
  from cert_found_is_valid [OF f] f show ?thesis by simp
qed

text \<open>The revoke request takes the serial number and the CA from the found certificate and the
  reason from the task; without a reason no revoke request is made.\<close>

theorem cert_revoke_request:
  assumes "rem_request CertIPAClient_hooks s = Inr q"
  shows "\<exists>found sn ca reason. response_cleaned s = Some found \<and>
    map_of found ''serial_number'' = Some sn \<and> map_of found ''cacn'' = Some ca \<and>
    map_of (canon_params s) ''revocation_reason'' = Some reason \<and>
    r_name q = [sn] \<and> r_item q = [(''cacn'', ca), (''revocation_reason'', reason)]"
  using assms
  by (auto simp: rem_request_def err_simps CertIPAClient_hooks_def IPAClient_hooks_def
      rem_request_cleanup_def cert_rem_request_params_def cert_rem_request_item_def
      response_attr_def split: option.splits)

definition cert_sample :: self where
  "cert_sample = (new_self CertIPAClient_class)\<lparr>
     s_methods := [(''rem'', ''cert_revoke'')],
     canon_params := [(''revocation_reason'', PInt 4)],
     requests := [find_entry None None
       (Some [(''serial_number'', PInt 7), (''cacn'', PStr ''ipa'')])]\<rparr>"

theorem cert_revoke_request_witness:
  "\<exists>q. rem_request CertIPAClient_hooks cert_sample = Inr q \<and> r_name q = [PInt 7] \<and>
     r_item q = [(''cacn'', PStr ''ipa''), (''revocation_reason'', PInt 4)]"
proof -
  obtain q where q: "rem_request CertIPAClient_hooks cert_sample = Inr q"
    by (simp add: rem_request_def CertIPAClient_hooks_def IPAClient_hooks_def dindex_def
        rem_request_cleanup_def cert_rem_request_params_def cert_rem_request_item_def
        response_attr_def response_cleaned_def cert_sample_def find_entry_def)
  have "response_cleaned cert_sample = Some [(''serial_number'', PInt 7), (''cacn'', PStr ''ipa'')]"
    "canon_params cert_sample = [(''revocation_reason'', PInt 4)]"
    by (simp_all add: response_cleaned_def cert_sample_def find_entry_def)
  with cert_revoke_request [OF q] q show ?thesis by auto
qed

text \<open>C19: With \<open>state=exact\<close> the find step of the certificate module never succeeds on a reply
  that has an attribute the module has no parameter for: its reply is not cleaned, and the
  default of that attribute is looked up in \<open>argument_spec\<close>.\<close>

theorem cert_exact_fails:
  assumes "state s = PStr ''exact''" and "map_of reply k = Some v"
    and "map_of (argument_spec s) k = None" and "dhas (argument_spec s) ''principal''"
    and "map_of (canon_params s) k = None" and "map_of (param_data s) k = None"
  shows "find_digest CertIPAClient_hooks s before q (PDict reply) \<noteq> Inr s'"
proof
  assume "find_digest CertIPAClient_hooks s before q (PDict reply) = Inr s'"
  then obtain cleaned c left where m: "cert_munge_response s reply = Inr (cleaned, left)"
    and c: "compute_changes s (canon_params s) cleaned = Inr c"
    by (auto simp: find_digest_def err_simps CertIPAClient_hooks_def cert_compute_changes_def)
  have "k \<noteq> ''principal''" using assms(3,4) by auto
  with m assms(2) have "map_of cleaned k = Some v"
    by (auto simp: cert_munge_response_def err_simps split: option.splits)
  then have k: "k \<in> set (scalar_keys s (canon_params s) cleaned)"
    using assms(1,3,5,6) by (simp add: scalar_keys_iff is_list_param_def has_default_def)
  have "efold (store_step (spec_default s) (\<lambda>k. k) (\<lambda>k. dget (canon_params s) k))
      (scalar_keys s (canon_params s) cleaned) [] = Inr (scalars c)"
    using compute_changes_scalarsD [OF c] assms(1) by (simp add: scalar_changes_def)
  from efold_store(2) [OF this] k assms(3) show False
    by (auto simp: spec_default_def err_simps)
qed

definition cert_exact_sample :: self where
  "cert_exact_sample = (new_self CertIPAClient_class)\<lparr>
     argument_spec := [(''principal'', kwarg ''str'' True)],
     param_data := [(''principal'', ''str'')], state := PStr ''exact''\<rparr>"

theorem cert_exact_fails_witness:
  "find_digest CertIPAClient_hooks cert_exact_sample []
     \<lparr>r_method = ''cert_find'', r_name = [], r_item = []\<rparr>
     (PDict [(''status'', PStr ''VALID'')]) \<noteq> Inr cert_exact_sample"
  by (rule cert_exact_fails [where k = "''status''" and v = "PStr ''VALID''"])
    (simp_all add: cert_exact_sample_def new_self_def)

end
