(* ===== verification/IPA_DNSRecord.thy ===== *)
theory IPA_DNSRecord
  imports IPA_Contract
begin

text \<open>\<open>lib/modules/ipa_dnsrecord.py\<close>: the client for DNS records.\<close>

section \<open>The code\<close>

definition DNSRecordIPAClient_class :: client_class where
  "DNSRecordIPAClient_class = IPAClient_class\<lparr>
     cname := ''dnsrecord'',
     param_keys := [''idnsname'', ''zone''],
     kw_args :=
       [(''zone'', kwarg ''str'' True),
        (''idnsname'', (kwarg ''str'' True)\<lparr>sp_aliases := [''name'']\<rparr>)] @
       map (\<lambda>k. (k, kwarg ''list'' False))
         [''arecord'', ''aaaarecord'', ''a6record'', ''afsdbrecord'', ''cnamerecord'',
          ''certrecord'', ''dlvrecord'', ''dnamerecord'', ''dsrecord'', ''ksrecord'',
          ''locrecord'', ''mxrecord'', ''naptrrecord'', ''nsrecord'', ''ptrrecord'',
          ''srvrecord'', ''sshfprecord'', ''tlsarecord'', ''txtrecord'']\<rparr>"

definition dnsrecord_find_request_params :: "self \<Rightarrow> exit + pyval list" where
  "dnsrecord_find_request_params s =
     ebind (clean s (params s)) (\<lambda>cleaned_params.
     ebind (dindex cleaned_params ''zone'') (\<lambda>z. Inr [z]))"

definition dns_name :: "pyval \<Rightarrow> pyval" where
  "dns_name v = PDict [(''__dns_name__'', v)]"

definition dnsrecord_find_request_item :: "self \<Rightarrow> exit + pydict \<times> self" where
  "dnsrecord_find_request_item s =
     ebind (clean s (params s)) (\<lambda>cleaned_params.
     ebind (dindex cleaned_params ''idnsname'') (\<lambda>nm.
       let s' = s\<lparr>is_origin := py_eq nm (PStr ''@'')\<rparr>
       in Inr (if is_origin s' then [(''all'', PBool True)]
               else [(''all'', PBool True), (''idnsname'', dns_name nm)], s')))"

definition dnsrecord_find_filter :: "self \<Rightarrow> pyval \<Rightarrow> exit + bool" where
  "dnsrecord_find_filter s item =
     (if \<not> is_origin s then Inr True
      else ebind (py_index item ''idnsname'') (\<lambda>v. Inr (py_eq v (PList [PStr ''@'']))))"

definition dnsrecord_mod_request_params :: "self \<Rightarrow> exit + pyval list" where
  "dnsrecord_mod_request_params s =
     ebind (clean s (params s)) (\<lambda>cleaned_params.
     ebind (dindex cleaned_params ''zone'') (\<lambda>z.
     ebind (dindex cleaned_params ''idnsname'') (\<lambda>nm. Inr [z, dns_name nm])))"

definition dnsrecord_rem_request_cleanup :: "self \<Rightarrow> request \<Rightarrow> request" where
  "dnsrecord_rem_request_cleanup s r = r\<lparr>r_item := dset ''del_all'' (PBool True) (r_item r)\<rparr>"

definition DNSRecordIPAClient_hooks :: hooks where
  "DNSRecordIPAClient_hooks = IPAClient_hooks\<lparr>
     h_find_filter := Some dnsrecord_find_filter,
     h_find_request_params := dnsrecord_find_request_params,
     h_find_request_item := dnsrecord_find_request_item,
     h_mod_request_params := dnsrecord_mod_request_params,
     h_rem_request_cleanup := dnsrecord_rem_request_cleanup\<rparr>"

definition dnsrecord_main ::
  "ansible_module \<Rightarrow> 'w fetch \<Rightarrow> 'w net \<Rightarrow> outcome \<times> self \<times> 'w net" where
  "dnsrecord_main = run_client DNSRecordIPAClient_hooks DNSRecordIPAClient_class"

section \<open>The contract\<close>

interpretation dnsrecord: ipa_client DNSRecordIPAClient_hooks DNSRecordIPAClient_class "{}"
  by unfold_locales
    (auto simp: DNSRecordIPAClient_hooks_def DNSRecordIPAClient_class_def IPAClient_hooks_def
      IPAClient_class_def dnsrecord_rem_request_cleanup_def dnsrecord_find_request_item_def
      Let_def err_simps dest!: mod_rewrite_method)


section \<open>Properties\<close>

text \<open>The delete request of a DNS record names its zone and the record, as they are in the
  cleaned parameters, and asks for all of the record's entries.\<close>

theorem dnsrecord_delete_request:
  assumes "rem_request DNSRecordIPAClient_hooks s = Inr q" and "clean s (params s) = Inr cp"
  shows "\<exists>z nm. map_of cp ''zone'' = Some z \<and> map_of cp ''idnsname'' = Some nm \<and>
    r_name q = [z, dns_name nm] \<and> r_item q = [(''del_all'', PBool True)]"
  using assms
  by (auto simp: rem_request_def err_simps DNSRecordIPAClient_hooks_def IPAClient_hooks_def
      rem_request_params_def rem_request_item_def dnsrecord_mod_request_params_def
      dnsrecord_rem_request_cleanup_def)

definition dnsrecord_sample :: self where
  "dnsrecord_sample = (new_self DNSRecordIPAClient_class)\<lparr>
     s_methods := [(''rem'', ''dnsrecord_del'')],
     param_data := [(''zone'', ''str''), (''idnsname'', ''str'')],
     params := [(''zone'', PStr ''example.com''), (''idnsname'', PStr ''www''), (''arecord'', PNone)]\<rparr>"

theorem dnsrecord_delete_request_witness:
  "\<exists>q. rem_request DNSRecordIPAClient_hooks dnsrecord_sample = Inr q \<and>
    r_name q = [PStr ''example.com'', dns_name (PStr ''www'')] \<and>
    r_item q = [(''del_all'', PBool True)]"
proof -
  have c: "clean dnsrecord_sample (params dnsrecord_sample) =
      Inr [(''zone'', PStr ''example.com''), (''idnsname'', PStr ''www'')]"
    by (simp add: clean_def clean_step_def clean_value_def dnsrecord_sample_def)
  obtain q where q: "rem_request DNSRecordIPAClient_hooks dnsrecord_sample = Inr q"
    using c
    by (simp add: rem_request_def DNSRecordIPAClient_hooks_def IPAClient_hooks_def
        rem_request_params_def rem_request_item_def dnsrecord_mod_request_params_def dindex_def
        dnsrecord_sample_def)
  from dnsrecord_delete_request [OF q c] q show ?thesis by auto
qed

end
