(* ===== verification/IPA_DNSZone.thy ===== *)
theory IPA_DNSZone
  imports IPA_Enablable
begin

text \<open>\<open>lib/modules/ipa_dnszone.py\<close>: the client for DNS zones.\<close>

definition DNSZoneIPAClient_class :: client_class where
  "DNSZoneIPAClient_class = EnablableIPAClient_class\<lparr>
     cname := ''dnszone'',
     param_keys := [''idnsname''],
     enablekey := Some ''idnszoneactive'',
     kw_args :=
       [(''idnsname'', (kwarg ''str'' True)\<lparr>sp_aliases := [''name'']\<rparr>),
        (''idnssoarname'', kwarg ''str'' False),
        (''idnssoamname'', kwarg ''str'' False),
        (''idnszoneactive'', kwarg ''bool'' False),
        (''idnssoaserial'', kwarg ''str'' False),
        (''idnssoarefresh'', kwarg ''str'' False),
        (''idnssoaretry'', kwarg ''str'' False),
        (''idnssoaexpire'', kwarg ''str'' False),
        (''idnssoaminimum'', kwarg ''str'' False),
        (''idnsallowquery'', kwarg ''str'' False),
        (''idnsallowtransfer'', kwarg ''str'' False),
        (''idnsallowdynupdate'', kwarg ''bool'' False),
        (''idnsupdatepolicy'', kwarg ''str'' False),
        (''nsrecord'', kwarg ''list'' False)]\<rparr>"

definition DNSZoneIPAClient_hooks :: hooks where
  "DNSZoneIPAClient_hooks = EnablableIPAClient_hooks"

definition dnszone_main ::
  "ansible_module \<Rightarrow> 'w fetch \<Rightarrow> 'w net \<Rightarrow> outcome \<times> self \<times> 'w net" where
  "dnszone_main = run_client DNSZoneIPAClient_hooks DNSZoneIPAClient_class"

interpretation dnszone: enablable_client DNSZoneIPAClient_hooks DNSZoneIPAClient_class "{}"
  by unfold_locales
    (auto simp: DNSZoneIPAClient_hooks_def DNSZoneIPAClient_class_def EnablableIPAClient_hooks_def
      EnablableIPAClient_class_def IPAClient_hooks_def IPAClient_class_def enablable_own_def
      rem_request_cleanup_def find_request_item_def kwarg_def
      dest: enable_or_disable_queues mod_rewrite_method enable_or_disable_idle split: if_splits)

end
