(* ===== verification/IPA_Group.thy ===== *)
theory IPA_Group
  imports IPA_Contract
begin

text \<open>\<open>lib/modules/ipa_group.py\<close>: the client for user groups.\<close>

section \<open>The code\<close>

definition GroupIPAClient_class :: client_class where
  "GroupIPAClient_class = IPAClient_class\<lparr>
     cname := ''group'',
     param_keys := [''cn''],
     class_base_keys := Some [''description'', ''gidnumber'', ''nonposix'', ''external''],
     change_functions := change_functions IPAClient_class @ [''handle_members''],
     kw_args :=
       [(''cn'', (kwarg ''str'' True)\<lparr>sp_aliases := [''name'']\<rparr>),
        (''description'', kwarg ''str'' False),
        (''gidnumber'', (kwarg ''int'' False)\<lparr>sp_aliases := [''gid'']\<rparr>),
        (''nonposix'', kwarg ''bool'' False),
        (''external'', kwarg ''bool'' False),
        (''member_group'', (kwarg ''list'' False)\<lparr>sp_aliases := [''group'']\<rparr>),
        (''member_user'', (kwarg ''list'' False)\<lparr>sp_aliases := [''user'']\<rparr>)]\<rparr>"

text \<open>\<open>dict(all=True)\<close> with the members that are not \<open>None\<close>.\<close>

definition members_item :: "pydict \<Rightarrow> pydict" where
  "members_item d =
     (let users = map_of d ''member_user''; groups = map_of d ''member_group'';
          item = [(''all'', PBool True)];
          item = (case users of None \<Rightarrow> item | Some v \<Rightarrow> dset ''user'' v item)
      in case groups of None \<Rightarrow> item | Some v \<Rightarrow> dset ''group'' v item)"

definition handle_members_step :: "(self \<Rightarrow> pydict) \<times> string \<Rightarrow> self \<Rightarrow> exit + self" where
  "handle_members_step p s =
     (let d = fst p s; m = snd p in
      if map_of d ''member_user'' = None \<and> map_of d ''member_group'' = None then Inr s
      else
        let s1 = s\<lparr>changed := True\<rparr> in
        if check_mode s1 then Inr s1
        else
          ebind (base_mod_request_params [] s1) (\<lambda>nm.
            Inr (enqueue m \<lparr>r_method = m, r_name = nm, r_item = members_item d\<rparr> s1)))"

definition handle_members :: change_function where
  "handle_members s =
     ebind (efold handle_members_step
              [(list_add \<circ> diffs, ''group_add_member''), (list_del \<circ> diffs, ''group_remove_member'')] s)
       (\<lambda>s'. Inr (False, s'))"

definition GroupIPAClient_hooks :: hooks where
  "GroupIPAClient_hooks = IPAClient_hooks\<lparr>
     h_own := (\<lambda>nm. if nm = ''handle_members'' then Some handle_members else None)\<rparr>"

definition group_main ::
  "ansible_module \<Rightarrow> 'w fetch \<Rightarrow> 'w net \<Rightarrow> outcome \<times> self \<times> 'w net" where
  "group_main = run_client GroupIPAClient_hooks GroupIPAClient_class"

section \<open>The contract\<close>

definition group_methods :: "string set" where
  "group_methods = {''group_add_member'', ''group_remove_member''}"

lemma handle_members_step_queues:
  "handle_members_step p s = Inr s' \<Longrightarrow> snd p \<in> M \<Longrightarrow> queues M s s'"
  by (auto simp: handle_members_step_def Let_def err_simps queues_simps split: if_splits)

lemma handle_members_queues:
  "handle_members s = Inr (b, s') \<Longrightarrow> queues (group_methods \<union> N) s s'"
  by (auto simp: handle_members_def ebind_Inr_iff group_methods_def
      intro!: efold_queues [of _ handle_members_step] elim!: handle_members_step_queues simp del: efold.simps)

lemma handle_members_idle: "settled s \<Longrightarrow> handle_members s = Inr (False, s)"
  by (simp add: handle_members_def handle_members_step_def settled_def)

interpretation group: ipa_client GroupIPAClient_hooks GroupIPAClient_class group_methods
  by unfold_locales
    (auto simp: GroupIPAClient_hooks_def GroupIPAClient_class_def IPAClient_hooks_def
      IPAClient_class_def rem_request_cleanup_def find_request_item_def handle_members_idle
      dest: mod_rewrite_method handle_members_queues split: if_splits)


section \<open>Properties\<close>

lemma members_item_lookup:
  "map_of (members_item d) ''user'' = map_of d ''member_user''"
  "map_of (members_item d) ''group'' = map_of d ''member_group''"
  by (simp_all add: members_item_def Let_def split: option.splits)

definition member_entry :: "pyval list \<Rightarrow> pydict \<Rightarrow> string \<Rightarrow> entry list" where
  "member_entry nm d m =
     (if map_of d ''member_user'' = None \<and> map_of d ''member_group'' = None then []
      else [\<lparr>e_name = m, e_request = Some \<lparr>r_method = m, r_name = nm, r_item = members_item d\<rparr>,
             e_response = None, e_response_cleaned = None\<rparr>])"

lemma handle_members_step_entries:
  assumes "\<not> check_mode s" and "base_mod_request_params [] s = Inr nm"
  shows "\<exists>s'. handle_members_step (f, m) s = Inr s' \<and>
    requests s' = requests s @ member_entry nm (f s) m \<and> diffs s' = diffs s \<and>
    \<not> check_mode s' \<and> base_mod_request_params [] s' = Inr nm \<and>
    (changed s' \<longleftrightarrow> changed s \<or> member_entry nm (f s) m \<noteq> [])"
  using assms
  by (auto simp: handle_members_step_def Let_def member_entry_def enqueue_def
      base_mod_request_params_def)

text \<open>Outside check mode the group module queues the members to add before those to remove, at
  most one request each, whose \<open>user\<close> and \<open>group\<close> are the differences of the two member lists,
  and marks the object changed exactly when it queued one.\<close>

theorem group_member_requests:
  assumes "\<not> check_mode s" and "base_mod_request_params [] s = Inr nm"
  shows "\<exists>s'. handle_members s = Inr (False, s') \<and>
    requests s' = requests s @
      member_entry nm (list_add (diffs s)) ''group_add_member'' @
      member_entry nm (list_del (diffs s)) ''group_remove_member'' \<and>
    (changed s' \<longleftrightarrow> changed s \<or> length (requests s) < length (requests s'))"
proof -
  obtain s1 where s1: "handle_members_step (list_add \<circ> diffs, ''group_add_member'') s = Inr s1"
    "requests s1 = requests s @ member_entry nm (list_add (diffs s)) ''group_add_member''"
    "diffs s1 = diffs s" "\<not> check_mode s1" "base_mod_request_params [] s1 = Inr nm"
    "changed s1 \<longleftrightarrow> changed s \<or> member_entry nm (list_add (diffs s)) ''group_add_member'' \<noteq> []"
    using handle_members_step_entries [OF assms, of "list_add \<circ> diffs" "''group_add_member''"]
    by auto
  obtain s2 where s2: "handle_members_step (list_del \<circ> diffs, ''group_remove_member'') s1 = Inr s2"
    "requests s2 = requests s1 @ member_entry nm (list_del (diffs s)) ''group_remove_member''"
    "changed s2 \<longleftrightarrow> changed s1 \<or> member_entry nm (list_del (diffs s)) ''group_remove_member'' \<noteq> []"
    using handle_members_step_entries [OF s1(4,5), of "list_del \<circ> diffs" "''group_remove_member''"]
      s1(3) by auto
  from s1(1) s2(1) have "handle_members s = Inr (False, s2)"
    by (simp add: handle_members_def)
  with s1 s2 show ?thesis by auto
qed

definition group_sample :: self where
  "group_sample = (new_self GroupIPAClient_class)\<lparr>
     param_data := [(''cn'', ''str''), (''member_user'', ''list'')],
     params := [(''cn'', PStr ''staff'')],
     diffs := \<lparr>scalars = [], list_add = [(''member_user'', PList [PStr ''ann''])],
               list_del = []\<rparr>\<rparr>"

theorem group_member_requests_witness:
  "\<exists>s'. handle_members group_sample = Inr (False, s') \<and> changed s' \<and> length (requests s') = 1"
proof -
  have n: "\<not> check_mode group_sample"
    "base_mod_request_params [] group_sample = Inr [PStr ''staff'']"
    by (simp_all add: group_sample_def new_self_def base_mod_request_params_def
        GroupIPAClient_class_def)
  have d: "diffs group_sample = \<lparr>scalars = [], list_add = [(''member_user'', PList [PStr ''ann''])],
      list_del = []\<rparr>" "requests group_sample = []"
    by (simp_all add: group_sample_def new_self_def)
  from group_member_requests [OF n] show ?thesis by (auto simp: d member_entry_def)
qed

end
