(* ===== verification/IPA_User.thy ===== *)
theory IPA_User
  imports IPA_Enablable
begin

text \<open>\<open>lib/modules/ipa_user.py\<close>: the client for users.\<close>

section \<open>The code\<close>

definition user_kw_args :: "(string \<times> argspec) list" where
  "user_kw_args =
     (let str = kwarg ''str'' False; lst = kwarg ''list'' False in
       [(''uid'', (kwarg ''str'' True)\<lparr>sp_aliases := [''name'']\<rparr>),
        (''givenname'', str\<lparr>sp_aliases := [''first'']\<rparr>),
        (''sn'', str\<lparr>sp_aliases := [''last'']\<rparr>),
        (''cn'', str),
        (''displayname'', str),
        (''initials'', str),
        (''homedirectory'', str\<lparr>sp_aliases := [''homedir'']\<rparr>),
        (''gecos'', str),
        (''loginshell'', str\<lparr>sp_aliases := [''shell'']\<rparr>),
        (''mail'', lst\<lparr>sp_aliases := [''email'']\<rparr>),
        (''userpassword'', str\<lparr>sp_aliases := [''password''], sp_no_log := True\<rparr>),
        (''gidnumber'', kwarg ''int'' False),
        (''street'', str),
        (''l'', str\<lparr>sp_aliases := [''city'']\<rparr>),
        (''st'', str),
        (''postalcode'', str),
        (''telephonenumber'', lst\<lparr>sp_aliases := [''phone'']\<rparr>),
        (''mobile'', lst),
        (''pager'', lst),
        (''fax'', lst),
        (''orgunit'', str),
        (''title'', str),
        (''manager'', str),
        (''carlicense'', str),
        (''ipasshpubkey'', str\<lparr>sp_aliases := [''sshpubkey'']\<rparr>),
        (''user_auth_type'', str\<lparr>sp_choices := [PStr ''password'', PStr ''radius'', PStr ''otp'']\<rparr>),
        (''category'', str\<lparr>sp_aliases := [''class'']\<rparr>),
        (''radius'', str),
        (''radius_username'', str),
        (''departmentnumber'', str),
        (''employeenumber'', str),
        (''employeetype'', str),
        (''preferredlanguage'', str),
        (''nsaccountlock'', (kwarg ''bool'' False)\<lparr>sp_default := Some (PBool False)\<rparr>),
        (''usercertificate'', lst\<lparr>sp_aliases := [''certificate'']\<rparr>),
        (''krbprincipalname'', lst\<lparr>sp_aliases := [''principal'']\<rparr>)])"

definition UserIPAClient_class :: client_class where
  "UserIPAClient_class = EnablableIPAClient_class\<lparr>
     cname := ''user'',
     param_keys := [''uid''],
     enablekey := Some ''nsaccountlock'',
     enablekey_sense_inverted := True,
     class_base_keys := Some
       [''givenname'', ''sn'', ''cn'', ''displayname'', ''initials'', ''homedirectory'',
        ''gecos'', ''loginshell'', ''mail'', ''userpassword'', ''gidnumber'', ''street'', ''l'',
        ''st'', ''postalcode'', ''telephonenumber'', ''mobile'', ''pager'', ''fax'', ''orgunit'',
        ''title'', ''manager'', ''carlicense'', ''ipasshpubkey'', ''user_auth_type'',
        ''category'', ''radius'', ''radius_username'', ''departmentnumber'',
        ''employeenumber'', ''employeetype'', ''preferredlanguage''],
     change_functions := change_functions EnablableIPAClient_class @
       [''handle_cert'', ''handle_principal''],
     kw_args := user_kw_args\<rparr>"

text \<open>A certificate: the string inside \<open>{'__base64__': ...}\<close>, anything else as it is.\<close>

definition unwrap_cert :: "pyval \<Rightarrow> pyval" where
  "unwrap_cert v =
     (case v of PDict d \<Rightarrow> (case map_of d ''__base64__'' of Some w \<Rightarrow> w | None \<Rightarrow> v) | _ \<Rightarrow> v)"

definition user_munge_usercertificate :: "pydict \<Rightarrow> exit + pydict" where
  "user_munge_usercertificate response =
     (case map_of response ''usercertificate'' of
        None \<Rightarrow> Inr response
      | Some vs \<Rightarrow>
          ebind (py_iter vs) (\<lambda>certs.
            Inr (dset ''usercertificate'' (PList (map unwrap_cert certs))
                   (ddel ''usercertificate'' response))))"

text \<open>
  The match of \<open>([^@]*)(@[^@]*)?$\<close>: a string with at most one \<open>@\<close>; the group is what precedes
  it. A value that is no string makes \<open>re.match\<close> raise.
\<close>

definition krbprincipal_match :: "string \<Rightarrow> string option" where
  "krbprincipal_match s =
     (if length (filter (\<lambda>c. c = CHR ''@'') s) \<le> 1 then Some (takeWhile (\<lambda>c. c \<noteq> CHR ''@'') s)
      else None)"

fun strip_realm :: "pyval \<Rightarrow> exit + pyval" where
  "strip_realm (PStr s) =
     Inr (case krbprincipal_match s of Some t \<Rightarrow> PStr t | None \<Rightarrow> PStr s)"
| "strip_realm _ = Inl (Raise (TypeError ''expected string or buffer''))"

text \<open>\<open>xs.remove(x)\<close>: the first equal element.\<close>

fun py_remove1 :: "pyval \<Rightarrow> pyval list \<Rightarrow> pyval list" where
  "py_remove1 x [] = []"
| "py_remove1 x (y # ys) = (if py_eq x y then ys else y # py_remove1 x ys)"

definition drop_canonical :: "pydict \<Rightarrow> pyval list \<Rightarrow> pyval list" where
  "drop_canonical response princs =
     (case map_of response ''krbcanonicalname'' of
        None \<Rightarrow> princs
      | Some c \<Rightarrow> if c \<noteq> PNone \<and> py_mem c princs then py_remove1 c princs else princs)"

text \<open>
  The list is updated in place, so the caller's response sees the new list too. The API always
  answers with a list here; other shapes are not followed.
\<close>

definition user_munge_krbprincipalname :: "pydict \<Rightarrow> exit + pyval list option" where
  "user_munge_krbprincipalname response =
     (case map_of response ''krbprincipalname'' of
        None \<Rightarrow> Inr None
      | Some (PList princs) \<Rightarrow>
          ebind (emap strip_realm (drop_canonical response princs)) (\<lambda>ps. Inr (Some ps))
      | Some _ \<Rightarrow> Inl (Raise (OutOfModel ''krbprincipalname is no list'')))"

definition with_principals :: "pyval list option \<Rightarrow> pydict \<Rightarrow> pydict" where
  "with_principals r d =
     (case r of None \<Rightarrow> d | Some ps \<Rightarrow> dset ''krbprincipalname'' (PList ps) d)"

definition user_munge_response :: "self \<Rightarrow> pydict \<Rightarrow> exit + pydict \<times> pydict" where
  "user_munge_response s response =
     ebind (user_munge_usercertificate response) (\<lambda>r1.
     ebind (user_munge_krbprincipalname r1) (\<lambda>ps.
     ebind (munge_response s (with_principals ps r1)) (\<lambda>(cleaned, _).
       Inr (cleaned, with_principals ps response))))"

definition handle_cert_step :: "(self \<Rightarrow> pydict) \<times> string \<Rightarrow> self \<Rightarrow> exit + self" where
  "handle_cert_step p s =
     (case map_of (fst p s) ''usercertificate'' of
        None \<Rightarrow> Inr s
      | Some certs \<Rightarrow>
          let s1 = s\<lparr>changed := True\<rparr> in
          if check_mode s1 then Inr s1
          else
            ebind (base_mod_request_params [] s1) (\<lambda>nm.
            ebind (py_iter certs) (\<lambda>cs.
              Inr (enqueue (snd p)
                \<lparr>r_method = snd p, r_name = nm,
                 r_item = [(''all'', PBool True),
                           (''usercertificate'',
                            PList (map (\<lambda>c. PDict [(''__base64__'', c)]) cs))]\<rparr> s1))))"

definition handle_cert :: change_function where
  "handle_cert s =
     ebind (efold handle_cert_step
              [(list_add \<circ> diffs, ''user_add_cert''), (list_del \<circ> diffs, ''user_remove_cert'')] s)
       (\<lambda>s'. Inr (False, s'))"

definition handle_principal_step :: "(self \<Rightarrow> pydict) \<times> string \<Rightarrow> self \<Rightarrow> exit + self" where
  "handle_principal_step p s =
     (case map_of (fst p s) ''krbprincipalname'' of
        None \<Rightarrow> Inr s
      | Some princs \<Rightarrow>
          if check_mode s then Inr s
          else
            ebind (base_mod_request_params [princs] s) (\<lambda>nm.
              Inr (enqueue (snd p)
                \<lparr>r_method = snd p, r_name = nm, r_item = [(''all'', PBool True)]\<rparr> s)))"

definition handle_principal :: change_function where
  "handle_principal s =
     ebind (efold handle_principal_step
              [(list_add \<circ> diffs, ''user_add_principal''),
               (list_del \<circ> diffs, ''user_remove_principal'')] s)
       (\<lambda>s'. Inr (False, s'))"

definition UserIPAClient_hooks :: hooks where
  "UserIPAClient_hooks = EnablableIPAClient_hooks\<lparr>
     h_munge_response := user_munge_response,
     h_own := (\<lambda>nm. if nm = ''handle_cert'' then Some handle_cert
                     else if nm = ''handle_principal'' then Some handle_principal
                     else enablable_own (base_mod_request_params []) nm)\<rparr>"

definition user_main ::
  "ansible_module \<Rightarrow> 'w fetch \<Rightarrow> 'w net \<Rightarrow> outcome \<times> self \<times> 'w net" where
  "user_main = run_client UserIPAClient_hooks UserIPAClient_class"

section \<open>The contract\<close>

definition user_methods :: "string set" where
  "user_methods = {''user_add_cert'', ''user_remove_cert'', ''user_add_principal'',
     ''user_remove_principal''}"

lemma handle_cert_step_queues:
  "handle_cert_step p s = Inr s' \<Longrightarrow> snd p \<in> M \<Longrightarrow> queues M s s'"
  by (auto simp: handle_cert_step_def Let_def err_simps queues_simps split: if_splits option.splits)

lemma handle_principal_step_queues:
  "handle_principal_step p s = Inr s' \<Longrightarrow> snd p \<in> M \<Longrightarrow> queues M s s'"
  by (auto simp: handle_principal_step_def Let_def err_simps queues_simps
      split: if_splits option.splits)

lemma handle_cert_queues: "handle_cert s = Inr (b, s') \<Longrightarrow> queues (user_methods \<union> N) s s'"
  by (auto simp: handle_cert_def ebind_Inr_iff user_methods_def
      intro!: efold_queues [of _ handle_cert_step] elim!: handle_cert_step_queues
      simp del: efold.simps)

lemma handle_principal_queues: "handle_principal s = Inr (b, s') \<Longrightarrow> queues (user_methods \<union> N) s s'"
  by (auto simp: handle_principal_def ebind_Inr_iff user_methods_def
      intro!: efold_queues [of _ handle_principal_step] elim!: handle_principal_step_queues
      simp del: efold.simps)

lemma handle_cert_idle: "settled s \<Longrightarrow> handle_cert s = Inr (False, s)"
  by (simp add: handle_cert_def handle_cert_step_def settled_def)

lemma handle_principal_idle: "settled s \<Longrightarrow> handle_principal s = Inr (False, s)"
  by (simp add: handle_principal_def handle_principal_step_def settled_def)

interpretation user: enablable_client UserIPAClient_hooks UserIPAClient_class user_methods
  by unfold_locales
    (auto simp: UserIPAClient_hooks_def UserIPAClient_class_def EnablableIPAClient_hooks_def
      EnablableIPAClient_class_def IPAClient_hooks_def IPAClient_class_def enablable_own_def
      rem_request_cleanup_def find_request_item_def kwarg_def handle_cert_idle
      handle_principal_idle user_kw_args_def Let_def
      dest: enable_or_disable_queues mod_rewrite_method enable_or_disable_idle
        handle_cert_queues handle_principal_queues
      intro: queues_mono [OF enable_or_disable_queues] split: if_splits)


section \<open>Properties\<close>

definition name_part :: "string \<Rightarrow> string" where
  "name_part p = takeWhile (\<lambda>c. c \<noteq> CHR ''@'') p"

definition one_realm :: "string \<Rightarrow> bool" where
  "one_realm p \<longleftrightarrow> length (filter (\<lambda>c. c = CHR ''@'') p) \<le> 1"

lemma py_remove1_principals: "py_remove1 (PStr nm) (map PStr ps) = map PStr (remove1 nm ps)"
  by (induction ps) (auto simp: hkey_PStr)

lemma emap_strip_realm:
  "list_all one_realm ps \<Longrightarrow> emap strip_realm (map PStr ps) = Inr (map (\<lambda>p. PStr (name_part p)) ps)"
  by (induction ps) (auto simp: krbprincipal_match_def one_realm_def name_part_def)

text \<open>The principals compared with the task's are the found ones without the canonical name and
  without their realms, in the order of the response.\<close>

theorem user_principals:
  assumes "map_of response ''krbprincipalname'' = Some (PList (map PStr ps))"
    and "map_of response ''krbcanonicalname'' = Some (PStr c)" and "list_all one_realm ps"
  shows "user_munge_krbprincipalname response =
    Inr (Some (map (\<lambda>p. PStr (name_part p)) (remove1 c ps)))"
proof -
  have "drop_canonical response (map PStr ps) = map PStr (remove1 c ps)"
    using assms(2)
    by (auto simp: drop_canonical_def py_remove1_principals py_mem_PStr remove1_idem image_iff)
  moreover have "list_all one_realm (remove1 c ps)"
    using assms(3) notin_set_remove1 by (fastforce simp: list_all_iff)
  ultimately show ?thesis
    using assms(1) by (simp add: user_munge_krbprincipalname_def emap_strip_realm)
qed

theorem user_principals_witness:
  "user_munge_krbprincipalname
     [(''krbcanonicalname'', PStr ''ann@X''),
      (''krbprincipalname'', PList (map PStr [''ann@X'', ''a.smith@X'']))] =
     Inr (Some [PStr ''a.smith''])"
  using user_principals [where c = "''ann@X''" and ps = "[''ann@X'', ''a.smith@X'']" and response =
      "[(''krbcanonicalname'', PStr ''ann@X''),
        (''krbprincipalname'', PList (map PStr [''ann@X'', ''a.smith@X'']))]"]
  by (simp add: one_realm_def name_part_def)

text \<open>The certificates sent are wrapped the way the found ones are unwrapped.\<close>

lemma unwrap_wrapped: "unwrap_cert (PDict [(''__base64__'', c)]) = c"
  by (simp add: unwrap_cert_def)

end
