(* ===== verification/IPA_Service.thy ===== *)
theory IPA_Service
  imports IPA_User
begin

text \<open>\<open>lib/modules/ipa_service.py\<close>: the client for Kerberos services.\<close>

section \<open>The code\<close>

definition service_kw_args :: "(string \<times> argspec) list" where
  "service_kw_args =
     (let str = kwarg ''str'' False; lst = kwarg ''list'' False; bool = kwarg ''bool'' False in
       [(''krbcanonicalname'', (kwarg ''str'' True)\<lparr>sp_aliases := [''name'']\<rparr>),
        (''usercertificate'', str\<lparr>sp_aliases := [''certificate'']\<rparr>),
        (''krbprincipalauthind'', str\<lparr>sp_aliases := [''auth_ind'']\<rparr>),
        (''ipakrbrequirespreauth'', bool\<lparr>sp_default := Some (PBool True),
           sp_aliases := [''requires_pre_auth'']\<rparr>),
        (''ipakrbokasdelegate'', bool\<lparr>sp_default := Some (PBool False),
           sp_aliases := [''ok_as_delegate'']\<rparr>),
        (''ipakrboktoauthasdelegate'', bool\<lparr>sp_default := Some (PBool False),
           sp_aliases := [''ok_to_auth_as_delegate'']\<rparr>),
        (''krbprincipalname'', lst),
        (''managedby_host'', lst),
        (''ipaallowedtoperform_write_keys_user'', lst),
        (''ipaallowedtoperform_write_keys_group'', lst),
        (''ipaallowedtoperform_write_keys_host'', lst),
        (''ipaallowedtoperform_write_keys_hostgroup'', lst),
        (''ipaallowedtoperform_read_keys_user'', lst),
        (''ipaallowedtoperform_read_keys_group'', lst),
        (''ipaallowedtoperform_read_keys_host'', lst),
        (''ipaallowedtoperform_read_keys_hostgroup'', lst)])"

definition ServiceIPAClient_class :: client_class where
  "ServiceIPAClient_class = IPAClient_class\<lparr>
     cname := ''service'',
     methods := [(''add'', ''{}_add''), (''rem'', ''{}_del''), (''mod'', ''{}_mod''),
                 (''find'', ''{}_find''), (''show'', ''{}_show'')],
     change_functions := change_functions IPAClient_class @
       [''handle_managedby_host'', ''handle_allow_keytab''],
     param_keys := [''krbcanonicalname''],
     class_base_keys := Some
       [''krbcanonicalname'', ''usercertificate'', ''krbprincipalauthind'',
        ''ipakrbrequirespreauth'', ''ipakrbokasdelegate'',
        ''ipakrboktoauthasdelegate'', ''krbprincipalname'',
        ''write_keytab_users'', ''write_keytab_groups'',
        ''write_keytab_hosts'', ''write_keytab_hostgroups'',
        ''read_keytab_users'', ''read_keytab_groups'',
        ''read_keytab_hosts'', ''read_keytab_hostgroups''],
     kw_args := service_kw_args\<rparr>"

text \<open>The certificate here is a scalar, so the found value is one dictionary.\<close>

definition service_munge_usercertificate :: "pydict \<Rightarrow> pydict" where
  "service_munge_usercertificate response =
     (case map_of response ''usercertificate'' of
        None \<Rightarrow> response
      | Some v \<Rightarrow> dset ''usercertificate'' (unwrap_cert v) (ddel ''usercertificate'' response))"

text \<open>\<open>list.remove\<close>, which raises when nothing is equal to the argument.\<close>

definition py_remove :: "pyval \<Rightarrow> pyval list \<Rightarrow> exit + pyval list" where
  "py_remove x xs =
     (if py_mem x xs then Inr (py_remove1 x xs)
      else Inl (Raise (ValueError ''list.remove(x): x not in list'')))"

definition service_munge_krbprincipalname :: "self \<Rightarrow> pydict \<Rightarrow> exit + pydict" where
  "service_munge_krbprincipalname s response =
     (case map_of response ''krbprincipalname'' of
        None \<Rightarrow> Inr response
      | Some v \<Rightarrow>
          ebind (py_iter v) (\<lambda>vs.
          ebind (py_remove (dget (params s) ''krbcanonicalname'' PNone) vs) (\<lambda>new_val.
            let r = ddel ''krbprincipalname'' response
            in Inr (if new_val \<noteq> [] then dset ''krbprincipalname'' (PList new_val) r else r))))"

definition service_munge_response :: "self \<Rightarrow> pydict \<Rightarrow> exit + pydict \<times> pydict" where
  "service_munge_response s response =
     ebind (munge_response s response) (\<lambda>(item, left).
     ebind (service_munge_krbprincipalname s (service_munge_usercertificate item)) (\<lambda>item'.
       Inr (item', left)))"

definition managedby_step :: "(self \<Rightarrow> pydict) \<times> string \<Rightarrow> self \<Rightarrow> exit + self" where
  "managedby_step p s =
     (let hosts = dget (fst p s) ''managedby_host'' PNone in
      if \<not> py_truth hosts \<or> check_mode s then Inr s
      else
        ebind (base_mod_request_params [] s) (\<lambda>nm.
          Inr (enqueue (snd p)
            \<lparr>r_method = snd p, r_name = nm,
             r_item = [(''all'', PBool True), (''host'', hosts)]\<rparr> s)))"

definition handle_managedby_host :: change_function where
  "handle_managedby_host s =
     ebind (efold managedby_step
              [(list_add \<circ> diffs, ''service_add_host''), (list_del \<circ> diffs, ''service_remove_host'')]
              s)
       (\<lambda>s'. Inr (False, s'))"

definition keytab_item :: "pydict \<Rightarrow> string \<Rightarrow> pydict" where
  "keytab_item d r_w =
     fold (\<lambda>objtype item.
             case map_of d (''ipaallowedtoperform_'' @ r_w @ ''_keys_'' @ objtype) of
               None \<Rightarrow> item | Some attr_val \<Rightarrow> dset objtype attr_val item)
       [''user'', ''group'', ''host'', ''hostgroup''] []"

definition keytab_step :: "(self \<Rightarrow> pydict) \<times> string \<times> string \<Rightarrow> self \<Rightarrow> exit + self" where
  "keytab_step p s =
     (let d = fst p s; m = fst (snd p); item = keytab_item d (snd (snd p)) in
      if item = [] \<or> check_mode s then Inr s
      else
        ebind (base_mod_request_params [] s) (\<lambda>nm.
          Inr (enqueue m
            \<lparr>r_method = m, r_name = nm, r_item = dset ''all'' (PBool True) item\<rparr> s)))"

definition handle_allow_keytab :: change_function where
  "handle_allow_keytab s =
     ebind (efold keytab_step
              [(list_add \<circ> diffs, ''service_allow_create_keytab'', ''write''),
               (list_del \<circ> diffs, ''service_disallow_create_keytab'', ''write''),
               (list_add \<circ> diffs, ''service_allow_retrieve_keytab'', ''read''),
               (list_del \<circ> diffs, ''service_disallow_retrieve_keytab'', ''read'')] s)
       (\<lambda>s'. Inr (False, s'))"

definition ServiceIPAClient_hooks :: hooks where
  "ServiceIPAClient_hooks = IPAClient_hooks\<lparr>
     h_munge_response := service_munge_response,
     h_own := (\<lambda>nm. if nm = ''handle_managedby_host'' then Some handle_managedby_host
                     else if nm = ''handle_allow_keytab'' then Some handle_allow_keytab
                     else None)\<rparr>"

definition service_main ::
  "ansible_module \<Rightarrow> 'w fetch \<Rightarrow> 'w net \<Rightarrow> outcome \<times> self \<times> 'w net" where
  "service_main = run_client ServiceIPAClient_hooks ServiceIPAClient_class"

section \<open>The contract\<close>

definition service_methods :: "string set" where
  "service_methods =
     {''service_add_host'', ''service_remove_host'', ''service_allow_create_keytab'',
      ''service_disallow_create_keytab'', ''service_allow_retrieve_keytab'',
      ''service_disallow_retrieve_keytab''}"

lemma managedby_step_queues:
  "managedby_step p s = Inr s' \<Longrightarrow> snd p \<in> M \<Longrightarrow> queues M s s'"
  by (auto simp: managedby_step_def Let_def err_simps queues_simps split: if_splits)

lemma keytab_step_queues:
  "keytab_step p s = Inr s' \<Longrightarrow> fst (snd p) \<in> M \<Longrightarrow> queues M s s'"
  by (auto simp: keytab_step_def Let_def err_simps queues_simps split: if_splits)

lemma handle_managedby_host_queues:
  "handle_managedby_host s = Inr (b, s') \<Longrightarrow> queues (service_methods \<union> N) s s'"
  by (auto simp: handle_managedby_host_def ebind_Inr_iff service_methods_def
      intro!: efold_queues [of _ managedby_step] elim!: managedby_step_queues
      simp del: efold.simps)

lemma handle_allow_keytab_queues:
  "handle_allow_keytab s = Inr (b, s') \<Longrightarrow> queues (service_methods \<union> N) s s'"
  by (auto simp: handle_allow_keytab_def ebind_Inr_iff service_methods_def
      intro!: efold_queues [of _ keytab_step] elim!: keytab_step_queues simp del: efold.simps)

lemma handle_managedby_host_idle:
  "settled s \<Longrightarrow> handle_managedby_host s = Inr (False, s)"
  by (simp add: handle_managedby_host_def managedby_step_def settled_def dget_def)

lemma handle_allow_keytab_idle:
  "settled s \<Longrightarrow> handle_allow_keytab s = Inr (False, s)"
  by (simp add: handle_allow_keytab_def keytab_step_def keytab_item_def settled_def)

interpretation service: ipa_client ServiceIPAClient_hooks ServiceIPAClient_class service_methods
  by unfold_locales
    (auto simp: ServiceIPAClient_hooks_def ServiceIPAClient_class_def IPAClient_hooks_def
      IPAClient_class_def rem_request_cleanup_def find_request_item_def
      handle_managedby_host_idle handle_allow_keytab_idle
      dest: mod_rewrite_method handle_managedby_host_queues handle_allow_keytab_queues
      split: if_splits)


section \<open>Properties\<close>

lemma py_mem_strs: "py_mem (PStr nm) (map PStr ps) \<longleftrightarrow> nm \<in> set ps"
  by (auto simp: py_mem_PStr)

lemma py_remove1_strs: "py_remove1 (PStr nm) (map PStr ps) = map PStr (remove1 nm ps)"
  by (induction ps) (auto simp: hkey_PStr)

text \<open>The aliases compared with the task's are the found principals without the canonical name
  of the task, which is taken out once; nothing else of the response changes, and a response that
  does not list the canonical name ends the run.\<close>

theorem service_aliases:
  assumes "map_of response ''krbprincipalname'' = Some (PList (map PStr ps))"
    and "map_of (params s) ''krbcanonicalname'' = Some (PStr nm)"
  shows "if nm \<in> set ps
    then \<exists>r. service_munge_krbprincipalname s response = Inr r \<and>
       attr_list r ''krbprincipalname'' = map PStr (remove1 nm ps) \<and>
       (\<forall>k. k \<noteq> ''krbprincipalname'' \<longrightarrow> map_of r k = map_of response k)
    else service_munge_krbprincipalname s response =
       Inl (Raise (ValueError ''list.remove(x): x not in list''))"
  using assms
  by (auto simp: service_munge_krbprincipalname_def py_remove_def py_mem_strs py_remove1_strs
      dget_Some Let_def attr_list_def)

definition service_sample :: self where
  "service_sample = (new_self ServiceIPAClient_class)\<lparr>
     params := [(''krbcanonicalname'', PStr ''HTTP/a'')]\<rparr>"

theorem service_aliases_witness:
  "\<exists>r. service_munge_krbprincipalname service_sample
       [(''krbprincipalname'', PList (map PStr [''HTTP/b'', ''HTTP/a'']))] = Inr r \<and>
     attr_list r ''krbprincipalname'' = [PStr ''HTTP/b'']"
  using service_aliases [where s = service_sample and nm = "''HTTP/a''"
      and ps = "[''HTTP/b'', ''HTTP/a'']"
      and response = "[(''krbprincipalname'', PList (map PStr [''HTTP/b'', ''HTTP/a'']))]"]
  by (auto simp: service_sample_def)

text \<open>The requests for keytab permissions, in the order of the code.\<close>

lemma fold_optional_store:
  "map_of (fold (\<lambda>k item. case g k of None \<Rightarrow> item | Some v \<Rightarrow> dset k v item) ks acc) q =
     (if q \<in> set ks then (case g q of Some v \<Rightarrow> Some v | None \<Rightarrow> map_of acc q) else map_of acc q)"
  by (induction ks arbitrary: acc) (auto split: option.splits)

lemma keytab_item_lookup:
  "map_of (keytab_item d r_w) obj =
     (if obj \<in> {''user'', ''group'', ''host'', ''hostgroup''}
      then map_of d (''ipaallowedtoperform_'' @ r_w @ ''_keys_'' @ obj) else None)"
  unfolding keytab_item_def fold_optional_store by (simp split: option.splits)

end
