(* ===== verification/IPA_Clients.thy ===== *)
theory IPA_Clients
  imports IPA_CA IPA_CAACL IPA_Cert IPA_DNSRecord IPA_DNSZone IPA_Group IPA_Service IPA_User
begin

text \<open>
  The eight IPA modules side by side: \<open>main()\<close> of each file under \<open>lib/modules/ipa_*.py\<close> makes
  its client and runs it. What the clients share by the contract \<open>ipa_client\<close> is available
  here for all of them at once.
\<close>

section \<open>The modules\<close>

datatype ipa_module = CA | CAACL | Cert | DNSRecord | DNSZone | Group | Service | User

fun hooks_of :: "ipa_module \<Rightarrow> hooks" where
  "hooks_of CA = CAIPAClient_hooks"
| "hooks_of CAACL = CAACLIPAClient_hooks"
| "hooks_of Cert = CertIPAClient_hooks"
| "hooks_of DNSRecord = DNSRecordIPAClient_hooks"
| "hooks_of DNSZone = DNSZoneIPAClient_hooks"
| "hooks_of Group = GroupIPAClient_hooks"
| "hooks_of Service = ServiceIPAClient_hooks"
| "hooks_of User = UserIPAClient_hooks"

fun class_of :: "ipa_module \<Rightarrow> client_class" where
  "class_of CA = CAIPAClient_class"
| "class_of CAACL = CAACLIPAClient_class"
| "class_of Cert = CertIPAClient_class"
| "class_of DNSRecord = DNSRecordIPAClient_class"
| "class_of DNSZone = DNSZoneIPAClient_class"
| "class_of Group = GroupIPAClient_class"
| "class_of Service = ServiceIPAClient_class"
| "class_of User = UserIPAClient_class"

text \<open>Running the program of a module.\<close>

fun run_module ::
  "ansible_module \<Rightarrow> 'w fetch \<Rightarrow> ipa_module \<Rightarrow> 'w net \<Rightarrow> outcome \<times> self \<times> 'w net" where
  "run_module am fetch CA n = ca_main am fetch n"
| "run_module am fetch CAACL n = caacl_main am fetch n"
| "run_module am fetch Cert n = cert_main am fetch n"
| "run_module am fetch DNSRecord n = dnsrecord_main am fetch n"
| "run_module am fetch DNSZone n = dnszone_main am fetch n"
| "run_module am fetch Group n = group_main am fetch n"
| "run_module am fetch Service n = service_main am fetch n"
| "run_module am fetch User n = user_main am fetch n"

lemma run_module_client: "run_module am fetch c n = run_client (hooks_of c) (class_of c) am fetch n"
  by (cases c) (simp_all add: ca_main_def caacl_main_def cert_main_def dnsrecord_main_def dnszone_main_def
      group_main_def service_main_def user_main_def)

text \<open>There are eight modules: what holds of all of them can be evaluated.\<close>

instantiation ipa_module :: enum
begin

definition enum_ipa_module :: "ipa_module list" where
  "enum_ipa_module = [CA, CAACL, Cert, DNSRecord, DNSZone, Group, Service, User]"

definition enum_all_ipa_module :: "(ipa_module \<Rightarrow> bool) \<Rightarrow> bool" where
  "enum_all_ipa_module P \<longleftrightarrow> list_all P enum_class.enum"

definition enum_ex_ipa_module :: "(ipa_module \<Rightarrow> bool) \<Rightarrow> bool" where
  "enum_ex_ipa_module P \<longleftrightarrow> list_ex P enum_class.enum"

instance
proof
  have all: "c \<in> set enum_class.enum" for c :: ipa_module
    by (cases c) (simp_all add: enum_ipa_module_def)
  then show "UNIV = set (enum_class.enum :: ipa_module list)" by blast
  show "distinct (enum_class.enum :: ipa_module list)" by (simp add: enum_ipa_module_def)
  show "enum_class.enum_all P \<longleftrightarrow> Ball UNIV P" for P :: "ipa_module \<Rightarrow> bool"
    using all by (auto simp: enum_all_ipa_module_def list_all_iff)
  show "enum_class.enum_ex P \<longleftrightarrow> Bex UNIV P" for P :: "ipa_module \<Rightarrow> bool"
    using all by (auto simp: enum_ex_ipa_module_def list_ex_iff)
qed

end

section \<open>The contract of each\<close>

fun extra_methods :: "ipa_module \<Rightarrow> string set" where
  "extra_methods CAACL = caacl_methods"
| "extra_methods Group = group_methods"
| "extra_methods Service = service_methods"
| "extra_methods User = user_methods"
| "extra_methods c = {}"

lemma client_contract: "ipa_client (hooks_of c) (class_of c) (extra_methods c)"
  by (cases c)
    (simp_all add: ca.ipa_client_axioms caacl.ipa_client_axioms cert.ipa_client_axioms
      dnsrecord.ipa_client_axioms dnszone.ipa_client_axioms group.ipa_client_axioms
      service.ipa_client_axioms user.ipa_client_axioms)

fun toggles :: "ipa_module \<Rightarrow> bool" where
  "toggles c \<longleftrightarrow> c = CAACL \<or> c = DNSZone \<or> c = User"

lemma enablable_contract:
  "toggles c \<Longrightarrow> enablable_client (hooks_of c) (class_of c) (extra_methods c)"
  by (cases c)
    (simp_all add: caacl.enablable_client_axioms dnszone.enablable_client_axioms
      user.enablable_client_axioms)

section \<open>After the constructor\<close>

definition method_table :: "ipa_module \<Rightarrow> (string \<times> string) list" where
  "method_table c = map (\<lambda>(k, pat). (k, cname (class_of c) @ drop 2 pat)) (methods (class_of c))"

lemmas class_defs = CAIPAClient_class_def CAACLIPAClient_class_def CertIPAClient_class_def
  DNSRecordIPAClient_class_def DNSZoneIPAClient_class_def GroupIPAClient_class_def
  ServiceIPAClient_class_def UserIPAClient_class_def IPAClient_class_def
  EnablableIPAClient_class_def

lemmas hook_defs = CAIPAClient_hooks_def CAACLIPAClient_hooks_def CertIPAClient_hooks_def
  DNSRecordIPAClient_hooks_def DNSZoneIPAClient_hooks_def GroupIPAClient_hooks_def
  ServiceIPAClient_hooks_def UserIPAClient_hooks_def IPAClient_hooks_def
  EnablableIPAClient_hooks_def

lemma init_methods_table:
  "klass s = class_of c \<Longrightarrow> init_methods s = Inr (s\<lparr>s_methods := method_table c\<rparr>)"
  by (cases c) (simp_all add: init_methods_def method_table_def class_defs str_format_def)

lemma init_kw_args_frame:
  "klass (h_init_kw_args (hooks_of c) s) = klass s"
  "s_methods (h_init_kw_args (hooks_of c) s) = s_methods s"
  "param_data (h_init_kw_args (hooks_of c) s) = map (\<lambda>(k, sp). (k, sp_type sp)) (kw_args (klass s))"
  by (cases c; simp add: hook_defs init_kw_args_def enablable_init_kw_args_def Let_def)+

lemma init_client_setup:
  assumes "init_client (hooks_of c) (class_of c) am = Inr s"
  shows "klass s = class_of c" "s_methods s = method_table c" "requests s = []"
    "param_data s = map (\<lambda>(k, sp). (k, sp_type sp)) (kw_args (class_of c))" "\<not> changed s"
proof -
  have m: "init_methods (new_self (class_of c)) = Inr (new_self (class_of c)\<lparr>s_methods := method_table c\<rparr>)"
    by (rule init_methods_table) (simp add: new_self_def)
  have "klass s = class_of c \<and> s_methods s = method_table c \<and> requests s = [] \<and>
    param_data s = map (\<lambda>(k, sp). (k, sp_type sp)) (kw_args (class_of c)) \<and> \<not> changed s"
    using assms unfolding init_client_def m
    by (auto simp: init_module_def err_simps Let_def init_kw_args_frame init_standard_params_def
        new_self_def)
  then show "klass s = class_of c" "s_methods s = method_table c" "requests s = []"
    "param_data s = map (\<lambda>(k, sp). (k, sp_type sp)) (kw_args (class_of c))" "\<not> changed s"
    by auto
qed

text \<open>The API methods with which each module changes something, spelled out.\<close>

fun api_changes :: "ipa_module \<Rightarrow> string list" where
  "api_changes CA = [''ca_add'', ''ca_del'', ''ca_mod'']"
| "api_changes CAACL =
     [''caacl_add'', ''caacl_del'', ''caacl_mod'', ''caacl_enable'', ''caacl_disable'',
      ''caacl_add_user'', ''caacl_add_host'', ''caacl_add_profile'', ''caacl_add_ca'',
      ''caacl_add_service'', ''caacl_remove_user'', ''caacl_remove_host'',
      ''caacl_remove_profile'', ''caacl_remove_ca'', ''caacl_remove_service'']"
| "api_changes Cert = [''cert_request'', ''cert_revoke'']"
| "api_changes DNSRecord = [''dnsrecord_add'', ''dnsrecord_del'', ''dnsrecord_mod'']"
| "api_changes DNSZone =
     [''dnszone_add'', ''dnszone_del'', ''dnszone_mod'', ''dnszone_enable'',
      ''dnszone_disable'']"
| "api_changes Group =
     [''group_add'', ''group_del'', ''group_mod'', ''group_add_member'',
      ''group_remove_member'']"
| "api_changes Service =
     [''service_add'', ''service_del'', ''service_mod'',
      ''service_add_host'', ''service_remove_host'', ''service_allow_create_keytab'',
      ''service_disallow_create_keytab'', ''service_allow_retrieve_keytab'',
      ''service_disallow_retrieve_keytab'']"
| "api_changes User =
     [''user_add'', ''user_del'', ''user_mod'', ''user_enable'', ''user_disable'',
      ''user_add_cert'', ''user_remove_cert'', ''user_add_principal'', ''user_remove_principal'']"

lemma api_changes_cover:
  "s_methods s = method_table c \<Longrightarrow> extra_methods c \<union> change_methods s = set (api_changes c)"
  by (cases c)
    (auto simp: change_methods_def change_keys_def method_table_def class_defs caacl_methods_def group_methods_def
      service_methods_def user_methods_def)

lemma find_method_name:
  "s_methods s = method_table c \<Longrightarrow>
     map_of (s_methods s) ''find'' = Some (cname (class_of c) @ ''_find'')"
  by (cases c) (auto simp: method_table_def class_defs)

lemma main_of_client_log:
  assumes "init_client (hooks_of c) (class_of c) am = Inr s"
    and "main fetch (hooks_of c) s n = (out, s', n')"
  shows "\<exists>qs. sent n' = sent n @ qs \<and>
    session_log (cname (class_of c) @ ''_find'') (if check_mode s then {} else set (api_changes c)) qs"
proof -
  note ini = init_client_setup [OF assms(1)]
  show ?thesis
    using ipa_client.main_log [OF client_contract assms(2) ini(3) find_method_name [OF ini(2)]]
    unfolding api_changes_cover [OF ini(2)] .
qed

lemma session_log_mono: "session_log F M qs \<Longrightarrow> M \<subseteq> N \<Longrightarrow> session_log F N qs"
  by (induction F M qs rule: session_log.induct) (auto, blast)

text \<open>What happens when the constructor exits: nothing is sent.\<close>

lemma run_module_cases:
  assumes "run_module am fetch c n = (out, s', n')"
  obtains x where "init_client (hooks_of c) (class_of c) am = Inl x" "out = exit_outcome x" "n' = n"
    | s where "init_client (hooks_of c) (class_of c) am = Inr s"
        "main fetch (hooks_of c) s n = (out, s', n')"
  using assms by (auto simp: run_module_client run_client_def split: sum.splits)

lemma init_client_check_mode:
  assumes "init_client H C am = Inr s" and "\<And>spec ps b. am spec = Inr (ps, b) \<Longrightarrow> b"
  shows "check_mode s"
  using assms by (auto simp: init_client_def init_module_def err_simps Let_def)

end
