(* ===== verification/IPA_Requests.thy ===== *)
theory IPA_Requests
  imports IPA_Clients
begin

text \<open>
  What the requests of \<open>lib/python/ipa.py\<close> contain and when they are queued: \<open>add_or_mod\<close> and
  \<open>mod_rewrite_list_changes\<close>, \<open>rem\<close>, and the canonical form \<open>clean\<close> gives parameters.
\<close>

section \<open>The canonical form, key by key\<close>

lemma clean_fold:
  assumes "efold (clean_step s) dirty item = Inr d" and "wf_dict dirty"
    and "\<And>k. k \<in> fst ` set dirty \<Longrightarrow> map_of item k = None"
  shows "map_of d k =
     (case (map_of (param_data s) k, map_of dirty k) of
        (Some t, Some v) \<Rightarrow> (case clean_value t v of Inr r \<Rightarrow> r | Inl _ \<Rightarrow> None)
      | _ \<Rightarrow> map_of item k)"
  using assms
proof (induction dirty arbitrary: item)
  case (Cons p dirty)
  obtain k' v where p: "p = (k', v)" by fastforce
  from Cons.prems(1) obtain item' where s: "clean_step s p item = Inr item'"
    and rest: "efold (clean_step s) dirty item' = Inr d"
    by (auto simp: err_simps)
  have k': "k' \<notin> fst ` set dirty" "wf_dict dirty" "map_of item k' = None"
    using Cons.prems(2,3) p by auto
  have other: "map_of item' q = map_of item q" if "q \<noteq> k'" for q
    using s that p
    by (auto simp: clean_step_def err_simps split: option.splits)
  have here: "map_of item' k' =
     (case map_of (param_data s) k' of
        Some t \<Rightarrow> (case clean_value t v of Inr r \<Rightarrow> r | Inl _ \<Rightarrow> None) | None \<Rightarrow> None)"
  proof (cases "map_of (param_data s) k'")
    case None
    with s p k'(3) show ?thesis by (simp add: clean_step_def)
  next
    case (Some t)
    with s p obtain x where "clean_value t v = Inr x"
      and "item' = (case x of None \<Rightarrow> item | Some w \<Rightarrow> dset k' w item)"
      by (auto simp: clean_step_def err_simps cong: option.case_cong)
    with Some k'(3) show ?thesis by (cases x) simp_all
  qed
  have "map_of item' q = None" if "q \<in> fst ` set dirty" for q
    using that k'(1) Cons.prems(3) [of q] p other [of q] by (cases "q = k'") auto
  note IH = Cons.IH [OF rest k'(2) this]
  have none: "map_of dirty k' = None" using k'(1) by (simp add: map_of_eq_None_iff)
  show ?case
  proof (cases "k = k'")
    case True
    with IH none here p k'(3) show ?thesis by (simp split: option.splits)
  next
    case False
    with IH other p show ?thesis by (simp split: option.splits)
  qed
qed (simp split: option.splits)

lemma clean_by_key:
  assumes "clean s dirty = Inr d" and "wf_dict dirty"
  shows "map_of d k =
     (case (map_of (param_data s) k, map_of dirty k) of
        (Some t, Some v) \<Rightarrow> (case clean_value t v of Inr r \<Rightarrow> r | Inl _ \<Rightarrow> None)
      | _ \<Rightarrow> None)"
  using clean_fold [OF assms(1) [unfolded clean_def] assms(2), of k]
  by (cases "map_of (param_data s) k"; cases "map_of dirty k") simp_all

text \<open>The two spellings of one attribute: the parameter and the API's reply.\<close>

lemma clean_value_wrapped:
  "x \<noteq> PNone \<Longrightarrow> \<not> is_PList x \<Longrightarrow> t \<noteq> ''list'' \<Longrightarrow> clean_value t (PList [x]) = clean_value t x"
  by (cases x) (simp_all add: clean_value_def)

section \<open>List changes as strings\<close>

definition iter_vals :: "pyval \<Rightarrow> pyval list" where
  "iter_vals v = (case py_iter v of Inr vs \<Rightarrow> vs | Inl _ \<Rightarrow> [])"

definition fmt_text :: "pyval \<Rightarrow> string" where
  "fmt_text v = (case fmt_s v of Inr t \<Rightarrow> t | Inl _ \<Rightarrow> [])"

text \<open>One \<open>key=value\<close> string per value of each list.\<close>

definition attr_texts :: "pydict \<Rightarrow> string list" where
  "attr_texts d = concat (map (\<lambda>(k, v). map (\<lambda>x. k @ ''='' @ fmt_text x) (iter_vals v)) d)"

lemma emap_attr_string:
  "emap (attr_string k) vs = Inr ts \<Longrightarrow> ts = map (\<lambda>x. k @ ''='' @ fmt_text x) vs"
  by (induction vs arbitrary: ts) (auto simp: attr_string_def err_simps fmt_text_def)

lemma sort_sort_append: "sort (sort xs @ ys) = sort (xs @ ys)"
  by (rule properties_for_sort) simp_all

lemma collect_step_Inr:
  assumes "collect_step key (k, v) acc = Inr r"
  shows "r = Some (sort ((case acc of None \<Rightarrow> [] | Some old \<Rightarrow> old) @
              map (\<lambda>x. k @ ''='' @ fmt_text x) (iter_vals v)))"
  using assms emap_attr_string [of k]
  by (auto simp: collect_step_def err_simps iter_vals_def split: option.splits if_splits)

lemma collect_fold:
  "efold (collect_step key) d (Some (sort old)) = Inr r \<Longrightarrow> r = Some (sort (old @ attr_texts d))"
proof (induction d arbitrary: old)
  case (Cons p d)
  obtain k v where p: "p = (k, v)" by fastforce
  from Cons.prems obtain m where m: "collect_step key p (Some (sort old)) = Inr m"
    and rest: "efold (collect_step key) d m = Inr r" by (auto simp: err_simps)
  have "m = Some (sort (old @ map (\<lambda>x. k @ ''='' @ fmt_text x) (iter_vals v)))"
    using collect_step_Inr [OF m [unfolded p]] by (simp add: sort_sort_append)
  with rest Cons.IH [of "old @ map (\<lambda>x. k @ ''='' @ fmt_text x) (iter_vals v)"] p show ?case
    by (simp add: attr_texts_def)
qed (simp add: attr_texts_def)

lemma collect_all:
  assumes "efold (collect_step key) d None = Inr r"
  shows "r = (if d = [] then None else Some (sort (attr_texts d)))"
proof (cases d)
  case (Cons p d')
  obtain k v where p: "p = (k, v)" by fastforce
  from assms Cons obtain m where m: "collect_step key p None = Inr m"
    and rest: "efold (collect_step key) d' m = Inr r" by (auto simp: err_simps)
  from collect_step_Inr [OF m [unfolded p]] rest
  have "efold (collect_step key) d' (Some (sort (map (\<lambda>x. k @ ''='' @ fmt_text x) (iter_vals v)))) = Inr r"
    by simp
  from collect_fold [OF this] Cons p show ?thesis by (simp add: attr_texts_def)
qed (use assms in simp)

definition text_list :: "string list \<Rightarrow> pyval" where
  "text_list ts = PList (map PStr ts)"

text \<open>The value under a rewritten key.\<close>

definition rewritten :: "pyval \<Rightarrow> pyval option" where
  "rewritten v =
     (case v of PDict d \<Rightarrow> if d = [] then None else Some (text_list (sort (attr_texts d)))
      | _ \<Rightarrow> None)"

lemma rewrite_key_Inr:
  assumes "rewrite_key key item = Inr item'"
  shows "map_of item' = (map_of item)(key := Option.bind (map_of item key) rewritten)"
proof (cases "map_of item key")
  case None
  with assms show ?thesis by (auto simp: rewrite_key_def fun_eq_iff)
next
  case (Some v)
  with assms obtain d r where d: "py_items v = Inr d" and r: "efold (collect_step key) d None = Inr r"
    and i: "item' = (case r of None \<Rightarrow> ddel key item
                 | Some ts \<Rightarrow> dset key (PList (map PStr ts)) (ddel key item))"
    by (auto simp: rewrite_key_def err_simps)
  from d have "v = PDict d" by (cases v) auto
  with Some i collect_all [OF r] show ?thesis
    by (auto simp: rewritten_def text_list_def fun_eq_iff)
qed

lemma rewrite_keys:
  assumes "efold rewrite_key ks item = Inr item'" and "distinct ks"
  shows "map_of item' k =
     (if k \<in> set ks then Option.bind (map_of item k) rewritten else map_of item k)"
  using assms
proof (induction ks arbitrary: item)
  case (Cons q ks)
  from Cons.prems(1) obtain i1 where i1: "rewrite_key q item = Inr i1"
    and rest: "efold rewrite_key ks i1 = Inr item'" by (auto simp: err_simps)
  from Cons.IH [OF rest] Cons.prems(2) rewrite_key_Inr [OF i1] show ?case by auto
qed simp

lemma mod_rewrite_item:
  assumes "mod_rewrite_list_changes s r = Inr r'" and "wf_dict (r_item r)"
  shows "r_method r' = r_method r" "r_name r' = r_name r"
    "map_of (r_item r') k =
       (if k = ''all'' then Some (PBool True)
        else if k = ''addattr'' \<or> k = ''delattr'' then Option.bind (map_of (r_item r) k) rewritten
        else map_of (r_item r) k)"
proof -
  let ?ks = "filter (\<lambda>k. k = ''addattr'' \<or> k = ''delattr'') (dkeys (r_item r))"
  from assms(1) obtain item where item: "efold rewrite_key ?ks (r_item r) = Inr item"
    and r': "r' = r\<lparr>r_item := dset ''all'' (PBool True) item\<rparr>"
    by (auto simp: mod_rewrite_list_changes_def err_simps)
  then show "r_method r' = r_method r" "r_name r' = r_name r" by simp_all
  have "distinct ?ks" using assms(2) by (simp add: wf_dict_def)
  note look = rewrite_keys [OF item this, of k]
  have "k \<in> set ?ks \<longleftrightarrow> (k = ''addattr'' \<or> k = ''delattr'') \<and> dhas (r_item r) k"
    unfolding dhas_iff by auto
  with look r' show "map_of (r_item r') k =
       (if k = ''all'' then Some (PBool True)
        else if k = ''addattr'' \<or> k = ''delattr'' then Option.bind (map_of (r_item r) k) rewritten
        else map_of (r_item r) k)"
    by (cases "map_of (r_item r) k") auto
qed

section \<open>The base request\<close>

lemma map_of_in_base: "map_of (in_base s d) k = (if k \<in> set (base_keys s) then map_of d k else None)"
  by (simp add: in_base_def map_of_filter_key)

lemma fold_dset:
  "wf_dict xs \<Longrightarrow> map_of (fold (\<lambda>(k, v). dset k v) xs acc) k =
     (case map_of xs k of Some v \<Rightarrow> Some v | None \<Rightarrow> map_of acc k)"
proof (induction xs arbitrary: acc)
  case (Cons x xs)
  then have "map_of xs (fst x) = None" by (cases x) (simp add: map_of_eq_None_iff)
  with Cons show ?case by (cases x) (auto split: option.splits)
qed simp

lemma wf_fold_dset: "wf_dict acc \<Longrightarrow> wf_dict (fold (\<lambda>(k, v). dset k v) xs acc)"
  by (induction xs arbitrary: acc) auto

lemma build_item_wf: "wf_dict (build_item s)"
  unfolding build_item_def by (rule wf_fold_dset) (simp add: opt_dict_def)

lemma build_item_lookup:
  assumes "wf_dict (scalars (diffs s))"
  shows "map_of (build_item s) k =
     (case map_of (in_base s (scalars (diffs s))) k of
        Some v \<Rightarrow> Some v
      | None \<Rightarrow>
          if k = ''addattr'' \<and> in_base s (list_add (diffs s)) \<noteq> []
          then Some (PDict (in_base s (list_add (diffs s))))
          else if k = ''delattr'' \<and> in_base s (list_del (diffs s)) \<noteq> []
          then Some (PDict (in_base s (list_del (diffs s)))) else None)"
proof -
  have "wf_dict (in_base s (scalars (diffs s)))" using assms by (simp add: in_base_def)
  from fold_dset [OF this] show ?thesis
    by (auto simp: build_item_def opt_dict_def split: option.splits)
qed

text \<open>The item of the base request, as a function of the difference.\<close>

definition base_item :: "self \<Rightarrow> string \<Rightarrow> pyval option" where
  "base_item s k =
     (if k = ''all'' then Some (PBool True)
      else if k = ''addattr'' \<or> k = ''delattr'' then
        (let d = in_base s ((if k = ''addattr'' then list_add else list_del) (diffs s))
         in if d = [] then None else Some (text_list (sort (attr_texts d))))
      else if k \<in> set (base_keys s) then map_of (scalars (diffs s)) k else None)"

lemma add_or_mod_request_item:
  assumes "add_or_mod_request H s = Inr q"
    and "\<And>r r'. h_mod_rewrite H s r = Inr r' \<Longrightarrow> mod_rewrite_list_changes s r = Inr r'"
    and "wf_dict (scalars (diffs s))"
    and "map_of (in_base s (scalars (diffs s))) ''addattr'' = None"
      "map_of (in_base s (scalars (diffs s))) ''delattr'' = None"
  shows "map_of (s_methods s) (if is_absent s then ''add'' else ''mod'') = Some (r_method q)"
    "h_mod_request_params H s = Inr (r_name q)" "map_of (r_item q) = base_item s"
proof -
  from assms(1) obtain m nm where
    m: "map_of (s_methods s) (if is_absent s then ''add'' else ''mod'') = Some m"
    and nm: "h_mod_request_params H s = Inr nm"
    and r: "h_mod_rewrite H s
         \<lparr>r_method = m, r_name = nm, r_item = dset ''all'' (PBool True) (build_item s)\<rparr> = Inr q"
    unfolding add_or_mod_request_def ebind_Inr_iff dindex_Inr by auto
  note item = mod_rewrite_item [OF assms(2) [OF r], unfolded request.simps]
  show "map_of (s_methods s) (if is_absent s then ''add'' else ''mod'') = Some (r_method q)"
    "h_mod_request_params H s = Inr (r_name q)"
    using m nm item(1,2) build_item_wf by auto
  show "map_of (r_item q) = base_item s"
  proof
    fix k
    show "map_of (r_item q) k = base_item s k"
      using item(3) [of k] build_item_wf [of s] build_item_lookup [OF assms(3), of k] assms(4,5)
      by (auto simp: base_item_def map_of_in_base rewritten_def Let_def split: option.splits)
  qed
qed

lemma add_or_mod_cases:
  assumes "add_or_mod H s = Inr (b, s')"
  obtains "\<not> b" "s' = s" "build_item s = []" "obj_exists s = Inr True"
    | q where "\<not> b" "add_or_mod_request H s = Inr q" "s' = enqueue ''add_or_mod'' q s"
        "build_item s \<noteq> [] \<or> obj_exists s = Inr False"
  using assms by (auto simp: add_or_mod_def err_simps split: if_splits)

lemma rewrite_is_base:
  "h_mod_rewrite (hooks_of c) s r = Inr r' \<Longrightarrow> mod_rewrite_list_changes s r = Inr r'"
  by (cases c)
    (auto simp: hook_defs ca_mod_rewrite_list_changes_def err_simps Let_def split: if_splits)

text \<open>The names the table gives the base methods.\<close>

definition base_method :: "ipa_module \<Rightarrow> string \<Rightarrow> string" where
  "base_method c k =
     cname (class_of c) @
     (if k = ''find'' then ''_find''
      else if k = ''rem'' then (if c = Cert then ''_revoke'' else ''_del'')
      else if c = Cert then ''_request'' else if k = ''add'' then ''_add'' else ''_mod'')"

lemma method_table_base:
  "k \<in> {''find'', ''rem'', ''add'', ''mod''} \<Longrightarrow> map_of (method_table c) k = Some (base_method c k)"
  by (cases c) (auto simp: method_table_def base_method_def class_defs)

section \<open>The delete request\<close>

lemma change_functions_rem: "\<exists>fs. change_functions (class_of c) = ''rem'' # ''add_or_mod'' # fs"
  by (cases c) (simp_all add: class_defs)

lemma queue_requests_rem:
  "klass s = class_of c \<Longrightarrow> rem H s = Inr (True, s') \<Longrightarrow> queue_requests H s = Inr s'"
  using change_functions_rem [of c]
  by (auto simp: queue_requests_def get_change_function_def)

text \<open>Removing an object that is missing, and removing in check mode, queues nothing.\<close>

theorem absent_idle:
  assumes "klass s = class_of c" and "state s = PStr ''absent''"
    and "\<not> h_is_rem_param_request (hooks_of c) s" and "is_absent s \<or> check_mode s"
  shows "queue_requests (hooks_of c) s = Inr s"
proof -
  have "rem (hooks_of c) s = Inr (True, s)" using assms by (auto simp: rem_def)
  with assms(1) show ?thesis by (rule queue_requests_rem)
qed

lemma rem_request_method:
  assumes "rem_request (hooks_of c) s = Inr q" and "s_methods s = method_table c"
  shows "r_method q = base_method c ''rem''"
proof -
  have "r_method (h_rem_request_cleanup (hooks_of c) s r) = r_method r" for r
    using client_contract by (rule ipa_client.cleanup_method)
  with assms method_table_base [of "''rem''" c] show ?thesis
    by (auto simp: rem_request_def err_simps)
qed

text \<open>Removing an object that is there queues its delete request and nothing else.\<close>

lemma absent_deletes_once:
  assumes "queue_requests (hooks_of c) s = Inr s'" and "klass s = class_of c"
    and "s_methods s = method_table c" and "state s = PStr ''absent''"
    and "\<not> h_is_rem_param_request (hooks_of c) s" and "\<not> is_absent s" and "\<not> check_mode s"
  shows "\<exists>q. s' = enqueue ''rem'' q s \<and> r_method q = base_method c ''rem'' \<and>
    rem_request (hooks_of c) s = Inr q"
proof (cases "rem_request (hooks_of c) s")
  case (Inl x)
  with assms change_functions_rem [of c] show ?thesis
    by (auto simp: queue_requests_def get_change_function_def rem_def)
next
  case (Inr q)
  with assms have "rem (hooks_of c) s = Inr (True, enqueue ''rem'' q s)" by (simp add: rem_def)
  from queue_requests_rem [OF assms(2) this] assms(1) Inr rem_request_method [OF Inr assms(3)]
  show ?thesis by auto
qed

lemma add_or_mod_request_method:
  assumes "add_or_mod_request (hooks_of c) s = Inr q" and "s_methods s = method_table c"
  shows "r_method q = base_method c (if is_absent s then ''add'' else ''mod'')"
proof -
  have "r_method r' = r_method r" if "h_mod_rewrite (hooks_of c) s r = Inr r'" for r r'
    using client_contract that by (rule ipa_client.rewrite_method)
  with assms method_table_base [of "if is_absent s then ''add'' else ''mod''" c] show ?thesis
    by (auto simp: add_or_mod_request_def err_simps split: if_splits)
qed

section \<open>The queue\<close>

text \<open>Whatever happens, a prefix of the queued requests has been sent, in order.\<close>

lemma process_entries_prefix:
  assumes "process_entries fetch H pre es s n = (r, s', n')" and "\<not> check_mode s"
    and "get_json_url s = Inr url"
  shows "\<exists>k \<le> length es.
    sent n' = sent n @ map (\<lambda>e. json_request s url (the (e_request e))) (take k es)"
  using assms
proof (induction es arbitrary: pre s n)
  case (Cons e es)
  show ?case
  proof (cases "e_request e")
    case None
    with Cons.prems(1) show ?thesis by (intro exI [of _ 0]) simp
  next
    case (Some q)
    obtain r1 s1 n1 where step: "post_json fetch H s q n = (r1, s1, n1)"
      by (metis prod_cases3)
    from post_json_frame [OF step] obtain rs where s1: "s1 = s\<lparr>responses := rs\<rparr>" by blast
    have sent1: "sent n1 = sent n @ [json_request s url q]"
    proof -
      obtain rep n2 where f: "fetch_url fetch (json_request s url q) n = (rep, n2)"
        by (cases "fetch_url fetch (json_request s url q) n")
      with step Cons.prems(3) have "n1 = n2"
        by (auto simp: post_json_def Let_def split: http_reply.splits option.splits if_splits)
      with sent_fetch_url [OF f] show ?thesis by simp
    qed
    show ?thesis
    proof (cases r1)
      case (Inl x)
      with Cons.prems Some step have "n' = n1" by auto
      with sent1 Some show ?thesis by (intro exI [of _ 1]) simp
    next
      case (Inr v)
      let ?s2 = "s1\<lparr>requests := pre @ e\<lparr>e_response := Some v\<rparr> # es, changed := True\<rparr>"
      from Cons.prems Some step Inr have rest:
        "process_entries fetch H (pre @ [e\<lparr>e_response := Some v\<rparr>]) es ?s2 n1 = (r, s', n')"
        by (simp add: Let_def)
      have same: "json_request ?s2 url q' = json_request s url q'" for q'
        using s1 by (intro json_request_cong) simp_all
      have "get_json_url ?s2 = Inr url"
        using Cons.prems(3) s1 get_json_url_cong [of ?s2 s] by simp
      then obtain k where "k \<le> length es"
        "sent n' = sent n1 @ map (\<lambda>e. json_request ?s2 url (the (e_request e))) (take k es)"
        using Cons.IH [OF rest] Cons.prems(2) s1 by auto
      with sent1 Some show ?thesis
        by (intro exI [of _ "Suc k"]) (simp add: same)
    qed
  qed
qed simp

section \<open>The find entry\<close>

lemma find_obj_entry:
  assumes "find_obj fetch H s n = (Inr (), s', n')"
  shows "\<exists>q d c. requests s' = requests s @ [find_entry (Some q) (Some (PDict d)) (Some c)]"
proof -
  let ?s0 = "s\<lparr>requests := requests s @ [find_entry None None None]\<rparr>"
  obtain q s1 where p: "find_prepare H ?s0 = Inr (q, s1)"
    using assms by (auto simp: find_obj_def Let_def split: sum.splits)
  let ?s2 = "s1\<lparr>requests := requests s @ [find_entry (Some q) None None]\<rparr>"
  obtain r s3 n3 where pj: "post_json fetch H ?s2 q n = (r, s3, n3)"
    by (metis prod_cases3)
  obtain v where r: "r = Inr v"
    using assms p pj by (cases r) (auto simp: find_obj_def Let_def)
  with assms p pj have "find_digest H s3 (requests s) q v = Inr s'"
    by (auto simp: find_obj_def Let_def split: sum.splits)
  then show ?thesis
    by (auto simp: find_digest_def err_simps split: pyval.splits) blast
qed

end
