(* ===== verification/IPA_Idempotence.thy ===== *)
theory IPA_Idempotence
  imports IPA_Requests
begin

text \<open>
  A whole run after a run: find, difference, queue and sending composed with what is assumed of the
  server, that it stored what the first run asked for.
\<close>

section \<open>The server's part\<close>

text \<open>
  The attributes the server reports after it applied a difference, as far as the module looks at
  them: the lists are patched, a scalar the module sends (a base key or the enable key) is reported
  with an equal value, or no more where it was set to \<open>None\<close>, and the others are as they were.
\<close>

definition relevant :: "self \<Rightarrow> string \<Rightarrow> bool" where
  "relevant s k \<longleftrightarrow> \<not> is_list_param s k \<and> (k \<in> set (base_keys s) \<or> enablekey (klass s) = Some k)"

definition stored :: "self \<Rightarrow> changes \<Rightarrow> pydict \<Rightarrow> pydict \<Rightarrow> bool" where
  "stored s c before after \<longleftrightarrow> lists_ok s after \<and>
     (\<forall>k. is_list_param s k \<longrightarrow> attr_vals after k = patched_vals c before k) \<and>
     (\<forall>k. relevant s k \<longrightarrow>
        (case map_of (scalars c) k of
           None \<Rightarrow> map_of after k = map_of before k
         | Some v \<Rightarrow> if v = PNone then map_of after k = None
                     else \<exists>w. map_of after k = Some w \<and> py_eq v w))"

lemma in_base_Nil: "(\<And>k. k \<in> set (base_keys s) \<Longrightarrow> map_of d k = None) \<Longrightarrow> in_base s d = []"
  by (auto simp: in_base_def filter_empty_conv map_of_eq_None_iff) force

lemma stored_scalar:
  assumes "compute_changes s ch cu = Inr c" and "compute_changes s ch cu' = Inr c'"
    and "state s \<noteq> PStr ''absent''" and "stored s c cu cu'" and "relevant s k"
    and "\<forall>v. map_of ch k = Some v \<longrightarrow> v \<noteq> PNone"
  shows "map_of (scalars c') k = None"
proof -
  have nl: "\<not> is_list_param s k" using assms(5) by (simp add: relevant_def)
  have "case map_of (scalars c) k of
           None \<Rightarrow> map_of cu' k = map_of cu k
         | Some v \<Rightarrow> if v = PNone then map_of cu' k = None
                     else \<exists>w. map_of cu' k = Some w \<and> py_eq v w"
    using assms(4,5) unfolding stored_def by blast
  then show ?thesis
    using assms(6)
    by (auto simp: nl compute_changes_scalars [OF assms(1,3)] compute_changes_scalars [OF assms(2,3)]
        split: option.splits if_splits)
qed

lemma stored_settled:
  assumes first: "compute_changes s ch cu = Inr c" and second: "compute_changes s ch cu' = Inr (diffs s')"
    and st: "state s \<noteq> PStr ''absent''" and ok: "lists_ok s ch" "lists_ok s cu"
    and vals: "\<forall>k v. map_of ch k = Some v \<longrightarrow> v \<noteq> PNone"
    and after: "stored s c cu cu'"
    and same: "base_keys s' = base_keys s" "klass s' = klass s"
  shows "settled s'"
proof -
  have ok': "lists_ok s cu'" using after by (simp add: stored_def)
  have "goal_vals (state s) (attr_vals ch k) (attr_vals cu' k) = attr_vals cu' k"
    if "is_list_param s k" for k
    using that after patched_goal [OF first ok that] by (auto simp: stored_def goal_vals_def)
  then have lists: "list_add (diffs s') = [] \<and> list_del (diffs s') = []"
    using list_changes_empty_iff [OF second ok(1) ok'] by blast
  have none: "map_of (scalars (diffs s')) k = None"
    if "k \<in> set (base_keys s) \<or> enablekey (klass s) = Some k" for k
  proof (cases "is_list_param s k")
    case True
    then show ?thesis by (simp add: compute_changes_scalars [OF second st])
  next
    case False
    with that show ?thesis
      using stored_scalar [OF first second st after] vals by (simp add: relevant_def)
  qed
  then have "in_base s' (scalars (diffs s')) = []"
    by (intro in_base_Nil) (simp add: same)
  with lists none show ?thesis by (simp add: settled_def same split: option.splits)
qed

section \<open>What the find step records\<close>

lemma find_obj_records:
  assumes "ipa_client H C extra" and "find_obj fetch H s n = (Inr (), s', n')" and "requests s = []"
  obtains cp found t where "h_munge_module_params H (s\<lparr>requests := [find_entry None None None]\<rparr>) = Inr cp"
    "canon_params s' = cp" "response_cleaned s' = Some found"
    "h_compute_changes H t cp found = Inr (diffs s')" "same_setup s t"
proof -
  let ?s0 = "s\<lparr>requests := [find_entry None None None]\<rparr>"
  obtain q s1 where p: "find_prepare H ?s0 = Inr (q, s1)"
    using assms(2,3) by (auto simp: find_obj_def Let_def split: sum.splits)
  then obtain cp where cp: "h_munge_module_params H ?s0 = Inr cp"
    and i: "\<exists>item. h_find_request_item H (?s0\<lparr>canon_params := cp\<rparr>) = Inr (item, s1)"
    by (auto simp: find_prepare_def Let_def err_simps)
  from i ipa_client.find_item_frame [OF assms(1)]
  have s1: "s1 = ?s0\<lparr>canon_params := cp\<rparr>\<lparr>is_origin := is_origin s1\<rparr>" by blast
  let ?s2 = "s1\<lparr>requests := [find_entry (Some q) None None]\<rparr>"
  obtain r s3 n3 where pj: "post_json fetch H ?s2 q n = (r, s3, n3)"
    by (metis prod_cases3)
  from post_json_frame [OF pj] obtain rs where s3: "s3 = ?s2\<lparr>responses := rs\<rparr>" by blast
  have c3: "canon_params s3 = cp" "same_setup s s3"
    by (subst s3, subst s1, simp add: same_setup_def)+
  obtain v where r: "r = Inr v"
    using assms(2,3) p pj by (cases r) (auto simp: find_obj_def Let_def)
  with assms(2,3) p pj have "find_digest H s3 [] q v = Inr s'"
    by (auto simp: find_obj_def Let_def split: sum.splits)
  then obtain left cleaned d df where
    "h_compute_changes H s3 (canon_params s3) cleaned = Inr df"
    "s' = s3\<lparr>requests := [find_entry (Some q) (Some (PDict left)) (Some cleaned)], diffs := df\<rparr>"
    by (auto simp: find_digest_def err_simps split: pyval.splits)
  with c3 cp that show ?thesis
    by (simp add: response_cleaned_def find_entry_def)
qed

lemma compute_changes_setup:
  assumes "same_setup s t"
  shows "compute_changes t ch cu = compute_changes s ch cu"
proof -
  have e: "argument_spec t = argument_spec s" "param_data t = param_data s" "state t = state s"
    using assms by (simp_all add: same_setup_def)
  have "is_list_param t k = is_list_param s k" "has_default t k = has_default s k"
    "spec_default t k = spec_default s k" for k
    by (simp_all add: is_list_param_def has_default_def spec_default_def e)
  then have f: "is_list_param t = is_list_param s" "has_default t = has_default s"
    "spec_default t = spec_default s"
    by (intro ext; simp)+
  show ?thesis
    unfolding compute_changes_def scalar_changes_def scalar_keys_def get_slice_def e f ..
qed

text \<open>Every module's difference is the one of the core, but for certificates to be removed.\<close>

lemma hooks_compute_changes:
  assumes "state s \<noteq> PStr ''absent''"
  shows "h_compute_changes (hooks_of c) s ch cu = compute_changes s ch cu"
  using assms by (cases c) (auto simp: hook_defs cert_compute_changes_def)

section \<open>Runs\<close>

lemma idle_ensure:
  assumes "requests s = []" and "\<not> changed s"
    and "find_obj fetch (hooks_of c) s n = (Inr (), s1, n1)"
    and "queue_requests (hooks_of c) s1 = Inr s1"
  shows "\<exists>v. ensure fetch (hooks_of c) s n = (Inr (False, v), s1, n1)"
proof -
  note frame = ipa_client.find_obj_frame(1) [OF client_contract assms(3)]
  obtain q d cl where "requests s1 = [find_entry (Some q) (Some (PDict d)) (Some cl)]"
    using find_obj_entry [OF assms(3)] assms(1) by auto
  then show ?thesis
    using assms same_setup_frame [OF frame]
    by (simp add: ensure_def process_queue_def last_response_def find_entry_def)
qed

lemma settled_ensure:
  assumes "klass s = class_of c" and "requests s = []" and "\<not> changed s"
    and "find_obj fetch (hooks_of c) s n = (Inr (), s1, n1)"
    and "settled s1" and "obj_exists s1 = Inr True"
    and "state s \<noteq> PStr ''absent'' \<or> h_is_rem_param_request (hooks_of c) s1"
  shows "\<exists>v. ensure fetch (hooks_of c) s n = (Inr (False, v), s1, n1)"
proof -
  note frame = ipa_client.find_obj_frame(1) [OF client_contract assms(4)]
  have "queue_requests (hooks_of c) s1 = Inr s1"
    by (rule ipa_client.queue_requests_idle [OF client_contract])
      (use assms same_setup_frame [OF frame] in simp_all)
  then show ?thesis by (rule idle_ensure [OF assms(2-4)])
qed

lemma second_find_settled:
  assumes k: "klass s = class_of c" and r: "requests s = []" and st: "state s \<noteq> PStr ''absent''"
    and first: "find_obj fetch (hooks_of c) s n = (Inr (), s1, n1)"
    and second: "find_obj fetch' (hooks_of c) s m = (Inr (), s2, m2)"
    and found: "response_cleaned s1 = Some cu" "response_cleaned s2 = Some cu'"
    and ok: "lists_ok s (canon_params s1)" "lists_ok s cu"
    and vals: "\<forall>k v. map_of (canon_params s1) k = Some v \<longrightarrow> v \<noteq> PNone"
    and after: "stored s (diffs s1) cu cu'"
  shows "settled s2"
proof -
  obtain t1 where cp: "h_munge_module_params (hooks_of c) (s\<lparr>requests := [find_entry None None None]\<rparr>) =
      Inr (canon_params s1)"
    and t1: "h_compute_changes (hooks_of c) t1 (canon_params s1) cu = Inr (diffs s1)" "same_setup s t1"
    using find_obj_records [OF client_contract first r] found(1) by (metis option.inject)
  obtain t2 where "h_munge_module_params (hooks_of c) (s\<lparr>requests := [find_entry None None None]\<rparr>) =
      Inr (canon_params s2)"
    and t2: "h_compute_changes (hooks_of c) t2 (canon_params s2) cu' = Inr (diffs s2)" "same_setup s t2"
    using find_obj_records [OF client_contract second r] found(2) by (metis option.inject)
  with cp have cp2: "canon_params s2 = canon_params s1" by simp
  have "state t1 = state s" "state t2 = state s"
    using t1(2) t2(2) by (simp_all add: same_setup_def)
  with st t1 t2 have d: "compute_changes s (canon_params s1) cu = Inr (diffs s1)"
    "compute_changes s (canon_params s1) cu' = Inr (diffs s2)"
    by (simp_all add: hooks_compute_changes compute_changes_setup cp2)
  have "base_keys s2 = base_keys s" "klass s2 = klass s"
    using ipa_client.find_obj_frame(1) [OF client_contract second] by (simp_all add: same_setup_def)
  then show ?thesis by (rule stored_settled [OF d st ok vals after])
qed

end
