(* ===== verification/IPA_Completion.thy ===== *)
theory IPA_Completion
  imports IPA_Idempotence
begin

text \<open>
  That a run comes to its end: once the find step has returned, the change functions of every module
  raise nothing, and against a server that accepts each change the queue is sent in full and the
  module leaves through \<open>exit_json\<close>.
\<close>

section \<open>Values of a difference\<close>

text \<open>The list changes are lists of hashable values, never empty; those can be printed.\<close>

definition plain_list :: "pyval \<Rightarrow> bool" where
  "plain_list v \<longleftrightarrow> (\<exists>vs. v = PList vs \<and> vs \<noteq> [] \<and> (\<forall>x \<in> set vs. hashable x))"

definition plain_lists :: "pydict \<Rightarrow> bool" where
  "plain_lists d \<longleftrightarrow> (\<forall>p \<in> set d. plain_list (snd p))"

lemma plain_lists_Nil [simp]: "plain_lists []"
  by (simp add: plain_lists_def)

lemma plain_lists_map_of: "plain_lists d \<Longrightarrow> map_of d k = Some v \<Longrightarrow> plain_list v"
  by (force simp: plain_lists_def dest: map_of_SomeD)

lemma plain_lists_dset:
  assumes "plain_lists d" and "plain_list v"
  shows "plain_lists (dset k v d)"
  using assms by (induction d) (auto simp: plain_lists_def)

lemma plain_lists_in_base [simp]: "plain_lists d \<Longrightarrow> plain_lists (in_base s d)"
  by (auto simp: plain_lists_def in_base_def)

lemma op_key_hashable:
  assumes "op_key a b f k = Inr vs"
  shows "\<forall>x \<in> set vs. hashable x"
proof -
  from assms obtain xs ys where "set_at a k = Inr xs" "vs = apply_set_op f xs ys"
    by (auto simp: op_key_def err_simps)
  moreover from this have "\<forall>x \<in> set xs. hashable x"
    using set_dedup_subset by (auto simp: set_at_def err_simps)
  ultimately show ?thesis using set_apply_set_op by blast
qed

lemma op_dict_plain: "op_dict a b f = Inr d \<Longrightarrow> plain_lists d"
  unfolding op_dict_def
  by (erule efold_invariant)
    (auto simp: err_simps plain_list_def op_key_hashable intro!: plain_lists_dset)

definition plain_changes :: "changes \<Rightarrow> bool" where
  "plain_changes c \<longleftrightarrow> plain_lists (list_add c) \<and> plain_lists (list_del c)"

lemma compute_changes_plain: "compute_changes s a b = Inr c \<Longrightarrow> plain_changes c"
  by (auto simp: compute_changes_def Let_def err_simps plain_changes_def dest!: op_dict_plain
      split: if_splits)

lemma hooks_changes_plain: "h_compute_changes (hooks_of c) s a b = Inr d \<Longrightarrow> plain_changes d"
  by (cases c)
    (auto simp: hook_defs cert_compute_changes_def err_simps plain_changes_def
      dest!: compute_changes_plain split: if_splits)

section \<open>The requests can be built\<close>

lemma plain_list_iter: "plain_list v \<Longrightarrow> \<exists>vs. py_iter v = Inr vs \<and> vs \<noteq> [] \<and> (\<forall>x \<in> set vs. hashable x)"
  by (auto simp: plain_list_def)

lemma emap_attr_string_total:
  "\<forall>x \<in> set vs. hashable x \<Longrightarrow> \<exists>ts. emap (attr_string k) vs = Inr ts \<and> (ts = [] \<longleftrightarrow> vs = [])"
proof (induction vs)
  case (Cons x vs)
  then obtain t ts where "fmt_s x = Inr t" "emap (attr_string k) vs = Inr ts"
    using fmt_s_hashable [of x] by auto
  then show ?case by (auto simp: attr_string_def [of k x])
qed simp

lemma collect_step_total:
  assumes "plain_list (snd p)"
  shows "\<exists>r. collect_step key p acc = Inr r"
proof -
  obtain vs ts where "py_iter (snd p) = Inr vs" "emap (attr_string (fst p)) vs = Inr ts" "ts \<noteq> []"
    using plain_list_iter [OF assms] emap_attr_string_total by blast
  then show ?thesis by (cases acc) (auto simp: collect_step_def)
qed

lemma collect_fold_total: "plain_lists d \<Longrightarrow> \<exists>r. efold (collect_step key) d acc = Inr r"
proof (induction d arbitrary: acc)
  case (Cons p d)
  then obtain r where "collect_step key p acc = Inr r"
    using collect_step_total [of p key acc] by (auto simp: plain_lists_def)
  with Cons show ?case by (auto simp: plain_lists_def)
qed simp

text \<open>The two keys to be rewritten hold dictionaries of plain lists, if anything.\<close>

definition rewritable :: "pydict \<Rightarrow> string \<Rightarrow> bool" where
  "rewritable item k \<longleftrightarrow> (\<forall>v. map_of item k = Some v \<longrightarrow> (\<exists>d. v = PDict d \<and> plain_lists d))"

lemma rewrite_key_total:
  assumes "rewritable item key"
  shows "\<exists>item'. rewrite_key key item = Inr item'"
proof (cases "map_of item key")
  case (Some v)
  with assms obtain d where "v = PDict d" "plain_lists d" by (auto simp: rewritable_def)
  with Some collect_fold_total [of d key None] show ?thesis by (auto simp: rewrite_key_def)
qed (simp add: rewrite_key_def)

lemma rewrite_keys_total:
  "distinct ks \<Longrightarrow> \<forall>k \<in> set ks. rewritable item k \<Longrightarrow> \<exists>item'. efold rewrite_key ks item = Inr item'"
proof (induction ks arbitrary: item)
  case (Cons k ks)
  then obtain i1 where i1: "rewrite_key k item = Inr i1"
    using rewrite_key_total [of item k] by auto
  have "\<forall>k' \<in> set ks. rewritable i1 k'"
    using Cons.prems rewrite_key_Inr [OF i1] by (auto simp: rewritable_def)
  with Cons i1 show ?case by auto
qed simp

definition possible_base_keys :: "client_class \<Rightarrow> string set" where
  "possible_base_keys C =
     (case class_base_keys C of Some ks \<Rightarrow> set ks | None \<Rightarrow> fst ` set (kw_args C))"

lemma init_kw_args_base_keys: "set (base_keys (init_kw_args s)) \<subseteq> possible_base_keys (klass s)"
  by (auto simp: init_kw_args_def possible_base_keys_def Let_def split: option.splits) force

lemma hooks_base_keys:
  "set (base_keys (h_init_kw_args (hooks_of c) s)) \<subseteq> possible_base_keys (klass s)"
proof -
  have "h_init_kw_args (hooks_of c) = init_kw_args \<or> h_init_kw_args (hooks_of c) = enablable_init_kw_args"
    by (cases c) (simp_all add: hook_defs)
  moreover have "set (base_keys (enablable_init_kw_args s)) \<subseteq> set (base_keys (init_kw_args s))"
    by (auto simp: enablable_init_kw_args_def Let_def)
  ultimately show ?thesis using init_kw_args_base_keys [of s] by auto
qed

lemma possible_base_keys_plain:
  "''addattr'' \<notin> possible_base_keys (class_of c)" "''delattr'' \<notin> possible_base_keys (class_of c)"
  by (cases c; simp add: possible_base_keys_def class_defs user_kw_args_def service_kw_args_def Let_def)+

lemma base_keys_plain:
  assumes "init_client (hooks_of c) (class_of c) am = Inr s"
  shows "''addattr'' \<notin> set (base_keys s) \<and> ''delattr'' \<notin> set (base_keys s)"
proof -
  have m: "init_methods (new_self (class_of c)) = Inr (new_self (class_of c)\<lparr>s_methods := method_table c\<rparr>)"
    by (rule init_methods_table) (simp add: new_self_def)
  obtain t where "klass t = class_of c" "base_keys s = base_keys (h_init_kw_args (hooks_of c) t)"
  proof
    let ?t = "init_standard_params (new_self (class_of c)\<lparr>s_methods := method_table c\<rparr>)"
    show "klass ?t = class_of c" by (simp add: init_standard_params_def new_self_def)
    show "base_keys s = base_keys (h_init_kw_args (hooks_of c) ?t)"
      using assms unfolding init_client_def m
      by (auto simp: init_module_def err_simps Let_def)
  qed
  then show ?thesis using hooks_base_keys [of c t] possible_base_keys_plain [of c] by auto
qed

section \<open>What a task and a found object must give\<close>

text \<open>
  The conditions under which the change functions of a module have what they read: a certificate
  authority that exists may only get a new description; a certificate task names its request, and
  to be revoked its certificate has a serial number and a CA and the task a reason; the cleaned
  parameters of a DNS record have zone and name.
\<close>

fun task_complete :: "ipa_module \<Rightarrow> self \<Rightarrow> bool" where
  "task_complete CA s \<longleftrightarrow> is_absent s \<or> set (dkeys (build_item s)) \<subseteq> {''description''}"
| "task_complete Cert s \<longleftrightarrow> dhas (params s) ''req'' \<and>
     (state s = PStr ''absent'' \<and> \<not> is_absent s \<and> \<not> check_mode s \<longrightarrow>
       dhas (canon_params s) ''revocation_reason'' \<and>
       (\<exists>found. response_cleaned s = Some found \<and> dhas found ''serial_number'' \<and> dhas found ''cacn''))"
| "task_complete DNSRecord s \<longleftrightarrow>
     (\<exists>cp. clean s (params s) = Inr cp \<and> dhas cp ''zone'' \<and> dhas cp ''idnsname'')"
| "task_complete _ s \<longleftrightarrow> True"

definition ready :: "ipa_module \<Rightarrow> self \<Rightarrow> bool" where
  "ready c s \<longleftrightarrow> klass s = class_of c \<and> s_methods s = method_table c \<and> requests s \<noteq> [] \<and>
     ''addattr'' \<notin> set (base_keys s) \<and> ''delattr'' \<notin> set (base_keys s) \<and>
     wf_dict (scalars (diffs s)) \<and> plain_changes (diffs s) \<and>
     (\<exists>e. obj_exists s = Inr e) \<and> task_complete c s"

lemma clean_cong: "param_data s' = param_data s \<Longrightarrow> clean s' d = clean s d"
proof -
  assume "param_data s' = param_data s"
  then have "clean_step s' = clean_step s" by (intro ext) (simp add: clean_step_def)
  then show ?thesis by (simp add: clean_def)
qed

lemma ready_queues:
  assumes "ready c s" and "queues M s s'"
  shows "ready c s'"
proof -
  from assms(2) obtain es ch where s': "s' = s\<lparr>requests := requests s @ es, changed := ch\<rparr>"
    by (auto simp: queues_def)
  have "requests s \<noteq> []" using assms(1) by (simp add: ready_def)
  then have r: "response_cleaned s' = response_cleaned s"
    by (cases "requests s") (simp_all add: response_cleaned_def s')
  then have a: "is_absent s' = is_absent s" by (simp add: is_absent_def)
  have b: "build_item s' = build_item s" by (simp add: build_item_def in_base_def s')
  have c: "clean s' d = clean s d" for d by (rule clean_cong) (simp add: s')
  have "task_complete c s' = task_complete c s"
    by (cases c) (simp_all add: a b c r, simp_all add: s')
  moreover have "obj_exists s' = obj_exists s" by (simp add: obj_exists_def s')
  ultimately show ?thesis using assms(1) by (simp add: ready_def) (simp add: s')
qed

section \<open>The change functions return\<close>

lemma mod_params_total:
  "ready c s \<Longrightarrow> \<exists>nm. h_mod_request_params (hooks_of c) s = Inr nm"
  by (cases c)
    (auto simp: ready_def hook_defs base_mod_request_params_def cert_mod_request_params_def
      dnsrecord_mod_request_params_def dindex_def split: option.splits)

lemma base_rewrite_total:
  assumes "ready c s"
  shows "\<exists>q. mod_rewrite_list_changes s
    \<lparr>r_method = m, r_name = nm, r_item = dset ''all'' (PBool True) (build_item s)\<rparr> = Inr q"
proof -
  let ?item = "dset ''all'' (PBool True) (build_item s)"
  have wf: "wf_dict ?item" using build_item_wf by blast
  have keys: "map_of (scalars (diffs s)) k = None \<or> k \<notin> set (base_keys s)"
    if "k = ''addattr'' \<or> k = ''delattr''" for k
    using assms that by (auto simp: ready_def)
  have "rewritable ?item k" if "k = ''addattr'' \<or> k = ''delattr''" for k
  proof -
    have "map_of ?item k = map_of (opt_dict ''addattr'' (in_base s (list_add (diffs s))) @
        opt_dict ''delattr'' (in_base s (list_del (diffs s)))) k"
      using that keys [OF that] assms
      by (auto simp: build_item_def fold_dset ready_def in_base_def map_of_filter_key
          split: option.splits)
    moreover have "plain_lists (in_base s (list_add (diffs s)))"
      "plain_lists (in_base s (list_del (diffs s)))"
      using assms by (simp_all add: ready_def plain_changes_def)
    ultimately show ?thesis
      by (auto simp: rewritable_def opt_dict_def split: if_splits)
  qed
  then have "\<forall>k \<in> set (filter (\<lambda>k. k = ''addattr'' \<or> k = ''delattr'') (dkeys ?item)). rewritable ?item k"
    by simp
  moreover have "distinct (filter (\<lambda>k. k = ''addattr'' \<or> k = ''delattr'') (dkeys ?item))"
    using wf by (simp add: wf_dict_def)
  ultimately obtain item' where
    "efold rewrite_key (filter (\<lambda>k. k = ''addattr'' \<or> k = ''delattr'') (dkeys ?item)) ?item = Inr item'"
    using rewrite_keys_total by blast
  then show ?thesis by (simp add: mod_rewrite_list_changes_def)
qed

lemma ca_rewrite_total:
  assumes "mod_rewrite_list_changes s \<lparr>r_method = m, r_name = nm, r_item = dset ''all'' (PBool True) (build_item s)\<rparr> = Inr q"
    and "m = ''ca_add'' \<or> set (dkeys (build_item s)) \<subseteq> {''description''}"
  shows "\<exists>q'. ca_mod_rewrite_list_changes s
    \<lparr>r_method = m, r_name = nm, r_item = dset ''all'' (PBool True) (build_item s)\<rparr> = Inr q'"
proof (cases "m = ''ca_add''")
  case True
  with assms(1) mod_rewrite_method [OF assms(1)] show ?thesis
    by (simp add: ca_mod_rewrite_list_changes_def)
next
  case False
  let ?item = "dset ''all'' (PBool True) (build_item s)"
  have "set (dkeys ?item) \<subseteq> {''all'', ''description''}" using assms(2) False by auto
  then have "filter (\<lambda>k. k = ''addattr'' \<or> k = ''delattr'') (dkeys ?item) = []"
    by (auto simp: filter_empty_conv)
  then have "r_item q = dset ''all'' (PBool True) ?item"
    using assms(1) by (auto simp: mod_rewrite_list_changes_def)
  then have "set (dkeys (r_item q)) \<subseteq> {''all'', ''description''}"
    using \<open>set (dkeys ?item) \<subseteq> _\<close> by auto
  then have "filter (\<lambda>k. k \<noteq> ''all'' \<and> k \<noteq> ''description'') (dkeys (r_item q)) = []"
    by (auto simp: filter_empty_conv)
  with assms(1) show ?thesis by (simp add: ca_mod_rewrite_list_changes_def)
qed

lemma add_or_mod_total:
  assumes "ready c s"
  shows "\<exists>s'. add_or_mod (hooks_of c) s = Inr (False, s')"
proof -
  obtain e where e: "obj_exists s = Inr e" using assms by (auto simp: ready_def)
  let ?k = "if is_absent s then ''add'' else ''mod''"
  have m: "dindex (s_methods s) ?k = Inr (base_method c ?k)"
    using assms method_table_base [of ?k c] by (simp add: ready_def err_simps)
  obtain nm where nm: "h_mod_request_params (hooks_of c) s = Inr nm"
    using mod_params_total [OF assms] by blast
  let ?r = "\<lparr>r_method = base_method c ?k, r_name = nm, r_item = dset ''all'' (PBool True) (build_item s)\<rparr>"
  obtain q where q: "mod_rewrite_list_changes s ?r = Inr q" using base_rewrite_total [OF assms] by blast
  have "\<exists>q'. h_mod_rewrite (hooks_of c) s ?r = Inr q'"
  proof (cases "c = CA")
    case True
    have "base_method CA ?k = ''ca_add'' \<or> set (dkeys (build_item s)) \<subseteq> {''description''}"
      using assms True by (auto simp: ready_def base_method_def class_defs)
    from ca_rewrite_total [OF q [unfolded True] this] True show ?thesis by (simp add: hook_defs)
  next
    case False
    with q show ?thesis by (cases c) (simp_all add: hook_defs)
  qed
  then obtain q' where "add_or_mod_request (hooks_of c) s = Inr q'"
    using m nm by (auto simp: add_or_mod_request_def)
  with e show ?thesis by (simp add: add_or_mod_def)
qed

lemma rem_total:
  assumes "ready c s"
  shows "\<exists>b s'. rem (hooks_of c) s = Inr (b, s')"
proof (cases "state s = PStr ''absent'' \<and> \<not> h_is_rem_param_request (hooks_of c) s \<and>
    \<not> is_absent s \<and> \<not> check_mode s")
  case True
  have m: "dindex (s_methods s) ''rem'' = Inr (base_method c ''rem'')"
    using assms method_table_base [of "''rem''" c] by (simp add: ready_def err_simps)
  obtain nm where nm: "h_mod_request_params (hooks_of c) s = Inr nm"
    using mod_params_total [OF assms] by blast
  have "\<exists>p i. h_rem_request_params (hooks_of c) (h_mod_request_params (hooks_of c)) s = Inr p \<and>
      h_rem_request_item (hooks_of c) s = Inr i"
  proof (cases "c = Cert")
    case True
    with \<open>state s = _ \<and> _\<close> assms show ?thesis
      by (auto simp: ready_def hook_defs cert_rem_request_params_def cert_rem_request_item_def
          response_attr_def dindex_def)
  next
    case False
    then have "h_rem_request_params (hooks_of c) = rem_request_params"
      "h_rem_request_item (hooks_of c) = rem_request_item"
      by (cases c; simp add: hook_defs)+
    with nm show ?thesis by (simp add: rem_request_params_def rem_request_item_def)
  qed
  with m True show ?thesis by (auto simp: rem_def rem_request_def)
next
  case False
  then show ?thesis by (auto simp: rem_def)
qed

text \<open>The change functions the modules add: each step returns, and keeps the difference.\<close>

lemma efold_total:
  assumes "\<And>x t. x \<in> set xs \<Longrightarrow> P t \<Longrightarrow> \<exists>t'. f x t = Inr t' \<and> P t'" and "P s"
  shows "\<exists>s'. efold f xs s = Inr s'"
  using assms
proof (induction xs arbitrary: s)
  case (Cons x xs)
  from Cons.prems obtain t where t: "f x s = Inr t" "P t" by (meson list.set_intros(1))
  have "\<exists>s'. efold f xs t = Inr s'"
    by (rule Cons.IH [OF _ t(2)]) (use Cons.prems(1) in auto)
  with t(1) show ?case by auto
qed simp

abbreviation plain_diffs :: "self \<Rightarrow> bool" where
  "plain_diffs s \<equiv> plain_changes (diffs s)"

lemma diffs_enqueue [simp]: "diffs (enqueue nm q s) = diffs s"
  by (simp add: enqueue_def)

lemma plain_change_iter:
  assumes "plain_diffs s" and "f = list_add \<or> f = list_del" and "map_of (f (diffs s)) k = Some v"
  shows "\<exists>vs. py_iter v = Inr vs"
  using assms plain_lists_map_of [of "f (diffs s)" k v] plain_list_iter [of v]
  by (auto simp: plain_changes_def)

lemma handle_members_step_total: "plain_diffs s \<Longrightarrow> \<exists>s'. handle_members_step p s = Inr s' \<and> plain_diffs s'"
  by (auto simp: handle_members_step_def Let_def base_mod_request_params_def)

lemma managedby_step_total: "plain_diffs s \<Longrightarrow> \<exists>s'. managedby_step p s = Inr s' \<and> plain_diffs s'"
  by (auto simp: managedby_step_def Let_def base_mod_request_params_def)

lemma keytab_step_total: "plain_diffs s \<Longrightarrow> \<exists>s'. keytab_step p s = Inr s' \<and> plain_diffs s'"
  by (auto simp: keytab_step_def Let_def base_mod_request_params_def)

lemma handle_principal_step_total:
  "plain_diffs s \<Longrightarrow> \<exists>s'. handle_principal_step p s = Inr s' \<and> plain_diffs s'"
  by (auto simp: handle_principal_step_def base_mod_request_params_def split: option.splits)

lemma handle_cert_step_total:
  assumes "plain_diffs s" and "fst p = f \<circ> diffs" and "f = list_add \<or> f = list_del"
  shows "\<exists>s'. handle_cert_step p s = Inr s' \<and> plain_diffs s'"
  using assms plain_change_iter [OF assms(1,3), of "''usercertificate''"]
  by (auto simp: handle_cert_step_def Let_def base_mod_request_params_def split: option.splits)

lemma collect_attr_total:
  assumes "plain_lists d"
  shows "\<exists>r. efold (collect_attr d) attrs item = Inr r"
proof (rule efold_total [where P = "\<lambda>_. True"])
  fix k item
  show "\<exists>r. collect_attr d k item = Inr r \<and> True"
  proof (cases "map_of d k")
    case (Some v)
    then obtain vs where "py_iter v = Inr vs"
      using plain_list_iter [OF plain_lists_map_of [OF assms Some]] by blast
    with Some show ?thesis by (simp add: collect_attr_def)
  qed (simp add: collect_attr_def)
qed simp

lemma caacl_step_total:
  assumes "plain_diffs s" and "p \<in> set (List.product from_lists method_items)"
  shows "\<exists>s'. caacl_step p s = Inr s' \<and> plain_diffs s'"
proof -
  have "plain_lists (fst (fst p) s)"
    using assms by (auto simp: from_lists_def plain_changes_def)
  then obtain item where "efold (collect_attr (fst (fst p) s)) (snd (snd p)) [] = Inr item"
    using collect_attr_total by blast
  with assms(1) show ?thesis by (auto simp: caacl_step_def Let_def base_mod_request_params_def)
qed

lemmas own_steps_total = handle_members_step_total managedby_step_total keytab_step_total
  handle_principal_step_total

lemma own_functions_total:
  assumes "plain_diffs s"
  shows "\<exists>s'. handle_members s = Inr (False, s')" "\<exists>s'. handle_managedby_host s = Inr (False, s')"
    "\<exists>s'. handle_allow_keytab s = Inr (False, s')" "\<exists>s'. handle_principal s = Inr (False, s')"
    "\<exists>s'. handle_cert s = Inr (False, s')" "\<exists>s'. add_remove_list_items s = Inr (False, s')"
proof -
  note total = efold_total [where P = plain_diffs, OF _ assms]
  have members: "\<exists>s'. efold handle_members_step ps s = Inr s'"
    and managedby: "\<exists>s'. efold managedby_step ps s = Inr s'"
    and principal: "\<exists>s'. efold handle_principal_step ps s = Inr s'" for ps
    by (rule total, erule own_steps_total)+
  have keytab: "\<exists>s'. efold keytab_step ps s = Inr s'" for ps
    by (rule total) (erule own_steps_total)
  from members show "\<exists>s'. handle_members s = Inr (False, s')"
    by (metis handle_members_def ebind.simps(2))
  from managedby show "\<exists>s'. handle_managedby_host s = Inr (False, s')"
    by (metis handle_managedby_host_def ebind.simps(2))
  from keytab show "\<exists>s'. handle_allow_keytab s = Inr (False, s')"
    by (metis handle_allow_keytab_def ebind.simps(2))
  from principal show "\<exists>s'. handle_principal s = Inr (False, s')"
    by (metis handle_principal_def ebind.simps(2))
  have "\<exists>s'. efold handle_cert_step
      [(list_add \<circ> diffs, ''user_add_cert''), (list_del \<circ> diffs, ''user_remove_cert'')] s = Inr s'"
    by (rule total) (auto intro: handle_cert_step_total)
  then show "\<exists>s'. handle_cert s = Inr (False, s')" by (metis handle_cert_def ebind.simps(2))
  have "\<exists>s'. efold caacl_step (List.product from_lists method_items) s = Inr s'"
    by (rule total) (rule caacl_step_total)
  then show "\<exists>s'. add_remove_list_items s = Inr (False, s')"
    by (metis add_remove_list_items_def ebind.simps(2))
qed

lemma toggle_total:
  assumes "ready c s" and "toggles c"
  shows "\<exists>s'. enable_or_disable (base_mod_request_params []) s = Inr (False, s')"
proof -
  have m: "\<exists>m. dindex (s_methods s) (if b then ''enabled'' else ''disabled'') = Inr m" for b
    using assms by (cases b) (auto simp: ready_def method_table_def class_defs dindex_def)
  show ?thesis
  proof (cases "enable_change s")
    case (Some v)
    obtain m where "dindex (s_methods s) (if sense s (py_truth v) then ''enabled'' else ''disabled'') = Inr m"
      using m by blast
    with Some show ?thesis by (simp add: enable_or_disable_def base_mod_request_params_def)
  qed (simp add: enable_or_disable_def)
qed

lemma own_total:
  assumes "ready c s" and "h_own (hooks_of c) nm = Some f"
  shows "\<exists>s'. f s = Inr (False, s')"
proof -
  have "plain_diffs s" using assms(1) by (simp add: ready_def)
  note own = own_functions_total [OF this]
  from assms(2) own toggle_total [OF assms(1)] show ?thesis
    by (cases c) (auto simp: hook_defs enablable_own_def split: if_splits)
qed

lemma queue_total:
  assumes "ready c s"
  shows "\<exists>s'. queue_requests (hooks_of c) s = Inr s'"
proof -
  have "\<exists>s'. queue_loop (hooks_of c) nms s = Inr s'"
    if "ready c s" "set nms \<subseteq> set (change_functions (class_of c))" for nms s
    using that
  proof (induction nms arbitrary: s)
    case (Cons nm nms)
    consider "nm = ''rem''" | "nm = ''add_or_mod''" | g where "nm \<noteq> ''rem''" "nm \<noteq> ''add_or_mod''"
        "h_own (hooks_of c) nm = Some g"
      using ipa_client.resolves [OF client_contract, of nm c] Cons.prems(2) by auto
    then have "\<exists>f b s1. get_change_function (hooks_of c) nm = Inr f \<and> f s = Inr (b, s1)"
    proof cases
      case 1
      with rem_total [OF Cons.prems(1)] show ?thesis by (simp add: get_change_function_def)
    next
      case 2
      with add_or_mod_total [OF Cons.prems(1)] show ?thesis by (auto simp: get_change_function_def)
    next
      case (3 g)
      with own_total [OF Cons.prems(1) 3(3)] show ?thesis by (auto simp: get_change_function_def)
    qed
    then obtain f b s1 where f: "get_change_function (hooks_of c) nm = Inr f" "f s = Inr (b, s1)"
      by blast
    from ipa_client.change_function_queues [OF client_contract f]
    have "ready c s1" by (rule ready_queues [OF Cons.prems(1)])
    with Cons f show ?case by auto
  qed simp
  with assms show ?thesis by (auto simp: queue_requests_def ready_def)
qed

section \<open>A server that accepts changes\<close>

text \<open>
  What the server answers to a change it carries out: a good status and a document without error
  whose result has a result of its own. The find request may be answered otherwise.
\<close>

definition accepted_reply :: "http_reply \<Rightarrow> bool" where
  "accepted_reply rep \<longleftrightarrow>
     (\<exists>st msg d r v cookie. rep = HttpReply st msg (Some (PDict d)) cookie \<and> status_ok st \<and>
        dget d ''error'' PNone = PNone \<and> map_of d ''result'' = Some (PDict r) \<and>
        map_of r ''result'' = Some v)"

definition accepts :: "'w fetch \<Rightarrow> string \<Rightarrow> bool" where
  "accepts fetch F \<longleftrightarrow>
     (\<forall>w q m. json_method q = Some m \<longrightarrow> m \<noteq> F \<longrightarrow> accepted_reply (fst (fetch w q)))"

lemma post_json_accepted:
  assumes "accepts fetch F" and "r_method q \<noteq> F" and "map_of (s_methods s) ''find'' = Some F"
    and "get_json_url s = Inr url"
  shows "\<exists>v rs n'. post_json fetch H s q n = (Inr v, s\<lparr>responses := rs\<rparr>, n')"
proof -
  obtain rep n1 where f: "fetch_url fetch (json_request s url q) n = (rep, n1)"
    by (cases "fetch_url fetch (json_request s url q) n")
  then have "rep = fst (fetch (server n) (json_request s url q))"
    by (auto simp: fetch_url_def Let_def split: prod.splits)
  with assms(1,2) have "accepted_reply rep" by (auto simp: accepts_def)
  then obtain st msg d r v cookie where rep: "rep = HttpReply st msg (Some (PDict d)) cookie"
    "status_ok st" "dget d ''error'' PNone = PNone" "map_of d ''result'' = Some (PDict r)"
    "map_of r ''result'' = Some v" unfolding accepted_reply_def by blast
  let ?s = "s\<lparr>responses := dset (r_method q) (PDict d) (responses s)\<rparr>"
  have "decode_reply H ?s (r_method q) (PDict d) = Inr v"
    using rep(3-5) assms(2,3)
    by (auto simp: decode_reply_def decode_result_def dget_Some dindex_def split: pyval.splits)
  then show ?thesis
    using f rep(1,2) assms(4) by (auto simp: post_json_def Let_def)
qed

lemma process_entries_accepted:
  assumes "accepts fetch F" and "F \<notin> M" and "\<forall>e \<in> set es. new_entry_ok M e"
    and "map_of (s_methods s) ''find'' = Some F" and "get_json_url s = Inr url"
    and "requests s = pre @ es"
  shows "\<exists>s' n' es'. process_entries fetch H pre es s n = (Inr (), s', n') \<and>
    requests s' = pre @ es' \<and> length es' = length es \<and> (\<forall>e \<in> set es'. e_response e \<noteq> None) \<and>
    klass s' = klass s"
  using assms(3-6)
proof (induction es arbitrary: pre s n)
  case (Cons e es)
  from Cons.prems(1) obtain q where q: "e_request e = Some q" "r_method q \<in> M"
    by (auto simp: new_entry_ok_def)
  then have "r_method q \<noteq> F" using assms(2) by auto
  from post_json_accepted [OF assms(1) this Cons.prems(2,3)] obtain v0 rs0 n0 where
    "post_json fetch H s q n = (Inr v0, s\<lparr>responses := rs0\<rparr>, n0)" by blast
  moreover have "s = s\<lparr>responses := responses s\<rparr>" by simp
  ultimately obtain v rs n1 where
    step: "(if check_mode s then (Inr (PDict []), s, n) else post_json fetch H s q n) =
      (Inr v, s\<lparr>responses := rs\<rparr>, n1)"
    by (metis (full_types))
  let ?e = "e\<lparr>e_response := Some v\<rparr>"
  let ?s = "s\<lparr>responses := rs, requests := pre @ ?e # es, changed := True\<rparr>"
  have "get_json_url ?s = Inr url"
    using Cons.prems(3) get_json_url_cong [of ?s s] by simp
  with Cons.IH [of ?s "pre @ [?e]" n1] Cons.prems obtain s' n' es' where
    "process_entries fetch H (pre @ [?e]) es ?s n1 = (Inr (), s', n')"
    "requests s' = (pre @ [?e]) @ es'" "length es' = length es" "\<forall>e \<in> set es'. e_response e \<noteq> None"
    "klass s' = klass s"
    by auto
  with q(1) step show ?case
    by (intro exI [of _ s'] exI [of _ n'] exI [of _ "?e # es'"]) (simp add: Let_def)
qed simp

section \<open>Whole runs\<close>

lemma compute_changes_wf_scalars: "compute_changes s a b = Inr c \<Longrightarrow> wf_dict (scalars c)"
  by (auto simp: compute_changes_def scalar_changes_def Let_def err_simps
      dest!: wf_dict_efold_store split: if_splits)

lemma hooks_wf_scalars: "h_compute_changes (hooks_of c) s a b = Inr d \<Longrightarrow> wf_dict (scalars d)"
  by (cases c)
    (auto simp: hook_defs cert_compute_changes_def err_simps dest!: compute_changes_wf_scalars
      split: if_splits)

lemma find_not_changing:
  assumes "s_methods s = method_table c"
  shows "base_method c ''find'' \<notin> extra_methods c \<union> change_methods s"
  unfolding api_changes_cover [OF assms] by (cases c) (simp_all add: base_method_def class_defs)

lemma found_ready:
  assumes "init_client (hooks_of c) (class_of c) am = Inr s0" and "login fetch s0 n0 = (Inr (), s, n)"
    and "find_obj fetch (hooks_of c) s n = (Inr (), s1, n1)"
    and "obj_exists s1 = Inr e" and "task_complete c s1"
  shows "ready c s1"
proof -
  note ini = init_client_setup [OF assms(1)] base_keys_plain [OF assms(1)]
  obtain h where s: "s = s0\<lparr>headers := h\<rparr>" using login_frame [OF assms(2)] by blast
  note frame = ipa_client.find_obj_frame [OF client_contract assms(3)]
  have "requests s = []" using ini s by simp
  from find_obj_records [OF client_contract assms(3) this] find_obj_entry [OF assms(3)]
  obtain t cp found where "h_compute_changes (hooks_of c) t cp found = Inr (diffs s1)"
    by (metis)
  note df = hooks_wf_scalars [OF this] hooks_changes_plain [OF this]
  have "requests s1 \<noteq> []" using frame(3) by auto
  with df ini s assms(4,5) same_setup_frame [OF frame(1)] show ?thesis by (simp add: ready_def)
qed

lemma queue_accepted:
  assumes ready: "ready c s1" and q: "queue_requests (hooks_of c) s1 = Inr s2"
    and entry: "requests s1 = [e0]" "e_response e0 \<noteq> None"
    and url: "get_json_url s1 = Inr url" and acc: "accepts fetch (base_method c ''find'')"
  shows "\<exists>s3 n3 v. process_queue fetch (hooks_of c) s2 n1 = (Inr (), s3, n3) \<and>
    last_response s3 = Inr v \<and> klass s3 = class_of c \<and>
    (changed s3 \<longleftrightarrow> changed s2 \<or> 1 < length (requests s2)) \<and>
    (\<not> check_mode s1 \<longrightarrow>
      sent n3 = sent n1 @ map (\<lambda>e. json_request s2 url (the (e_request e))) (drop 1 (requests s2)))"
proof -
  note frame = ipa_client.queue_requests_queues [OF client_contract q]
  obtain es where es: "requests s2 = [e0] @ es"
    "\<forall>e \<in> set es. new_entry_ok (extra_methods c \<union> change_methods s1) e"
    using queues_requests [OF frame] entry(1) by auto
  have tab: "s_methods s1 = method_table c" using ready by (simp add: ready_def)
  have find: "map_of (s_methods s2) ''find'' = Some (base_method c ''find'')"
    using queues_frame(2) [OF frame] tab method_table_base [of "''find''" c] by simp
  have url2: "get_json_url s2 = Inr url"
    using url get_json_url_cong [of s2 s1] queues_frame [OF frame] by simp
  have "requests s2 = [e0] @ es" by (rule es(1))
  from process_entries_accepted [OF acc find_not_changing [OF tab] es(2) find url2 this]
  obtain s3 n3 es' where run: "process_entries fetch (hooks_of c) [e0] es s2 n1 = (Inr (), s3, n3)"
    and s3: "requests s3 = [e0] @ es'" "length es' = length es" "\<forall>e \<in> set es'. e_response e \<noteq> None"
      "klass s3 = klass s2"
    by metis
  have "e_response (last (requests s3)) \<noteq> None"
    using s3(1,3) entry(2) by (cases es' rule: rev_cases) auto
  then obtain v where "last_response s3 = Inr v" using s3(1) by (auto simp: last_response_def)
  moreover have "klass s3 = class_of c"
    using s3(4) queues_frame(1) [OF frame] ready by (simp add: ready_def)
  moreover have "changed s3 \<longleftrightarrow> changed s2 \<or> 1 < length (requests s2)"
    using process_entries_changed [OF run] es(1) by auto
  moreover have "sent n3 = sent n1 @ map (\<lambda>e. json_request s2 url (the (e_request e))) es"
    if "\<not> check_mode s1"
    using process_entries_sends [OF run _ url2] queues_frame(3) [OF frame] that by simp
  ultimately show ?thesis using run es(1) by (auto simp: process_queue_def)
qed

text \<open>C8: Once login and find have succeeded and the task gives what the change functions read, a run
  against a server that accepts its changes ends: nothing raises, outside check mode the whole queue
  is sent, and the module leaves through \<open>exit_json\<close> with changed set iff it queued a request or a
  change function found one to make.\<close>

theorem accepted_run_completes:
  assumes init: "init_client (hooks_of c) (class_of c) am = Inr s0"
    and login: "login fetch s0 n0 = (Inr (), s, n)"
    and found: "find_obj fetch (hooks_of c) s n = (Inr (), s1, n1)"
    and count: "obj_exists s1 = Inr e" and complete: "task_complete c s1"
    and accepts: "accepts fetch (base_method c ''find'')"
  shows "\<exists>s2 s3 n3 v url. queue_requests (hooks_of c) s1 = Inr s2 \<and> get_json_url s0 = Inr url \<and>
    main fetch (hooks_of c) s0 n0 =
      (ExitJson (changed s2 \<or> 1 < length (requests s2)) (cname (class_of c)) v, s3, n3) \<and>
    (\<not> check_mode s1 \<longrightarrow>
      sent n3 = sent n1 @ map (\<lambda>e. json_request s2 url (the (e_request e))) (drop 1 (requests s2)))"
proof -
  have ready: "ready c s1" by (rule found_ready [OF init login found count complete])
  then obtain s2 where q: "queue_requests (hooks_of c) s1 = Inr s2" using queue_total by blast
  have "requests s = []" using init_client_setup(3) [OF init] login_frame [OF login] by auto
  with find_obj_entry [OF found] obtain e0 where entry: "requests s1 = [e0]" "e_response e0 \<noteq> None"
    by (auto simp: find_entry_def)
  from login obtain base where "get_base_url s0 = Inr base"
    by (auto simp: login_def login_request_def err_simps split: sum.splits)
  then have url0: "get_json_url s0 = Inr (base @ ''/session/json'')" by (simp add: get_json_url_def)
  obtain h where "s = s0\<lparr>headers := h\<rparr>" using login_frame [OF login] by blast
  then have url: "get_json_url s1 = Inr (base @ ''/session/json'')"
    using url0 get_json_url_cong [of s1 s0]
      same_setup_frame [OF ipa_client.find_obj_frame(1) [OF client_contract found]] by simp
  from queue_accepted [OF ready q entry url accepts] obtain s3 n3 v where
    "process_queue fetch (hooks_of c) s2 n1 = (Inr (), s3, n3)" "last_response s3 = Inr v"
    "klass s3 = class_of c" "changed s3 \<longleftrightarrow> changed s2 \<or> 1 < length (requests s2)"
    "\<not> check_mode s1 \<longrightarrow>
      sent n3 = sent n1 @ map (\<lambda>e. json_request s2 (base @ ''/session/json'') (the (e_request e))) (drop 1 (requests s2))"
    by blast
  with q login found url0 show ?thesis by (auto simp: main_def ensure_def)
qed

section \<open>A run against a concrete server\<close>

definition staff_task :: "bool \<Rightarrow> ansible_module" where
  "staff_task cm spec = Inr
     ([(''cn'', PStr ''staff''), (''description'', PStr ''new''), (''gidnumber'', PNone),
       (''state'', PStr ''present''), (''ipa_prot'', PStr ''https''), (''ipa_host'', PStr ''ipa''),
       (''ipa_user'', PStr ''admin''), (''ipa_pass'', PStr ''secret'')], cm)"

definition entry_reply :: "pyval \<Rightarrow> pyval" where
  "entry_reply v = PDict [(''error'', PNone), (''result'', PDict [(''result'', v), (''count'', PInt 1)])]"

definition staff_server :: "unit fetch" where
  "staff_server w q = (HttpReply 200 [] (Some (entry_reply
     (if json_method q = Some ''group_find''
      then PList [PDict [(''cn'', PList [PStr ''staff'']), (''description'', PList [PStr ''old''])]]
      else PDict [(''description'', PList [PStr ''new''])]))) PNone, w)"

lemma staff_server_accepts: "accepts staff_server ''group_find''"
  by (auto simp: accepts_def accepted_reply_def staff_server_def entry_reply_def dget_def status_ok_def)

lemma staff_run:
  "case init_client GroupIPAClient_hooks GroupIPAClient_class (staff_task False) of
     Inl x \<Rightarrow> False
   | Inr s0 \<Rightarrow>
       (case login staff_server s0 \<lparr>server = (), sent = []\<rparr> of (r, s, n) \<Rightarrow>
         r = Inr () \<and>
         (case find_obj staff_server GroupIPAClient_hooks s n of (r1, s1, n1) \<Rightarrow>
           r1 = Inr () \<and> obj_exists s1 = Inr True \<and>
           (case queue_requests GroupIPAClient_hooks s1 of Inl x \<Rightarrow> False
            | Inr s2 \<Rightarrow> length (requests s2) = 2 \<and> \<not> changed s2)))"
  by code_simp

theorem accepted_run_completes_witness:
  "\<exists>s0 v s3 n3. init_client GroupIPAClient_hooks GroupIPAClient_class (staff_task False) = Inr s0 \<and>
     main staff_server GroupIPAClient_hooks s0 \<lparr>server = (), sent = []\<rparr> = (ExitJson True ''group'' v, s3, n3)"
proof -
  obtain s0 s n s1 n1 s2 where init: "init_client (hooks_of Group) (class_of Group) (staff_task False) = Inr s0"
    and login: "login staff_server s0 \<lparr>server = (), sent = []\<rparr> = (Inr (), s, n)"
    and found: "find_obj staff_server (hooks_of Group) s n = (Inr (), s1, n1)"
    and count: "obj_exists s1 = Inr True"
    and q: "queue_requests (hooks_of Group) s1 = Inr s2" "length (requests s2) = 2" "\<not> changed s2"
    using staff_run by (auto split: sum.splits prod.splits)
  have F: "base_method Group ''find'' = ''group_find''" "cname (class_of Group) = ''group''"
    by (simp_all add: base_method_def class_defs)
  from accepted_run_completes [OF init login found count _ staff_server_accepts [folded F(1)]] q F(2) init
  show ?thesis by auto
qed

end
