(* ===== verification/IPA_Server.thy ===== *)
theory IPA_Server
  imports IPA_Completion
begin

text \<open>
  What the requests of a run mean to the server. FreeIPA documents \<open>addattr\<close> and \<open>delattr\<close> as lists
  of \<open>attribute=value\<close>, the other options of \<open>add\<close> and \<open>mod\<close> as attributes to set, and gives member
  commands of its own to groups, ACLs, services and users. Read this way, the queue of every module
  carries exactly the difference, and the object it leaves needs no second change.
\<close>

section \<open>The meaning of one request\<close>

text \<open>\<open>attribute=value\<close>: the attribute ends at the first equals sign.\<close>

definition attr_pair :: "string \<Rightarrow> string \<times> string" where
  "attr_pair t = (takeWhile (\<lambda>c. c \<noteq> CHR ''='') t, drop 1 (dropWhile (\<lambda>c. c \<noteq> CHR ''='') t))"

definition texts_at :: "pydict \<Rightarrow> string \<Rightarrow> string set" where
  "texts_at d k = {t. PStr t \<in> set (attr_list d k)}"

definition named_values :: "string \<Rightarrow> pydict \<Rightarrow> string \<Rightarrow> string set" where
  "named_values opt item k = {v. \<exists>t \<in> texts_at item opt. attr_pair t = (k, v)}"

text \<open>A member command takes its values from options, or from its last positional argument, and
  adds them to or removes them from an attribute. Certificates are wrapped.\<close>

datatype place = Option string | LastArgument

fun given_values :: "request \<Rightarrow> place \<Rightarrow> string set" where
  "given_values q (Option opt) = {t. PStr t \<in> unwrap_cert ` set (attr_list (r_item q) opt)}"
| "given_values q LastArgument =
     (if r_name q = [] then {}
      else case last (r_name q) of PList vs \<Rightarrow> {t. PStr t \<in> set vs} | _ \<Rightarrow> {})"

declare given_values.simps [simp del]

definition same_names :: "string list \<Rightarrow> (place \<times> string) list" where
  "same_names ks = map (\<lambda>k. (Option k, k)) ks"

definition group_names :: "(place \<times> string) list" where
  "group_names = [(Option ''user'', ''member_user''), (Option ''group'', ''member_group'')]"

definition keytab_names :: "string \<Rightarrow> (place \<times> string) list" where
  "keytab_names r_w = map (\<lambda>k. (Option k, ''ipaallowedtoperform_'' @ r_w @ ''_keys_'' @ k))
     [''user'', ''group'', ''host'', ''hostgroup'']"

text \<open>The member commands: whether they add, and where the values of which attribute are.\<close>

fun member_commands :: "ipa_module \<Rightarrow> (string \<times> bool \<times> (place \<times> string) list) list" where
  "member_commands Group =
     [(''group_add_member'', True, group_names), (''group_remove_member'', False, group_names)]"
| "member_commands CAACL =
     concat (map (\<lambda>(m, ks). [(''caacl_add_'' @ m, True, same_names ks),
                              (''caacl_remove_'' @ m, False, same_names ks)])
       [(''user'', [''user'', ''group'']), (''host'', [''host'', ''hostgroup'']),
        (''profile'', [''certprofile'']), (''ca'', [''ca'']), (''service'', [''service''])])"
| "member_commands Service =
     [(''service_add_host'', True, [(Option ''host'', ''managedby_host'')]),
      (''service_remove_host'', False, [(Option ''host'', ''managedby_host'')]),
      (''service_allow_create_keytab'', True, keytab_names ''write''),
      (''service_disallow_create_keytab'', False, keytab_names ''write''),
      (''service_allow_retrieve_keytab'', True, keytab_names ''read''),
      (''service_disallow_retrieve_keytab'', False, keytab_names ''read'')]"
| "member_commands User =
     [(''user_add_cert'', True, same_names [''usercertificate'']),
      (''user_remove_cert'', False, same_names [''usercertificate'']),
      (''user_add_principal'', True, [(LastArgument, ''krbprincipalname'')]),
      (''user_remove_principal'', False, [(LastArgument, ''krbprincipalname'')])]"
| "member_commands _ = []"

definition base_command :: "ipa_module \<Rightarrow> string \<Rightarrow> bool" where
  "base_command c m \<longleftrightarrow> m = base_method c ''add'' \<or> m = base_method c ''mod''"

definition member_values :: "ipa_module \<Rightarrow> bool \<Rightarrow> request \<Rightarrow> string \<Rightarrow> string set" where
  "member_values c b q k =
     (case map_of (member_commands c) (r_method q) of
        Some (b', ps) \<Rightarrow>
          if b' = b then {v. \<exists>x \<in> set ps. snd x = k \<and> v \<in> given_values q (fst x)} else {}
      | None \<Rightarrow> {})"

text \<open>The values a request adds to and removes from an attribute, and those it sets.\<close>

definition adds :: "ipa_module \<Rightarrow> request \<Rightarrow> string \<Rightarrow> string set" where
  "adds c q k =
     (if base_command c (r_method q) then named_values ''addattr'' (r_item q) k else {}) \<union>
     member_values c True q k"

definition removes :: "ipa_module \<Rightarrow> request \<Rightarrow> string \<Rightarrow> string set" where
  "removes c q k =
     (if base_command c (r_method q) then named_values ''delattr'' (r_item q) k else {}) \<union>
     member_values c False q k"

definition option_list :: "'a option \<Rightarrow> 'a list" where
  "option_list x = (case x of None \<Rightarrow> [] | Some v \<Rightarrow> [v])"

definition sets :: "ipa_module \<Rightarrow> request \<Rightarrow> string \<Rightarrow> pyval list" where
  "sets c q k =
     (if base_command c (r_method q) then
        (if k \<in> {''all'', ''addattr'', ''delattr''} then [] else option_list (map_of (r_item q) k))
      else if enablekey (class_of c) \<noteq> Some k then []
      else if r_method q = cname (class_of c) @ ''_enable''
      then [PBool (\<not> enablekey_sense_inverted (class_of c))]
      else if r_method q = cname (class_of c) @ ''_disable''
      then [PBool (enablekey_sense_inverted (class_of c))] else [])"

text \<open>And a queue of entries.\<close>

definition queue_adds :: "ipa_module \<Rightarrow> entry list \<Rightarrow> string \<Rightarrow> string set" where
  "queue_adds c es k = (\<Union>e \<in> set es. case e_request e of None \<Rightarrow> {} | Some q \<Rightarrow> adds c q k)"

definition queue_removes :: "ipa_module \<Rightarrow> entry list \<Rightarrow> string \<Rightarrow> string set" where
  "queue_removes c es k = (\<Union>e \<in> set es. case e_request e of None \<Rightarrow> {} | Some q \<Rightarrow> removes c q k)"

definition queue_sets :: "ipa_module \<Rightarrow> entry list \<Rightarrow> string \<Rightarrow> pyval list" where
  "queue_sets c es k =
     concat (map (\<lambda>e. case e_request e of None \<Rightarrow> [] | Some q \<Rightarrow> sets c q k) es)"

lemma queue_meaning_Nil [simp]:
  "queue_adds c [] k = {}" "queue_removes c [] k = {}" "queue_sets c [] k = []"
  by (simp_all add: queue_adds_def queue_removes_def queue_sets_def)

lemma queue_meaning_append [simp]:
  "queue_adds c (es @ fs) k = queue_adds c es k \<union> queue_adds c fs k"
  "queue_removes c (es @ fs) k = queue_removes c es k \<union> queue_removes c fs k"
  "queue_sets c (es @ fs) k = queue_sets c es k @ queue_sets c fs k"
  by (auto simp: queue_adds_def queue_removes_def queue_sets_def)

section \<open>Steps and what they contribute\<close>

definition contributes ::
  "ipa_module \<Rightarrow> (string \<Rightarrow> string set) \<Rightarrow> (string \<Rightarrow> string set) \<Rightarrow> (string \<Rightarrow> pyval list) \<Rightarrow>
     self \<Rightarrow> self \<Rightarrow> bool" where
  "contributes c A R S s s' \<longleftrightarrow>
     (\<exists>es ch. s' = s\<lparr>requests := requests s @ es, changed := ch\<rparr> \<and>
        queue_adds c es = A \<and> queue_removes c es = R \<and> queue_sets c es = S)"

definition nothing :: "string \<Rightarrow> 'a set" where "nothing k = {}"

definition unset :: "string \<Rightarrow> pyval list" where "unset k = []"

definition only :: "string set \<Rightarrow> (string \<Rightarrow> 'a set) \<Rightarrow> string \<Rightarrow> 'a set" where
  "only K f k = (if k \<in> K then f k else {})"

lemma contributes_frame:
  assumes "contributes c A R S s s'"
  shows "klass s' = klass s" "s_methods s' = s_methods s" "check_mode s' = check_mode s"
    "diffs s' = diffs s" "state s' = state s" "params s' = params s" "canon_params s' = canon_params s"
    "param_data s' = param_data s" "base_keys s' = base_keys s"
    "requests s \<noteq> [] \<Longrightarrow> is_absent s' = is_absent s"
  using assms
  by (auto simp: contributes_def is_absent_def response_cleaned_def hd_append split: list.splits)

lemma contributes_refl: "contributes c nothing nothing unset s s"
  unfolding contributes_def
  by (intro exI [of _ "[]"] exI [of _ "changed s"])
    (auto simp: nothing_def unset_def)

lemma contributes_trans:
  assumes "contributes c A R S s t" and "contributes c A' R' S' t u"
  shows "contributes c (\<lambda>k. A k \<union> A' k) (\<lambda>k. R k \<union> R' k) (\<lambda>k. S k @ S' k) s u"
proof -
  obtain es ch es' ch' where "t = s\<lparr>requests := requests s @ es, changed := ch\<rparr>"
    "u = t\<lparr>requests := requests t @ es', changed := ch'\<rparr>"
    "queue_adds c es = A" "queue_removes c es = R" "queue_sets c es = S"
    "queue_adds c es' = A'" "queue_removes c es' = R'" "queue_sets c es' = S'"
    using assms unfolding contributes_def by blast
  then show ?thesis
    unfolding contributes_def
    by (intro exI [of _ "es @ es'"] exI [of _ ch']) (auto simp: fun_eq_iff)
qed

lemma contributes_enqueue:
  "contributes c (adds c q) (removes c q) (sets c q) s (enqueue nm q (s\<lparr>changed := ch\<rparr>))"
  unfolding contributes_def enqueue_def
  by (intro exI [of _ "[\<lparr>e_name = nm, e_request = Some q, e_response = None, e_response_cleaned = None\<rparr>]"]
      exI [of _ ch])
    (auto simp: queue_adds_def queue_removes_def queue_sets_def fun_eq_iff)

lemma contributes_enqueue_same:
  "contributes c (adds c q) (removes c q) (sets c q) s (enqueue nm q s)"
  using contributes_enqueue [of c q s nm "changed s"] by simp

text \<open>A loop of steps that each contribute a part read off the difference.\<close>

lemma efold_contributes:
  assumes "\<And>p t t'. p \<in> set ps \<Longrightarrow> diffs t = d \<Longrightarrow> \<not> check_mode t \<Longrightarrow> step p t = Inr t' \<Longrightarrow>
      contributes c (A p) (R p) unset t t'"
    and "efold step ps s = Inr s'" and "diffs s = d" and "\<not> check_mode s"
  shows "contributes c (\<lambda>k. \<Union>p \<in> set ps. A p k) (\<lambda>k. \<Union>p \<in> set ps. R p k) unset s s'"
  using assms
proof (induction ps arbitrary: s)
  case Nil
  then show ?case using contributes_refl [of c s] by (simp add: nothing_def [abs_def])
next
  case (Cons p ps)
  from Cons.prems(2) obtain t where t: "step p s = Inr t" "efold step ps t = Inr s'"
    by (auto simp: err_simps)
  have a: "contributes c (A p) (R p) unset s t"
    using Cons.prems t(1) by simp
  have "contributes c (\<lambda>k. \<Union>p \<in> set ps. A p k) (\<lambda>k. \<Union>p \<in> set ps. R p k) unset t s'"
    using Cons.prems t(2) contributes_frame [OF a] by (intro Cons.IH) simp_all
  from contributes_trans [OF a this] show ?case by (simp add: unset_def [abs_def])
qed

section \<open>Differences of texts\<close>

definition string_lists :: "pydict \<Rightarrow> bool" where
  "string_lists d \<longleftrightarrow> (\<forall>k v. map_of d k = Some v \<longrightarrow> (\<exists>ts. v = PList (map PStr ts)))"

definition string_changes :: "changes \<Rightarrow> bool" where
  "string_changes d \<longleftrightarrow> string_lists (list_add d) \<and> string_lists (list_del d)"

lemma string_lists_attr:
  "string_lists d \<Longrightarrow> \<exists>ts. attr_list d k = map PStr ts"
  by (cases "map_of d k") (force simp: string_lists_def attr_list_def)+

lemma unwrap_texts:
  "string_lists d \<Longrightarrow> {t. PStr t \<in> unwrap_cert ` set (attr_list d k)} = texts_at d k"
  using string_lists_attr [of d k] by (auto simp: texts_at_def unwrap_cert_def image_iff)

lemma given_option:
  "string_lists d \<Longrightarrow> set (attr_list (r_item q) opt) = set (attr_list d k) \<Longrightarrow> given_values q (Option opt) = texts_at d k"
  using unwrap_texts by (simp add: given_values.simps)

lemma texts_at_None: "map_of d k = None \<Longrightarrow> texts_at d k = {}"
  by (simp add: texts_at_def attr_list_def)

lemma base_methods:
  "base_command CA m \<longleftrightarrow> m = ''ca_add'' \<or> m = ''ca_mod''"
  "base_command CAACL m \<longleftrightarrow> m = ''caacl_add'' \<or> m = ''caacl_mod''"
  "base_command Cert m \<longleftrightarrow> m = ''cert_request''"
  "base_command DNSRecord m \<longleftrightarrow> m = ''dnsrecord_add'' \<or> m = ''dnsrecord_mod''"
  "base_command DNSZone m \<longleftrightarrow> m = ''dnszone_add'' \<or> m = ''dnszone_mod''"
  "base_command Group m \<longleftrightarrow> m = ''group_add'' \<or> m = ''group_mod''"
  "base_command Service m \<longleftrightarrow> m = ''service_add'' \<or> m = ''service_mod''"
  "base_command User m \<longleftrightarrow> m = ''user_add'' \<or> m = ''user_mod''"
  by (simp_all add: base_command_def base_method_def class_defs)

text \<open>A member command for the attributes of \<open>ps\<close> contributes their values in one of the lists.\<close>

definition direction :: "changes \<Rightarrow> bool \<Rightarrow> pydict" where
  "direction d b = (if b then list_add d else list_del d)"

text \<open>No member command is a base command or a toggle.\<close>

lemma member_commands_own:
  assumes "map_of (member_commands c) m = Some x"
  shows "\<not> base_command c m" "m \<noteq> cname (class_of c) @ ''_enable''" "m \<noteq> cname (class_of c) @ ''_disable''"
  using assms
  by (cases c; auto simp: base_methods class_defs Let_def split: if_splits)+

definition member_part :: "bool \<Rightarrow> (place \<times> string) list \<Rightarrow> pydict \<Rightarrow> string \<Rightarrow> string set" where
  "member_part b ps d = (if b then only (snd ` set ps) (texts_at d) else nothing)"

lemma contributes_member:
  assumes "map_of (member_commands c) (r_method q) = Some (b, ps)"
    and "\<forall>x \<in> set ps. given_values q (fst x) = texts_at d (snd x)"
    and "s' = enqueue nm q (s\<lparr>changed := ch\<rparr>)"
  shows "contributes c (member_part b ps d) (member_part (\<not> b) ps d) unset s s'"
proof -
  note own = member_commands_own [OF assms(1)]
  have "{v. \<exists>x \<in> set ps. snd x = k \<and> v \<in> given_values q (fst x)} = only (snd ` set ps) (texts_at d) k" for k
  proof -
    have "snd x = k \<and> v \<in> given_values q (fst x) \<longleftrightarrow> snd x = k \<and> v \<in> texts_at d k" if "x \<in> set ps" for x v
      using assms(2) that by auto
    then show ?thesis by (auto simp: only_def)
  qed
  then have "member_values c b' q k = (if b' = b then only (snd ` set ps) (texts_at d) k else {})" for b' k
    by (simp add: member_values_def assms(1))
  with own have "adds c q = member_part b ps d" "removes c q = member_part (\<not> b) ps d" "sets c q = unset"
    by (auto simp: adds_def removes_def sets_def member_part_def fun_eq_iff nothing_def unset_def)
  with contributes_enqueue [of c q s nm ch] assms(3) show ?thesis by simp
qed

lemma contributes_none:
  assumes "\<And>x. x \<in> set ps \<Longrightarrow> texts_at d (snd x) = {}"
  shows "contributes c (member_part b ps d) (member_part (\<not> b) ps d) unset s s"
proof -
  have "only (snd ` set ps) (texts_at d) = nothing"
    using assms by (auto simp: fun_eq_iff only_def nothing_def)
  then show ?thesis using contributes_refl [of c s] by (simp add: member_part_def)
qed

lemma string_changes_direction: "string_changes d \<Longrightarrow> string_lists (direction d b)"
  by (simp add: string_changes_def direction_def)

text \<open>A loop of member steps: \<open>b p\<close> says whether step \<open>p\<close> adds, \<open>ns p\<close> where its values are.\<close>

definition loop_keys :: "('a \<Rightarrow> bool) \<Rightarrow> ('a \<Rightarrow> (place \<times> string) list) \<Rightarrow> 'a list \<Rightarrow> string set" where
  "loop_keys b ns ps = (\<Union>p \<in> set ps. if b p then snd ` set (ns p) else {})"

lemma member_loop:
  assumes step: "\<And>p t t'. step p t = Inr t' \<Longrightarrow> \<not> check_mode t \<Longrightarrow> string_lists (src p t) \<Longrightarrow>
      map_of (member_commands c) (mth p) = Some (b p, ns p) \<Longrightarrow>
      contributes c (member_part (b p) (ns p) (src p t)) (member_part (\<not> b p) (ns p) (src p t)) unset t t'"
    and run: "efold step ps s = Inr s'" and "\<not> check_mode s" and "string_changes (diffs s)"
    and table: "\<forall>p \<in> set ps. map_of (member_commands c) (mth p) = Some (b p, ns p)"
    and src: "\<forall>p \<in> set ps. \<forall>t. src p t = direction (diffs t) (b p)"
  shows "contributes c (only (loop_keys b ns ps) (texts_at (list_add (diffs s))))
    (only (loop_keys (\<lambda>p. \<not> b p) ns ps) (texts_at (list_del (diffs s)))) unset s s'"
proof -
  have "contributes c (member_part (b p) (ns p) (direction (diffs s) (b p)))
        (member_part (\<not> b p) (ns p) (direction (diffs s) (b p))) unset t t'"
    if "p \<in> set ps" "diffs t = diffs s" "\<not> check_mode t" "step p t = Inr t'" for p t t'
  proof -
    have "src p t = direction (diffs s) (b p)" using src that(1,2) by simp
    with step [OF that(4,3)] table that(1) string_changes_direction [OF assms(4)]
    show ?thesis by simp
  qed
  then have "contributes c (\<lambda>k. \<Union>p \<in> set ps. member_part (b p) (ns p) (direction (diffs s) (b p)) k)
      (\<lambda>k. \<Union>p \<in> set ps. member_part (\<not> b p) (ns p) (direction (diffs s) (b p)) k) unset s s'"
    using run assms(3) by (intro efold_contributes [where d = "diffs s" and step = step]) auto
  moreover have "member_part (b p) (ns p) (direction (diffs s) (b p)) k =
      (if b p \<and> k \<in> snd ` set (ns p) then texts_at (list_add (diffs s)) k else {})"
    "member_part (\<not> b p) (ns p) (direction (diffs s) (b p)) k =
      (if \<not> b p \<and> k \<in> snd ` set (ns p) then texts_at (list_del (diffs s)) k else {})" for p k
    by (simp_all add: member_part_def direction_def only_def nothing_def)
  moreover have "k \<in> loop_keys f ns ps \<longleftrightarrow> (\<exists>p \<in> set ps. f p \<and> k \<in> snd ` set (ns p))" for f k
    by (auto simp: loop_keys_def)
  moreover have "(\<Union>p \<in> set ps. if f p then X else {}) = (if \<exists>p \<in> set ps. f p then X else {})"
    for f and X :: "string set"
    by auto
  ultimately show ?thesis by (simp add: only_def [abs_def])
qed

lemma same_names_set: "snd ` set (same_names ks) = set ks"
  by (auto simp: same_names_def image_iff)

section \<open>Group members\<close>

lemma handle_members_step_contributes:
  assumes "handle_members_step p s = Inr s'" and "\<not> check_mode s" and "string_lists (fst p s)"
    and "map_of (member_commands Group) (snd p) = Some (b, group_names)"
  shows "contributes Group (member_part b group_names (fst p s)) (member_part (\<not> b) group_names (fst p s)) unset s s'"
proof (cases "map_of (fst p s) ''member_user'' = None \<and> map_of (fst p s) ''member_group'' = None")
  case True
  with assms(1) have "s' = s" by (simp add: handle_members_step_def)
  with True show ?thesis by (auto intro!: contributes_none texts_at_None simp: group_names_def)
next
  case False
  obtain nm where nm: "base_mod_request_params [] (s\<lparr>changed := True\<rparr>) = Inr nm"
    by (simp add: base_mod_request_params_def)
  let ?q = "\<lparr>r_method = snd p, r_name = nm, r_item = members_item (fst p s)\<rparr>"
  have s': "s' = enqueue (snd p) ?q (s\<lparr>changed := True\<rparr>)"
    using assms(1,2) nm False by (auto simp: handle_members_step_def Let_def)
  have "given_values ?q (Option ''user'') = texts_at (fst p s) ''member_user''"
    "given_values ?q (Option ''group'') = texts_at (fst p s) ''member_group''"
    by (rule given_option [OF assms(3)], simp add: attr_list_def members_item_lookup)+
  then show ?thesis
    by (intro contributes_member [OF _ _ s']) (use assms(4) in \<open>simp_all add: group_names_def\<close>)
qed

lemma handle_members_contributes:
  assumes "handle_members s = Inr (b, s')" and "\<not> check_mode s" and "string_changes (diffs s)"
  shows "contributes Group (only (snd ` set group_names) (texts_at (list_add (diffs s))))
    (only (snd ` set group_names) (texts_at (list_del (diffs s)))) unset s s'"
proof -
  let ?ps = "[(list_add \<circ> diffs, ''group_add_member''), (list_del \<circ> diffs, ''group_remove_member'')] ::
      ((self \<Rightarrow> pydict) \<times> string) list"
  let ?b = "\<lambda>p. snd p = ''group_add_member''"
  have run: "efold handle_members_step ?ps s = Inr s'"
    using assms(1) by (auto simp: handle_members_def ebind_Inr_iff simp del: efold.simps)
  have "contributes Group (only (loop_keys ?b (\<lambda>_. group_names) ?ps) (texts_at (list_add (diffs s))))
      (only (loop_keys (\<lambda>p. \<not> ?b p) (\<lambda>_. group_names) ?ps) (texts_at (list_del (diffs s)))) unset s s'"
    by (rule member_loop [where src = "fst" and mth = "snd", OF handle_members_step_contributes run assms(2,3)])
      (auto simp: direction_def)
  then show ?thesis by (simp add: loop_keys_def)
qed

section \<open>Members of CA access control lists\<close>

lemma collect_attrs:
  assumes "efold (collect_attr d) attrs acc = Inr item" and "string_lists d"
  shows "set (attr_list item k) =
      (if k \<in> set attrs \<and> map_of d k \<noteq> None then set (attr_list d k) else set (attr_list acc k))"
    and "item = [] \<Longrightarrow> k \<in> set attrs \<Longrightarrow> map_of d k = None"
proof -
  have *: "set (attr_list item k) =
      (if k \<in> set attrs \<and> map_of d k \<noteq> None then set (attr_list d k) else set (attr_list acc k)) \<and>
    (item = [] \<longrightarrow> acc = [] \<and> (k \<in> set attrs \<longrightarrow> map_of d k = None))"
    using assms
  proof (induction attrs arbitrary: acc)
    case (Cons a attrs)
    from Cons.prems(1) obtain acc' where a: "collect_attr d a acc = Inr acc'"
      and rest: "efold (collect_attr d) attrs acc' = Inr item" by (auto simp: err_simps)
    show ?case
    proof (cases "map_of d a")
      case None
      with a have "acc' = acc" by (simp add: collect_attr_def)
      with Cons.IH [OF rest Cons.prems(2)] None show ?thesis by auto
    next
      case (Some v)
      then obtain ts where v: "v = PList (map PStr ts)"
        using Cons.prems(2) by (auto simp: string_lists_def)
      with a Some have acc': "acc' = dset a (PList (sort_key hkey (map PStr ts))) acc"
        by (simp add: collect_attr_def)
      then have "set (attr_list acc' k) = (if k = a then set (attr_list d a) else set (attr_list acc k))"
        using Some v by (simp add: attr_list_def)
      moreover have "acc' \<noteq> []" unfolding acc' by (cases acc) auto
      ultimately show ?thesis using Cons.IH [OF rest Cons.prems(2)] Some by auto
    qed
  qed simp
  then show "set (attr_list item k) =
      (if k \<in> set attrs \<and> map_of d k \<noteq> None then set (attr_list d k) else set (attr_list acc k))"
    and "item = [] \<Longrightarrow> k \<in> set attrs \<Longrightarrow> map_of d k = None" by auto
qed

lemma caacl_step_contributes:
  assumes "caacl_step p s = Inr s'" and "\<not> check_mode s" and "string_lists (fst (fst p) s)"
    and "map_of (member_commands CAACL) (''caacl_'' @ snd (fst p) @ ''_'' @ fst (snd p)) =
      Some (b, same_names (snd (snd p)))"
  shows "contributes CAACL (member_part b (same_names (snd (snd p))) (fst (fst p) s))
    (member_part (\<not> b) (same_names (snd (snd p))) (fst (fst p) s)) unset s s'"
proof -
  let ?d = "fst (fst p) s" and ?ks = "snd (snd p)"
  from assms(1) obtain item where item: "efold (collect_attr ?d) ?ks [] = Inr item"
    by (auto simp: caacl_step_def Let_def err_simps)
  note look = collect_attrs [OF item assms(3)]
  show ?thesis
  proof (cases "item = []")
    case True
    with assms(1) item have "s' = s" by (simp add: caacl_step_def)
    with look(2) [OF True] show ?thesis
      by (auto intro!: contributes_none texts_at_None simp: same_names_def)
  next
    case False
    obtain nm where nm: "base_mod_request_params [] (s\<lparr>changed := True\<rparr>) = Inr nm"
      by (simp add: base_mod_request_params_def)
    let ?q = "\<lparr>r_method = ''caacl_'' @ snd (fst p) @ ''_'' @ fst (snd p), r_name = nm,
      r_item = dset ''all'' (PBool True) item\<rparr>"
    have s': "s' = enqueue (snd (fst p) @ ''_'' @ fst (snd p)) ?q (s\<lparr>changed := True\<rparr>)"
      using assms(1,2) nm item False by (simp add: caacl_step_def Let_def)
    have "''all'' \<notin> set ?ks"
      using assms(4) by (auto simp: same_names_def split: if_splits)
    then have "given_values ?q (Option k) = texts_at ?d k" if "k \<in> set ?ks" for k
    proof -
      have "set (attr_list (dset ''all'' (PBool True) item) k) = set (attr_list item k)"
        using that \<open>''all'' \<notin> set ?ks\<close> by (auto simp: attr_list_def)
      then show ?thesis
        using that look(1) [of k]
        by (intro given_option [OF assms(3)]) (auto simp: attr_list_def)
    qed
    then show ?thesis
      by (intro contributes_member [OF _ _ s']) (use assms(4) in \<open>auto simp: same_names_def\<close>)
  qed
qed

definition caacl_lists :: "string list" where
  "caacl_lists = [''user'', ''group'', ''host'', ''hostgroup'', ''certprofile'', ''ca'', ''service'']"

lemma add_remove_list_items_contributes:
  assumes "add_remove_list_items s = Inr (b, s')" and "\<not> check_mode s" and "string_changes (diffs s)"
  shows "contributes CAACL
    (only (set caacl_lists) (texts_at (list_add (diffs s))))
    (only (set caacl_lists) (texts_at (list_del (diffs s))))
    unset s s'"
proof -
  let ?ps = "List.product from_lists method_items"
  let ?b = "\<lambda>p. snd (fst p) = ''add''" and ?ns = "\<lambda>p. same_names (snd (snd p))"
  have run: "efold caacl_step ?ps s = Inr s'"
    using assms(1) by (auto simp: add_remove_list_items_def ebind_Inr_iff simp del: efold.simps)
  have "contributes CAACL (only (loop_keys ?b ?ns ?ps) (texts_at (list_add (diffs s))))
      (only (loop_keys (\<lambda>p. \<not> ?b p) ?ns ?ps) (texts_at (list_del (diffs s)))) unset s s'"
    by (rule member_loop [where src = "\<lambda>p. fst (fst p)" and mth = "\<lambda>p. ''caacl_'' @ snd (fst p) @ ''_'' @ fst (snd p)", OF caacl_step_contributes run assms(2,3)])
      (auto simp: direction_def from_lists_def method_items_def)
  moreover have "loop_keys ?b ?ns ?ps = set caacl_lists" "loop_keys (\<lambda>p. \<not> ?b p) ?ns ?ps = set caacl_lists"
    by (simp_all add: loop_keys_def from_lists_def method_items_def same_names_set caacl_lists_def insert_commute)
  ultimately show ?thesis by simp
qed

section \<open>Hosts and keytabs of services\<close>

lemma managedby_step_contributes:
  assumes "managedby_step p s = Inr s'" and "\<not> check_mode s" and "string_lists (fst p s)"
    and "map_of (member_commands Service) (snd p) = Some (b, [(Option ''host'', ''managedby_host'')])"
  shows "contributes Service (member_part b [(Option ''host'', ''managedby_host'')] (fst p s))
    (member_part (\<not> b) [(Option ''host'', ''managedby_host'')] (fst p s)) unset s s'"
proof (cases "py_truth (dget (fst p s) ''managedby_host'' PNone)")
  case False
  with assms(1) have "s' = s" by (simp add: managedby_step_def)
  moreover have "texts_at (fst p s) ''managedby_host'' = {}"
    using False assms(3)
    by (cases "map_of (fst p s) ''managedby_host''")
      (auto simp: dget_def texts_at_def attr_list_def string_lists_def)
  ultimately show ?thesis by (auto intro!: contributes_none)
next
  case True
  then obtain ts where v: "map_of (fst p s) ''managedby_host'' = Some (PList (map PStr ts))"
    using assms(3) by (cases "map_of (fst p s) ''managedby_host''") (auto simp: dget_def string_lists_def)
  obtain nm where nm: "base_mod_request_params [] s = Inr nm"
    by (simp add: base_mod_request_params_def)
  let ?q = "\<lparr>r_method = snd p, r_name = nm,
      r_item = [(''all'', PBool True), (''host'', dget (fst p s) ''managedby_host'' PNone)]\<rparr>"
  have s': "s' = enqueue (snd p) ?q (s\<lparr>changed := changed s\<rparr>)"
    using assms(1,2) nm True by (simp add: managedby_step_def Let_def)
  have "given_values ?q (Option ''host'') = texts_at (fst p s) ''managedby_host''"
    by (rule given_option [OF assms(3)]) (simp add: attr_list_def v dget_Some)
  then show ?thesis by (intro contributes_member [OF _ _ s']) (use assms(4) in simp_all)
qed

lemma keytab_step_contributes:
  assumes "keytab_step p s = Inr s'" and "\<not> check_mode s" and "string_lists (fst p s)"
    and "map_of (member_commands Service) (fst (snd p)) = Some (b, keytab_names (snd (snd p)))"
  shows "contributes Service (member_part b (keytab_names (snd (snd p))) (fst p s))
    (member_part (\<not> b) (keytab_names (snd (snd p))) (fst p s)) unset s s'"
proof (cases "keytab_item (fst p s) (snd (snd p)) = []")
  case True
  have "map_of (fst p s) (''ipaallowedtoperform_'' @ snd (snd p) @ ''_keys_'' @ obj) = None"
    if "obj \<in> {''user'', ''group'', ''host'', ''hostgroup''}" for obj
    using that keytab_item_lookup [of "fst p s" "snd (snd p)" obj] True by simp
  then have "texts_at (fst p s) (snd x) = {}" if "x \<in> set (keytab_names (snd (snd p)))" for x
    using that unfolding keytab_names_def set_map image_iff
    by (elim bexE) (simp only: snd_conv, rule texts_at_None, simp)
  moreover have "s' = s" using True assms(1) by (simp add: keytab_step_def)
  ultimately show ?thesis by (auto intro: contributes_none)
next
  case False
  obtain nm where nm: "base_mod_request_params [] s = Inr nm"
    by (simp add: base_mod_request_params_def)
  let ?q = "\<lparr>r_method = fst (snd p), r_name = nm,
      r_item = dset ''all'' (PBool True) (keytab_item (fst p s) (snd (snd p)))\<rparr>"
  have s': "s' = enqueue (fst (snd p)) ?q (s\<lparr>changed := changed s\<rparr>)"
    using assms(1,2) nm False by (simp add: keytab_step_def Let_def)
  have "given_values ?q (Option obj) = texts_at (fst p s) (''ipaallowedtoperform_'' @ snd (snd p) @ ''_keys_'' @ obj)"
    if "obj \<in> {''user'', ''group'', ''host'', ''hostgroup''}" for obj
  proof -
    have "obj \<noteq> ''all''" using that by auto
    moreover have "map_of (keytab_item (fst p s) (snd (snd p))) obj =
        map_of (fst p s) (''ipaallowedtoperform_'' @ snd (snd p) @ ''_keys_'' @ obj)"
      by (simp only: keytab_item_lookup that if_True)
    ultimately show ?thesis by (intro given_option [OF assms(3)]) (simp add: attr_list_def)
  qed
  then have "\<forall>x \<in> set (keytab_names (snd (snd p))). given_values ?q (fst x) = texts_at (fst p s) (snd x)"
    by (simp add: keytab_names_def)
  then show ?thesis by (intro contributes_member [OF _ _ s']) (use assms(4) in simp_all)
qed

definition keytab_lists :: "string list" where
  "keytab_lists = map snd (keytab_names ''write'' @ keytab_names ''read'')"

lemma handle_managedby_host_contributes:
  assumes "handle_managedby_host s = Inr (b, s')" and "\<not> check_mode s" and "string_changes (diffs s)"
  shows "contributes Service (only {''managedby_host''} (texts_at (list_add (diffs s))))
    (only {''managedby_host''} (texts_at (list_del (diffs s)))) unset s s'"
proof -
  let ?ps = "[(list_add \<circ> diffs, ''service_add_host''), (list_del \<circ> diffs, ''service_remove_host'')] ::
      ((self \<Rightarrow> pydict) \<times> string) list"
  let ?b = "\<lambda>p. snd p = ''service_add_host''" and ?ns = "\<lambda>_. [(Option ''host'', ''managedby_host'')]"
  have run: "efold managedby_step ?ps s = Inr s'"
    using assms(1) by (auto simp: handle_managedby_host_def ebind_Inr_iff simp del: efold.simps)
  have "contributes Service (only (loop_keys ?b ?ns ?ps) (texts_at (list_add (diffs s))))
      (only (loop_keys (\<lambda>p. \<not> ?b p) ?ns ?ps) (texts_at (list_del (diffs s)))) unset s s'"
    by (rule member_loop [where src = "fst" and mth = "snd", OF managedby_step_contributes run assms(2,3)])
      (auto simp: direction_def)
  then show ?thesis by (simp add: loop_keys_def)
qed

lemma handle_allow_keytab_contributes:
  assumes "handle_allow_keytab s = Inr (b, s')" and "\<not> check_mode s" and "string_changes (diffs s)"
  shows "contributes Service (only (set keytab_lists) (texts_at (list_add (diffs s))))
    (only (set keytab_lists) (texts_at (list_del (diffs s)))) unset s s'"
proof -
  let ?ps = "[(list_add \<circ> diffs, ''service_allow_create_keytab'', ''write''),
      (list_del \<circ> diffs, ''service_disallow_create_keytab'', ''write''),
      (list_add \<circ> diffs, ''service_allow_retrieve_keytab'', ''read''),
      (list_del \<circ> diffs, ''service_disallow_retrieve_keytab'', ''read'')] ::
      ((self \<Rightarrow> pydict) \<times> string \<times> string) list"
  let ?b = "\<lambda>p. fst (snd p) \<in> {''service_allow_create_keytab'', ''service_allow_retrieve_keytab''}"
  let ?ns = "\<lambda>p. keytab_names (snd (snd p))"
  have run: "efold keytab_step ?ps s = Inr s'"
    using assms(1) by (auto simp: handle_allow_keytab_def ebind_Inr_iff simp del: efold.simps)
  have "contributes Service (only (loop_keys ?b ?ns ?ps) (texts_at (list_add (diffs s))))
      (only (loop_keys (\<lambda>p. \<not> ?b p) ?ns ?ps) (texts_at (list_del (diffs s)))) unset s s'"
    by (rule member_loop [where src = "fst" and mth = "\<lambda>p. fst (snd p)", OF keytab_step_contributes run assms(2,3)])
      (auto simp: direction_def)
  moreover have "loop_keys ?b ?ns ?ps = set keytab_lists" "loop_keys (\<lambda>p. \<not> ?b p) ?ns ?ps = set keytab_lists"
    by (simp_all add: loop_keys_def keytab_lists_def image_Un)
  ultimately show ?thesis by simp
qed

section \<open>Certificates and principals of users\<close>

lemma string_lists_list:
  "string_lists d \<Longrightarrow> map_of d k = Some v \<Longrightarrow> \<exists>ts. v = PList (map PStr ts) \<and> texts_at d k = set ts"
  by (force simp: string_lists_def texts_at_def attr_list_def)

lemma handle_cert_step_contributes:
  assumes "handle_cert_step p s = Inr s'" and "\<not> check_mode s" and "string_lists (fst p s)"
    and "map_of (member_commands User) (snd p) = Some (b, same_names [''usercertificate''])"
  shows "contributes User (member_part b (same_names [''usercertificate'']) (fst p s))
    (member_part (\<not> b) (same_names [''usercertificate'']) (fst p s)) unset s s'"
proof (cases "map_of (fst p s) ''usercertificate''")
  case None
  with assms(1) have "s' = s" by (simp add: handle_cert_step_def)
  with None show ?thesis by (auto intro!: contributes_none texts_at_None simp: same_names_def)
next
  case (Some v)
  then obtain ts where ts: "v = PList (map PStr ts)" "texts_at (fst p s) ''usercertificate'' = set ts"
    using string_lists_list [OF assms(3)] by blast
  obtain nm where nm: "base_mod_request_params [] (s\<lparr>changed := True\<rparr>) = Inr nm"
    by (simp add: base_mod_request_params_def)
  let ?q = "\<lparr>r_method = snd p, r_name = nm,
     r_item = [(''all'', PBool True),
       (''usercertificate'', PList (map (\<lambda>c. PDict [(''__base64__'', c)]) (map PStr ts)))]\<rparr>"
  have s': "s' = enqueue (snd p) ?q (s\<lparr>changed := True\<rparr>)"
    using assms(1,2) nm Some ts(1) by (simp add: handle_cert_step_def Let_def)
  have "given_values ?q (Option ''usercertificate'') = set ts"
    by (auto simp: given_values.simps attr_list_def unwrap_cert_def image_iff)
  then show ?thesis
    by (intro contributes_member [OF _ _ s']) (use assms(4) ts(2) in \<open>simp_all add: same_names_def\<close>)
qed

lemma handle_principal_step_contributes:
  assumes "handle_principal_step p s = Inr s'" and "\<not> check_mode s" and "string_lists (fst p s)"
    and "map_of (member_commands User) (snd p) = Some (b, [(LastArgument, ''krbprincipalname'')])"
  shows "contributes User (member_part b [(LastArgument, ''krbprincipalname'')] (fst p s))
    (member_part (\<not> b) [(LastArgument, ''krbprincipalname'')] (fst p s)) unset s s'"
proof (cases "map_of (fst p s) ''krbprincipalname''")
  case None
  with assms(1) have "s' = s" by (simp add: handle_principal_step_def)
  with None show ?thesis by (auto intro!: contributes_none texts_at_None)
next
  case (Some v)
  then obtain ts where ts: "v = PList (map PStr ts)" "texts_at (fst p s) ''krbprincipalname'' = set ts"
    using string_lists_list [OF assms(3)] by blast
  obtain nm where nm: "base_mod_request_params [v] s = Inr (nm @ [v])"
    by (simp add: base_mod_request_params_def)
  let ?q = "\<lparr>r_method = snd p, r_name = nm @ [v], r_item = [(''all'', PBool True)]\<rparr>"
  have s': "s' = enqueue (snd p) ?q (s\<lparr>changed := changed s\<rparr>)"
    using assms(1,2) nm Some by (simp add: handle_principal_step_def)
  have "given_values ?q LastArgument = set ts"
    by (auto simp: given_values.simps ts(1))
  then show ?thesis
    by (intro contributes_member [OF _ _ s']) (use assms(4) ts(2) in simp_all)
qed

lemma handle_cert_contributes:
  assumes "handle_cert s = Inr (b, s')" and "\<not> check_mode s" and "string_changes (diffs s)"
  shows "contributes User (only {''usercertificate''} (texts_at (list_add (diffs s))))
    (only {''usercertificate''} (texts_at (list_del (diffs s)))) unset s s'"
proof -
  let ?ps = "[(list_add \<circ> diffs, ''user_add_cert''), (list_del \<circ> diffs, ''user_remove_cert'')] ::
      ((self \<Rightarrow> pydict) \<times> string) list"
  let ?b = "\<lambda>p. snd p = ''user_add_cert''" and ?ns = "\<lambda>_. same_names [''usercertificate'']"
  have run: "efold handle_cert_step ?ps s = Inr s'"
    using assms(1) by (auto simp: handle_cert_def ebind_Inr_iff simp del: efold.simps)
  have "contributes User (only (loop_keys ?b ?ns ?ps) (texts_at (list_add (diffs s))))
      (only (loop_keys (\<lambda>p. \<not> ?b p) ?ns ?ps) (texts_at (list_del (diffs s)))) unset s s'"
    by (rule member_loop [where src = "fst" and mth = "snd", OF handle_cert_step_contributes run assms(2,3)])
      (auto simp: direction_def)
  then show ?thesis by (simp add: loop_keys_def same_names_set)
qed

lemma handle_principal_contributes:
  assumes "handle_principal s = Inr (b, s')" and "\<not> check_mode s" and "string_changes (diffs s)"
  shows "contributes User (only {''krbprincipalname''} (texts_at (list_add (diffs s))))
    (only {''krbprincipalname''} (texts_at (list_del (diffs s)))) unset s s'"
proof -
  let ?ps = "[(list_add \<circ> diffs, ''user_add_principal''), (list_del \<circ> diffs, ''user_remove_principal'')] ::
      ((self \<Rightarrow> pydict) \<times> string) list"
  let ?b = "\<lambda>p. snd p = ''user_add_principal''" and ?ns = "\<lambda>_. [(LastArgument, ''krbprincipalname'')]"
  have run: "efold handle_principal_step ?ps s = Inr s'"
    using assms(1) by (auto simp: handle_principal_def ebind_Inr_iff simp del: efold.simps)
  have "contributes User (only (loop_keys ?b ?ns ?ps) (texts_at (list_add (diffs s))))
      (only (loop_keys (\<lambda>p. \<not> ?b p) ?ns ?ps) (texts_at (list_del (diffs s)))) unset s s'"
    by (rule member_loop [where src = "fst" and mth = "snd", OF handle_principal_step_contributes run assms(2,3)])
      (auto simp: direction_def)
  then show ?thesis by (simp add: loop_keys_def)
qed

section \<open>The base request\<close>

lemma attr_pair_named:
  assumes "CHR ''='' \<notin> set k"
  shows "attr_pair (k @ ''='' @ t) = (k, t)"
proof -
  have k: "\<forall>c \<in> set k. c \<noteq> CHR ''=''" using assms by auto
  then have "takeWhile (\<lambda>c. c \<noteq> CHR ''='') (k @ CHR ''='' # t) = k"
    by (subst takeWhile_append2) auto
  moreover have "dropWhile (\<lambda>c. c \<noteq> CHR ''='') (k @ CHR ''='' # t) = CHR ''='' # t"
    using k by (subst dropWhile_append2) auto
  ultimately show ?thesis by (simp add: attr_pair_def)
qed

lemma set_attr_texts:
  "set (attr_texts d) = (\<Union>p \<in> set d. (\<lambda>x. fst p @ ''='' @ fmt_text x) ` set (iter_vals (snd p)))"
  by (simp add: attr_texts_def case_prod_beta)

lemma attr_texts_named:
  assumes "string_lists d" and "wf_dict d" and "\<forall>k \<in> fst ` set d. CHR ''='' \<notin> set k"
  shows "{v. \<exists>t \<in> set (attr_texts d). attr_pair t = (k, v)} = texts_at d k"
proof -
  have item: "map_of d k' = Some v" if "(k', v) \<in> set d" for k' v
    using map_of_is_SomeI [OF _ that] assms(2) by (simp add: wf_dict_def)
  have pair: "attr_pair (fst p @ ''='' @ t) = (fst p, t)" if "p \<in> set d" for p t
    using assms(3) that by (intro attr_pair_named) blast
  have look: "(\<exists>p \<in> set d. fst p = k \<and> Q (snd p)) \<longleftrightarrow> (\<exists>vs. map_of d k = Some vs \<and> Q vs)"
    for Q :: "pyval \<Rightarrow> bool"
  proof
    assume "\<exists>p \<in> set d. fst p = k \<and> Q (snd p)"
    then obtain k' vs where "(k', vs) \<in> set d" "k' = k" "Q vs" by auto
    with item [of k' vs] show "\<exists>vs. map_of d k = Some vs \<and> Q vs" by simp
  next
    assume "\<exists>vs. map_of d k = Some vs \<and> Q vs"
    then obtain vs where "(k, vs) \<in> set d" "Q vs" by (blast dest: map_of_SomeD)
    then show "\<exists>p \<in> set d. fst p = k \<and> Q (snd p)" by force
  qed
  have "(\<exists>t \<in> set (attr_texts d). attr_pair t = (k, v)) \<longleftrightarrow> v \<in> texts_at d k" for v
  proof -
    have "(\<exists>t \<in> set (attr_texts d). attr_pair t = (k, v)) \<longleftrightarrow>
        (\<exists>p \<in> set d. \<exists>x \<in> set (iter_vals (snd p)). attr_pair (fst p @ ''='' @ fmt_text x) = (k, v))"
      by (simp add: set_attr_texts bex_UN)
    also have "\<dots> \<longleftrightarrow> (\<exists>p \<in> set d. \<exists>x \<in> set (iter_vals (snd p)). fst p = k \<and> fmt_text x = v)"
      using pair by simp
    also have "\<dots> \<longleftrightarrow> (\<exists>p \<in> set d. fst p = k \<and> v \<in> fmt_text ` set (iter_vals (snd p)))"
      by blast
    also have "\<dots> \<longleftrightarrow> (\<exists>vs. map_of d k = Some vs \<and> v \<in> fmt_text ` set (iter_vals vs))"
      by (rule look)
    also have "\<dots> \<longleftrightarrow> v \<in> texts_at d k"
    proof (cases "map_of d k")
      case (Some vs)
      then obtain ts where "vs = PList (map PStr ts)" "texts_at d k = set ts"
        using string_lists_list [OF assms(1)] by blast
      with Some show ?thesis by (simp add: iter_vals_def fmt_text_def image_image)
    qed (simp add: texts_at_None)
    finally show ?thesis .
  qed
  then show ?thesis by blast
qed

text \<open>What must hold of a client whose find step is done: the difference is one of texts, its lists
  are dictionaries, and its base keys can be told from the options of the request.\<close>

definition readable :: "ipa_module \<Rightarrow> self \<Rightarrow> bool" where
  "readable c s \<longleftrightarrow> klass s = class_of c \<and> s_methods s = method_table c \<and> requests s \<noteq> [] \<and>
     \<not> check_mode s \<and> string_changes (diffs s) \<and> wf_dict (scalars (diffs s)) \<and>
     wf_dict (list_add (diffs s)) \<and> wf_dict (list_del (diffs s)) \<and>
     (\<forall>k \<in> set (base_keys s). CHR ''='' \<notin> set k \<and> k \<notin> {''all'', ''addattr'', ''delattr''}) \<and>
     (\<forall>k. enablekey (class_of c) = Some k \<longrightarrow> k \<notin> set (base_keys s))"

lemma readable_contributes:
  assumes "contributes c A R S s s'" and "readable c s"
  shows "readable c s'"
proof -
  have "requests s' \<noteq> []" using assms by (auto simp: contributes_def readable_def)
  with assms(2) show ?thesis
    by (simp add: readable_def contributes_frame(1-4,9) [OF assms(1)])
qed

lemma string_lists_in_base: "string_lists d \<Longrightarrow> string_lists (in_base s d)"
  by (simp add: string_lists_def map_of_in_base)

lemma texts_at_in_base: "texts_at (in_base s d) = only (set (base_keys s)) (texts_at d)"
  by (auto simp: fun_eq_iff texts_at_def attr_list_def map_of_in_base only_def)

lemma named_values_base:
  assumes "readable c s" and "map_of item = base_item s" and "b = (opt = ''addattr'')"
    and "opt = ''addattr'' \<or> opt = ''delattr''"
  shows "named_values opt item = only (set (base_keys s)) (texts_at (direction (diffs s) b))"
proof
  fix k
  let ?d = "in_base s (direction (diffs s) b)"
  have r: "string_changes (diffs s)" "wf_dict (list_add (diffs s))" "wf_dict (list_del (diffs s))"
    and eq: "\<And>k. k \<in> set (base_keys s) \<Longrightarrow> CHR ''='' \<notin> set k"
    using assms(1) unfolding readable_def by blast+
  have "fst ` set ?d \<subseteq> set (base_keys s)" by (auto simp: in_base_def)
  with eq r have d: "string_lists ?d" "wf_dict ?d" "\<forall>k \<in> fst ` set ?d. CHR ''='' \<notin> set k"
    using string_lists_in_base [OF string_changes_direction [OF r(1)]]
    by (blast, simp add: direction_def in_base_def, blast)
  have i: "map_of item opt = (if ?d = [] then None else Some (text_list (sort (attr_texts ?d))))"
    using assms(3,4) by (auto simp: assms(2) base_item_def direction_def Let_def)
  have "texts_at item opt = set (attr_texts ?d)"
    by (auto simp: texts_at_def attr_list_def i text_list_def set_attr_texts)
  then have "named_values opt item k = {v. \<exists>t \<in> set (attr_texts ?d). attr_pair t = (k, v)}"
    by (simp add: named_values_def)
  also have "\<dots> = texts_at ?d k" by (rule attr_texts_named [OF d])
  finally show "named_values opt item k = only (set (base_keys s)) (texts_at (direction (diffs s) b)) k"
    by (simp add: texts_at_in_base)
qed

definition base_sets :: "self \<Rightarrow> string \<Rightarrow> pyval list" where
  "base_sets s k = (if k \<in> set (base_keys s) then option_list (map_of (scalars (diffs s)) k) else [])"

lemma no_member_base:
  assumes "base_command c (r_method q)"
  shows "member_values c b q k = {}"
proof (cases "map_of (member_commands c) (r_method q)")
  case (Some x)
  from member_commands_own(1) [OF this] assms show ?thesis by simp
qed (simp add: member_values_def)

lemma add_or_mod_contributes:
  assumes "add_or_mod (hooks_of c) s = Inr (b, s')" and "readable c s"
  shows "contributes c (only (set (base_keys s)) (texts_at (list_add (diffs s))))
    (only (set (base_keys s)) (texts_at (list_del (diffs s)))) (base_sets s) s s'"
  using assms(1)
proof (cases rule: add_or_mod_cases)
  case 1
  have wf: "wf_dict (scalars (diffs s))" using assms(2) by (simp add: readable_def)
  have none: "map_of (build_item s) k = None" for k by (simp add: 1(3))
  have sc: "map_of (in_base s (scalars (diffs s))) k = None" for k
    using none [of k] build_item_lookup [OF wf, of k] by (simp split: option.splits)
  then have "in_base s (list_add (diffs s)) = []" "in_base s (list_del (diffs s)) = []"
    using none [of "''addattr''"] none [of "''delattr''"]
      build_item_lookup [OF wf, of "''addattr''"] build_item_lookup [OF wf, of "''delattr''"]
    by (simp_all split: if_splits)
  then have "only (set (base_keys s)) (texts_at (list_add (diffs s))) = nothing"
    "only (set (base_keys s)) (texts_at (list_del (diffs s))) = nothing"
    by (simp_all add: texts_at_in_base [symmetric] fun_eq_iff texts_at_None nothing_def)
  moreover have "base_sets s = unset"
  proof
    fix k
    show "base_sets s k = unset k"
      using sc [of k] by (cases "k \<in> set (base_keys s)") (simp_all add: base_sets_def unset_def option_list_def map_of_in_base)
  qed
  ultimately show ?thesis using 1(2) contributes_refl [of c s] by simp
next
  case (2 q)
  have "map_of (in_base s (scalars (diffs s))) k = None" if "k \<in> {''addattr'', ''delattr''}" for k
    using that assms(2) by (auto simp: map_of_in_base readable_def)
  then have item: "map_of (r_item q) = base_item s"
    using assms(2) by (intro add_or_mod_request_item(3) [OF 2(2) rewrite_is_base]) (auto simp: readable_def)
  have base: "base_command c (r_method q)"
    using add_or_mod_request_method [OF 2(2)] assms(2) by (simp add: readable_def base_command_def)
  have "named_values ''addattr'' (r_item q) = only (set (base_keys s)) (texts_at (list_add (diffs s)))"
    "named_values ''delattr'' (r_item q) = only (set (base_keys s)) (texts_at (list_del (diffs s)))"
    using named_values_base [OF assms(2) item, of True] named_values_base [OF assms(2) item, of False]
    by (simp_all add: direction_def)
  then have "adds c q = only (set (base_keys s)) (texts_at (list_add (diffs s)))"
    "removes c q = only (set (base_keys s)) (texts_at (list_del (diffs s)))"
    using base no_member_base [OF base] by (simp_all add: adds_def removes_def fun_eq_iff)
  moreover have "sets c q = base_sets s"
  proof
    fix k
    have "k \<notin> set (base_keys s)" if "k \<in> {''all'', ''addattr'', ''delattr''}"
      using that assms(2) by (auto simp: readable_def)
    then show "sets c q k = base_sets s k"
      using base by (cases "k \<in> {''all'', ''addattr'', ''delattr''}")
        (simp_all add: sets_def base_sets_def item base_item_def option_list_def)
  qed
  ultimately show ?thesis using contributes_enqueue_same [of c q s "''add_or_mod''"] 2(3) by simp
qed

section \<open>The toggle\<close>

definition toggle_sets :: "self \<Rightarrow> string \<Rightarrow> pyval list" where
  "toggle_sets s k =
     (if enablekey (klass s) = Some k \<and> \<not> is_absent s \<and>
        (state s = PStr ''enabled'' \<or> state s = PStr ''disabled'')
      then map (\<lambda>v. PBool (py_truth v)) (option_list (map_of (scalars (diffs s)) k)) else [])"

lemma toggle_methods:
  assumes "toggles c"
  shows "map_of (method_table c) ''enabled'' = Some (cname (class_of c) @ ''_enable'')"
    "map_of (method_table c) ''disabled'' = Some (cname (class_of c) @ ''_disable'')"
    "cname (class_of c) @ ''_enable'' \<noteq> cname (class_of c) @ ''_disable''"
    "\<not> base_command c (cname (class_of c) @ ''_enable'')"
    "\<not> base_command c (cname (class_of c) @ ''_disable'')"
  using assms by (auto simp: method_table_def base_methods class_defs)

lemma member_values_toggle:
  "r_method q = cname (class_of c) @ ''_enable'' \<or> r_method q = cname (class_of c) @ ''_disable'' \<Longrightarrow>
     member_values c b q k = {}"
  using member_commands_own [of c "r_method q"]
  by (cases "map_of (member_commands c) (r_method q)") (auto simp: member_values_def)

lemma enable_change_Some:
  "enable_change s = Some v \<longleftrightarrow>
     (\<exists>k. enablekey (klass s) = Some k \<and> map_of (scalars (diffs s)) k = Some v)"
  by (simp add: enable_change_def split: option.splits)

lemma toggle_contributes:
  assumes "enable_or_disable (base_mod_request_params []) s = Inr (b, s')" and "toggles c" and "readable c s"
  shows "contributes c nothing nothing (toggle_sets s) s s'"
proof (cases "\<exists>v. enable_change s = Some v \<and> \<not> is_absent s \<and>
    (state s = PStr ''enabled'' \<or> state s = PStr ''disabled'')")
  case False
  then have "s' = s"
    using assms(1) by (auto simp: enable_or_disable_def split: option.splits if_splits)
  moreover have "toggle_sets s k = unset k" for k
    using False enable_change_Some [of s]
    by (cases "map_of (scalars (diffs s)) k") (auto simp: toggle_sets_def unset_def option_list_def)
  then have "toggle_sets s = unset" by (rule ext)
  ultimately show ?thesis using contributes_refl [of c s] by simp
next
  case True
  then obtain v where v: "enable_change s = Some v"
    and st: "\<not> is_absent s" "state s = PStr ''enabled'' \<or> state s = PStr ''disabled''" by blast
  have kl: "klass s = class_of c" "s_methods s = method_table c" "\<not> check_mode s"
    using assms(3) unfolding readable_def by blast+
  note tm = toggle_methods [OF assms(2)]
  obtain nm where nm: "base_mod_request_params [] s = Inr nm" by (simp add: base_mod_request_params_def)
  define m where "m = cname (class_of c) @ (if sense s (py_truth v) then ''_enable'' else ''_disable'')"
  let ?q = "\<lparr>r_method = m, r_name = nm, r_item = []\<rparr>"
  have "dindex (s_methods s) (if sense s (py_truth v) then ''enabled'' else ''disabled'') = Inr m"
    using tm(1,2) by (simp add: kl(2) dindex_def m_def)
  then have s': "s' = enqueue ''enable_or_disable'' ?q s"
    using assms(1) v st kl(3) nm by (auto simp: enable_or_disable_def)
  have nb: "\<not> base_command c m" using tm(4,5) by (simp add: m_def)
  have "adds c ?q k = nothing k" "removes c ?q k = nothing k" for k
    using member_values_toggle [of ?q c] nb by (simp_all add: adds_def removes_def m_def nothing_def)
  moreover have "sets c ?q k = toggle_sets s k" for k
  proof -
    obtain k' where "enablekey (class_of c) = Some k'" "map_of (scalars (diffs s)) k' = Some v"
      using v kl(1) by (auto simp: enable_change_Some)
    then show ?thesis
      using st nb tm(3)
      by (cases "k = k'") (simp_all add: sets_def toggle_sets_def m_def option_list_def sense_def kl(1))
  qed
  ultimately have "adds c ?q = nothing" "removes c ?q = nothing" "sets c ?q = toggle_sets s"
    by (simp_all add: fun_eq_iff)
  then show ?thesis
    using contributes_enqueue_same [of c ?q s "''enable_or_disable''"] s' by simp
qed

section \<open>The whole queue\<close>

text \<open>The list attributes with commands of their own.\<close>

fun own_lists :: "ipa_module \<Rightarrow> string list" where
  "own_lists Group = [''member_user'', ''member_group'']"
| "own_lists CAACL = caacl_lists"
| "own_lists Service = ''managedby_host'' # keytab_lists"
| "own_lists User = [''usercertificate'', ''krbprincipalname'']"
| "own_lists _ = []"

lemma own_continues:
  "handle_members s \<noteq> Inr (True, t)" "add_remove_list_items s \<noteq> Inr (True, t)"
  "handle_managedby_host s \<noteq> Inr (True, t)" "handle_allow_keytab s \<noteq> Inr (True, t)"
  "handle_cert s \<noteq> Inr (True, t)" "handle_principal s \<noteq> Inr (True, t)"
  "enable_or_disable mp s \<noteq> Inr (True, t)"
  by (simp_all add: handle_members_def add_remove_list_items_def handle_managedby_host_def
      handle_allow_keytab_def handle_cert_def handle_principal_def enable_or_disable_def ebind_Inr_iff
      split: option.splits)

lemma continue_Inr:
  assumes "\<And>t. f s \<noteq> Inr (True, t)"
  shows "ebind (f s) (\<lambda>(stop, t). if stop then Inr t else g t) = Inr s' \<longleftrightarrow>
    (\<exists>t. f s = Inr (False, t) \<and> g t = Inr s')"
  using assms by (auto simp: ebind_Inr_iff split: if_splits)

lemmas own_loop = continue_Inr [of handle_members, OF own_continues(1)]
  continue_Inr [of add_remove_list_items, OF own_continues(2)]
  continue_Inr [of handle_managedby_host, OF own_continues(3)]
  continue_Inr [of handle_allow_keytab, OF own_continues(4)]
  continue_Inr [of handle_cert, OF own_continues(5)]
  continue_Inr [of handle_principal, OF own_continues(6)]
  continue_Inr [of "enable_or_disable mp" for mp, OF own_continues(7)]

lemma own_loop_cases [consumes 1]:
  assumes "queue_loop (hooks_of c) (drop 2 (change_functions (class_of c))) s = Inr s'"
  obtains "c \<in> {CA, Cert, DNSRecord}" "s' = s"
    | b where "c = DNSZone" "enable_or_disable (base_mod_request_params []) s = Inr (b, s')"
    | b where "c = Group" "handle_members s = Inr (b, s')"
    | b t b' where "c = CAACL" "enable_or_disable (base_mod_request_params []) s = Inr (b, t)"
        "add_remove_list_items t = Inr (b', s')"
    | b t b' where "c = Service" "handle_managedby_host s = Inr (b, t)" "handle_allow_keytab t = Inr (b', s')"
    | b t b' u b'' where "c = User" "enable_or_disable (base_mod_request_params []) s = Inr (b, t)"
        "handle_cert t = Inr (b', u)" "handle_principal u = Inr (b'', s')"
  using assms
  by (cases c)
    (auto simp: class_defs hook_defs get_change_function_def enablable_own_def own_loop intro: that)

text \<open>What one part of the queue carries: the list changes of some attributes, and some values
  to set.\<close>

definition carries :: "ipa_module \<Rightarrow> string set \<Rightarrow> (string \<Rightarrow> pyval list) \<Rightarrow> self \<Rightarrow> self \<Rightarrow> bool" where
  "carries c K S s s' \<longleftrightarrow> contributes c (only K (texts_at (list_add (diffs s))))
     (only K (texts_at (list_del (diffs s)))) S s s'"

lemma only_Un: "(\<lambda>k. only K f k \<union> only K' f k) = only (K \<union> K') f"
  by (auto simp: fun_eq_iff only_def)

lemma only_empty: "only {} f = nothing"
  by (simp add: fun_eq_iff only_def nothing_def)

lemma carries_trans:
  assumes "carries c K S s t" and "carries c K' S' t u"
  shows "carries c (K \<union> K') (\<lambda>k. S k @ S' k) s u"
  using contributes_trans [OF assms [unfolded carries_def]] contributes_frame(4) [OF assms(1) [unfolded carries_def]]
  by (simp add: carries_def only_Un)

lemma carries_own:
  assumes "carries c K S s t" and "carries c K' unset t u"
  shows "carries c (K \<union> K') S s u"
  using carries_trans [OF assms] by (simp add: unset_def)

lemma carries_nothing: "carries c {} unset s s"
  using contributes_refl [of c s] by (simp add: carries_def only_empty)

lemma toggle_carries:
  assumes "enable_or_disable (base_mod_request_params []) s = Inr (b, s')" and "toggles c" and "readable c s"
  shows "carries c {} (toggle_sets s) s s'"
  using toggle_contributes [OF assms] by (simp add: carries_def only_empty)

lemma readable_carries: "carries c K S s s' \<Longrightarrow> readable c s \<Longrightarrow> readable c s'"
  unfolding carries_def by (rule readable_contributes)

lemma readable_changes: "readable c s \<Longrightarrow> \<not> check_mode s \<and> string_changes (diffs s)"
  by (simp add: readable_def)

lemma own_carries:
  assumes "queue_loop (hooks_of c) (drop 2 (change_functions (class_of c))) s = Inr s'" and "readable c s"
  shows "carries c (set (own_lists c)) (toggle_sets s) s s'"
proof -
  have untoggled: "toggle_sets s = unset" if "\<not> toggles c"
    using that assms(2) by (cases c) (auto simp: toggle_sets_def readable_def fun_eq_iff unset_def class_defs)
  note rd = readable_changes
  from assms(1) show ?thesis
  proof (cases rule: own_loop_cases)
    case 1
    with untoggled carries_nothing [of c s] show ?thesis by auto
  next
    case (2 b)
    with toggle_carries [OF 2(2) _ assms(2)] show ?thesis by simp
  next
    case (3 b)
    have "carries c (set (own_lists c)) unset s s'"
      using handle_members_contributes [OF 3(2)] rd [OF assms(2)] 3(1)
      by (simp add: carries_def group_names_def)
    with untoggled 3(1) show ?thesis by simp
  next
    case (4 b t b')
    have t: "carries c {} (toggle_sets s) s t" by (rule toggle_carries [OF 4(2) _ assms(2)]) (simp add: 4(1))
    have "carries c (set caacl_lists) unset t s'"
      using add_remove_list_items_contributes [OF 4(3)] rd [OF readable_carries [OF t assms(2)]] 4(1)
      by (simp add: carries_def)
    from carries_own [OF t this] 4(1) show ?thesis by simp
  next
    case (5 b t b')
    have t: "carries c {''managedby_host''} unset s t"
      using handle_managedby_host_contributes [OF 5(2)] rd [OF assms(2)] 5(1) by (simp add: carries_def)
    have "carries c (set keytab_lists) unset t s'"
      using handle_allow_keytab_contributes [OF 5(3)] rd [OF readable_carries [OF t assms(2)]] 5(1)
      by (simp add: carries_def)
    from carries_own [OF t this] 5(1) untoggled show ?thesis by simp
  next
    case (6 b t b' u b'')
    have t: "carries c {} (toggle_sets s) s t" by (rule toggle_carries [OF 6(2) _ assms(2)]) (simp add: 6(1))
    have u: "carries c {''usercertificate''} unset t u"
      using handle_cert_contributes [OF 6(3)] rd [OF readable_carries [OF t assms(2)]] 6(1)
      by (simp add: carries_def)
    have "carries c {''krbprincipalname''} unset u s'"
      using handle_principal_contributes [OF 6(4)] rd [OF readable_carries [OF u readable_carries [OF t assms(2)]]] 6(1)
      by (simp add: carries_def)
    from carries_own [OF carries_own [OF t u] this] 6(1) show ?thesis by (simp add: insert_commute)
  qed
qed

lemma queue_requests_split:
  assumes "queue_requests (hooks_of c) s = Inr s'" and "klass s = class_of c"
    and "state s \<noteq> PStr ''absent'' \<or> h_is_rem_param_request (hooks_of c) s"
  obtains b t where "add_or_mod (hooks_of c) s = Inr (b, t)"
    "queue_loop (hooks_of c) (drop 2 (change_functions (class_of c))) t = Inr s'"
proof -
  obtain fs where fs: "change_functions (class_of c) = ''rem'' # ''add_or_mod'' # fs"
    using change_functions_rem [of c] by blast
  moreover have "rem (hooks_of c) s = Inr (False, s)" using assms(3) by (auto simp: rem_def)
  moreover have "add_or_mod (hooks_of c) s \<noteq> Inr (True, t)" for t
    by (auto elim: add_or_mod_cases)
  ultimately show ?thesis
    using assms(1,2) that
    by (auto simp: queue_requests_def get_change_function_def ebind_Inr_iff split: if_splits)
qed

theorem queue_carries:
  assumes "queue_requests (hooks_of c) s = Inr s'" and "readable c s"
    and "state s \<noteq> PStr ''absent'' \<or> h_is_rem_param_request (hooks_of c) s"
  shows "carries c (set (base_keys s) \<union> set (own_lists c)) (\<lambda>k. base_sets s k @ toggle_sets s k) s s'"
proof -
  have "klass s = class_of c" using assms(2) by (simp add: readable_def)
  then obtain b t where bt: "add_or_mod (hooks_of c) s = Inr (b, t)"
    "queue_loop (hooks_of c) (drop 2 (change_functions (class_of c))) t = Inr s'"
    using queue_requests_split [OF assms(1) _ assms(3)] by blast
  have t: "carries c (set (base_keys s)) (base_sets s) s t"
    using add_or_mod_contributes [OF bt(1) assms(2)] by (simp add: carries_def)
  have "requests s \<noteq> []" using assms(2) by (simp add: readable_def)
  then have "toggle_sets t = toggle_sets s"
    using contributes_frame [OF t [unfolded carries_def]]
    by (simp add: toggle_sets_def [abs_def] cong: if_cong)
  with own_carries [OF bt(2) readable_carries [OF t assms(2)]] carries_trans [OF t] show ?thesis by simp
qed

end
