(* ===== verification/IPA_Convergence.thy ===== *)
theory IPA_Convergence
  imports IPA_Server
begin

text \<open>
  Whole runs against a server that does what the requests say: the queue brings the found object to
  what the state asks for. For a list attribute that is a set of texts (\<open>goal_texts\<close>), for a
  scalar the values it is to be set to (\<open>goal_sets\<close>): the wanted one where another is found, and with
  state \<open>absent\<close> the default where the value to take away is found.
\<close>

section \<open>Texts of an attribute\<close>

definition string_params :: "self \<Rightarrow> pydict \<Rightarrow> bool" where
  "string_params s d \<longleftrightarrow>
     (\<forall>k v. map_of d k = Some v \<longrightarrow> is_list_param s k \<longrightarrow> (\<exists>ts. v = PList (map PStr ts)))"

definition goal_texts :: "pyval \<Rightarrow> string set \<Rightarrow> string set \<Rightarrow> string set" where
  "goal_texts st want found =
     (if st = PStr ''exact'' then want
      else if st = PStr ''absent'' then found - want
      else found \<union> want)"

definition goal_sets :: "self \<Rightarrow> pydict \<Rightarrow> pydict \<Rightarrow> string \<Rightarrow> pyval list" where
  "goal_sets s want found k =
     (case map_of want k of
        Some v \<Rightarrow>
          (let same = (case map_of found k of None \<Rightarrow> False | Some w \<Rightarrow> py_eq v w)
           in if state s = PStr ''absent'' then (if same then [default_value s k] else [])
              else if same then [] else [v])
      | None \<Rightarrow> if state s = PStr ''exact'' \<and> dhas found k \<and> \<not> has_default s k then [PNone] else [])"

definition text_key :: "string \<Rightarrow> nat \<times> int \<times> string" where
  "text_key t = hkey (PStr t)"

lemma inj_text_key: "inj text_key"
  by (simp add: inj_def text_key_def)

lemma texts_at_keys: "t \<in> texts_at d k \<longleftrightarrow> text_key t \<in> attr_vals d k"
  by (auto simp: texts_at_def attr_vals_def text_key_def image_iff hkey_PStr eq_commute [of "hkey (PStr t)"]
      simp del: hkey.simps)

lemma string_params_lists: "string_params s d \<Longrightarrow> lists_ok s d"
  by (fastforce simp: string_params_def lists_ok_def)

lemma attr_vals_texts:
  assumes "string_params s d" and "is_list_param s k"
  shows "attr_vals d k = text_key ` texts_at d k"
proof (cases "map_of d k")
  case (Some v)
  then obtain ts where "v = PList (map PStr ts)" using assms by (auto simp: string_params_def)
  with Some show ?thesis by (force simp: attr_vals_def attr_list_def texts_at_def text_key_def image_image)
qed (simp add: attr_vals_def attr_list_def texts_at_def)

lemma goal_vals_texts:
  assumes "string_params s ch" and "string_params s cu" and "is_list_param s k"
  shows "goal_vals st (attr_vals ch k) (attr_vals cu k) =
    text_key ` goal_texts st (texts_at ch k) (texts_at cu k)"
  unfolding attr_vals_texts [OF assms(1,3)] attr_vals_texts [OF assms(2,3)] goal_vals_def goal_texts_def
  by (simp add: image_Un image_set_diff [OF inj_text_key])

lemma changes_texts:
  assumes "compute_changes s ch cu = Inr c" and "string_params s ch" and "string_params s cu"
  shows "texts_at (list_add c) k =
      (if is_list_param s k \<and> state s \<noteq> PStr ''absent'' then texts_at ch k - texts_at cu k else {})"
    and "texts_at (list_del c) k =
      (if \<not> is_list_param s k then {}
       else if state s = PStr ''exact'' then texts_at cu k - texts_at ch k
       else if state s = PStr ''absent'' then texts_at ch k \<inter> texts_at cu k
       else {})"
  using compute_changes_list_add [OF assms(1) string_params_lists [OF assms(2)] string_params_lists [OF assms(3)], of k]
    compute_changes_list_del [OF assms(1) string_params_lists [OF assms(2)] string_params_lists [OF assms(3)], of k]
  by (auto simp: texts_at_keys split: if_splits)

text \<open>A difference between texts is one of texts.\<close>

lemma texts_only:
  assumes "list_changes_ok s d" and "\<And>k. attr_vals d k \<subseteq> range text_key"
  shows "string_lists d"
  unfolding string_lists_def
proof (intro allI impI)
  fix k v assume v: "map_of d k = Some v"
  with assms(1) obtain vs where vs: "v = PList vs" unfolding list_changes_ok_def by blast
  have "\<exists>t. x = PStr t" if "x \<in> set vs" for x
  proof -
    have "hkey x \<in> attr_vals d k" using that v vs by (simp add: attr_vals_def attr_list_def)
    with assms(2) obtain t where "hkey x = hkey (PStr t)" by (fastforce simp: text_key_def)
    then show ?thesis by (auto simp: hkey_PStr simp del: hkey.simps)
  qed
  then have "vs = map PStr (map (\<lambda>x. case x of PStr t \<Rightarrow> t | _ \<Rightarrow> []) vs)"
    by (induction vs) (auto, fastforce)
  with vs show "\<exists>ts. v = PList (map PStr ts)" by blast
qed

lemma changes_string:
  assumes "compute_changes s ch cu = Inr c" and "string_params s ch" and "string_params s cu"
  shows "string_changes c"
proof -
  note ok = string_params_lists [OF assms(2)] string_params_lists [OF assms(3)]
  note lok = compute_changes_lists_ok [OF assms(1) ok]
  have "attr_vals (list_add c) k \<subseteq> range text_key" for k
    using compute_changes_list_add [OF assms(1) ok, of k] attr_vals_texts [OF assms(2), of k]
    by (cases "is_list_param s k") auto
  moreover have "attr_vals (list_del c) k \<subseteq> range text_key" for k
    using compute_changes_list_del [OF assms(1) ok, of k] attr_vals_texts [OF assms(2), of k]
      attr_vals_texts [OF assms(3), of k]
    by (cases "is_list_param s k") auto
  ultimately show ?thesis using texts_only lok by (auto simp: string_changes_def)
qed

lemma compute_changes_wf_lists:
  "compute_changes s ch cu = Inr c \<Longrightarrow> wf_dict (list_add c) \<and> wf_dict (list_del c)"
  by (auto simp: compute_changes_def Let_def err_simps dest: op_dict_Inr(2) split: if_splits)

section \<open>The client after its find step\<close>

definition class_keys :: "ipa_module \<Rightarrow> string list" where
  "class_keys c = (case class_base_keys (class_of c) of Some ks \<Rightarrow> ks
     | None \<Rightarrow> filter (\<lambda>k. k \<notin> set (param_keys (class_of c)) \<and> enablekey (class_of c) \<noteq> Some k)
         (map fst (kw_args (class_of c))))"

lemma client_base_keys:
  assumes "init_client (hooks_of c) (class_of c) am = Inr s"
  shows "base_keys s = class_keys c"
proof -
  have m: "init_methods (new_self (class_of c)) = Inr (new_self (class_of c)\<lparr>s_methods := method_table c\<rparr>)"
    by (rule init_methods_table) (simp add: new_self_def)
  obtain t where t: "klass t = class_of c" "base_keys s = base_keys (h_init_kw_args (hooks_of c) t)"
  proof
    let ?t = "init_standard_params (new_self (class_of c)\<lparr>s_methods := method_table c\<rparr>)"
    show "klass ?t = class_of c" by (simp add: init_standard_params_def new_self_def)
    show "base_keys s = base_keys (h_init_kw_args (hooks_of c) ?t)"
      using assms unfolding init_client_def m
      by (auto simp: init_module_def err_simps Let_def)
  qed
  then show ?thesis
    by (cases c) (simp_all add: hook_defs init_kw_args_def enablable_init_kw_args_def class_defs
        enable_key_def Let_def kwarg_def class_keys_def)
qed

text \<open>No base key is an option of the request or holds an equals sign, the enable flag is none of
  them, and every list parameter is one or has commands of its own.\<close>

lemma class_keys_plain:
  "list_all (\<lambda>k. list_all (\<lambda>x. x \<noteq> CHR ''='') k \<and> k \<noteq> ''all'' \<and> k \<noteq> ''addattr'' \<and> k \<noteq> ''delattr'') (class_keys c)"
  by (induct c; code_simp)

lemma class_keys_toggle: "list_all (\<lambda>k. enablekey (class_of c) \<noteq> Some k) (class_keys c)"
  by (induct c; code_simp)

lemma class_lists:
  "list_all (\<lambda>(k, sp). sp_type sp = ''list'' \<longrightarrow> k \<in> set (class_keys c) \<or> k \<in> set (own_lists c))
     (kw_args (class_of c))"
  by (induct c; code_simp)

lemma client_keys:
  assumes "init_client (hooks_of c) (class_of c) am = Inr s"
  shows "\<forall>k \<in> set (base_keys s). CHR ''='' \<notin> set k \<and> k \<notin> {''all'', ''addattr'', ''delattr''}"
    and "enablekey (class_of c) = Some k \<Longrightarrow> k \<notin> set (base_keys s)"
    and "is_list_param s k \<Longrightarrow> k \<in> set (base_keys s) \<union> set (own_lists c)"
proof -
  show "\<forall>k \<in> set (base_keys s). CHR ''='' \<notin> set k \<and> k \<notin> {''all'', ''addattr'', ''delattr''}"
    using class_keys_plain [of c] unfolding client_base_keys [OF assms] list_all_iff by blast
  show "enablekey (class_of c) = Some k \<Longrightarrow> k \<notin> set (base_keys s)"
    using class_keys_toggle [of c] unfolding client_base_keys [OF assms] list_all_iff by blast
  assume "is_list_param s k"
  then obtain sp where "(k, sp) \<in> set (kw_args (class_of c))" "sp_type sp = ''list''"
    unfolding is_list_param_def init_client_setup(4) [OF assms] by (auto dest!: map_of_SomeD)
  then show "k \<in> set (base_keys s) \<union> set (own_lists c)"
    using class_lists [of c] unfolding client_base_keys [OF assms] list_all_iff
    by auto
qed

text \<open>The difference the find step records, for any module.\<close>

lemma found_difference:
  assumes "find_obj fetch (hooks_of c) s n = (Inr (), s1, n1)" and "requests s = []"
    and "response_cleaned s1 = Some cu"
  obtains d where "compute_changes s (canon_params s1) cu = Inr d" "list_add (diffs s1) = list_add d"
    "list_del (diffs s1) = list_del d"
    "state s \<noteq> PStr ''absent'' \<or> h_is_rem_param_request (hooks_of c) s1 \<Longrightarrow> diffs s1 = d"
    "wf_dict (scalars (diffs s1))"
    "h_munge_module_params (hooks_of c) (s\<lparr>requests := [find_entry None None None]\<rparr>) = Inr (canon_params s1)"
proof -
  obtain t where cp: "h_munge_module_params (hooks_of c) (s\<lparr>requests := [find_entry None None None]\<rparr>) =
      Inr (canon_params s1)"
    and t: "h_compute_changes (hooks_of c) t (canon_params s1) cu = Inr (diffs s1)" "same_setup s t"
    using find_obj_records [OF client_contract assms(1,2)] assms(3) by (metis option.inject)
  have st: "state t = state s" using t(2) by (simp add: same_setup_def)
  have "\<exists>d. compute_changes t (canon_params s1) cu = Inr d \<and> list_add (diffs s1) = list_add d \<and>
      list_del (diffs s1) = list_del d \<and>
      (state s \<noteq> PStr ''absent'' \<or> h_is_rem_param_request (hooks_of c) s1 \<longrightarrow> diffs s1 = d)"
    using t(1) st
    by (cases c) (auto simp: hook_defs cert_compute_changes_def err_simps eq_commute [of _ "diffs s1"] split: if_splits)
  with cp that hooks_wf_scalars [OF t(1)] show ?thesis
    unfolding compute_changes_setup [OF t(2)] by blast
qed

text \<open>What a run has done when its find step is over.\<close>

definition looked_up ::
  "ipa_module \<Rightarrow> ansible_module \<Rightarrow> 'w fetch \<Rightarrow> 'w net \<Rightarrow> self \<Rightarrow> self \<Rightarrow> 'w net \<Rightarrow> pydict \<Rightarrow> bool" where
  "looked_up c am fetch n0 s0 s1 n1 found \<longleftrightarrow>
     init_client (hooks_of c) (class_of c) am = Inr s0 \<and>
     (\<exists>s n. login fetch s0 n0 = (Inr (), s, n) \<and> find_obj fetch (hooks_of c) s n = (Inr (), s1, n1)) \<and>
     response_cleaned s1 = Some found"

lemma looked_up_setup:
  assumes "looked_up c am fetch n0 s0 s1 n1 found"
  shows "same_setup s0 s1" "klass s1 = class_of c" "s_methods s1 = method_table c"
    "requests s1 \<noteq> []" "\<not> changed s0" "is_absent s1 \<longleftrightarrow> found = []"
    "init_client (hooks_of c) (class_of c) am = Inr s0"
proof -
  from assms obtain s n where init: "init_client (hooks_of c) (class_of c) am = Inr s0"
    and login: "login fetch s0 n0 = (Inr (), s, n)"
    and find: "find_obj fetch (hooks_of c) s n = (Inr (), s1, n1)"
    and rc: "response_cleaned s1 = Some found"
    unfolding looked_up_def by blast
  obtain h where s: "s = s0\<lparr>headers := h\<rparr>" using login_frame [OF login] by blast
  note frame = ipa_client.find_obj_frame [OF client_contract find]
  show "same_setup s0 s1" using frame(1) by (simp add: s same_setup_def)
  then show "klass s1 = class_of c" "s_methods s1 = method_table c"
    using init_client_setup [OF init] by (simp_all add: same_setup_def)
  show "requests s1 \<noteq> []" using frame(3) by auto
  show "\<not> changed s0" using init_client_setup [OF init] by simp
  show "is_absent s1 \<longleftrightarrow> found = []" using rc by (simp add: is_absent_def)
  show "init_client (hooks_of c) (class_of c) am = Inr s0" by (rule init)
qed

lemma looked_up_difference:
  assumes "looked_up c am fetch n0 s0 s1 n1 found"
  obtains d where "compute_changes s0 (canon_params s1) found = Inr d" "list_add (diffs s1) = list_add d"
    "list_del (diffs s1) = list_del d"
    "state s0 \<noteq> PStr ''absent'' \<or> h_is_rem_param_request (hooks_of c) s1 \<Longrightarrow> diffs s1 = d"
    "wf_dict (scalars (diffs s1))"
proof -
  from assms obtain s n where init: "init_client (hooks_of c) (class_of c) am = Inr s0"
    and login: "login fetch s0 n0 = (Inr (), s, n)"
    and find: "find_obj fetch (hooks_of c) s n = (Inr (), s1, n1)"
    and rc: "response_cleaned s1 = Some found"
    unfolding looked_up_def by blast
  obtain h where s: "s = s0\<lparr>headers := h\<rparr>" using login_frame [OF login] by blast
  then have "same_setup s0 s" by (simp add: same_setup_def)
  from compute_changes_setup [OF this] s init_client_setup(3) [OF init]
    found_difference [OF find _ rc] that show ?thesis by simp metis
qed

text \<open>A task with a toggling state wants the enable flag to be a truth value.\<close>

lemma looked_up_flag:
  assumes "looked_up c am fetch n0 s0 s1 n1 found" and "enablekey (class_of c) = Some k"
    and "state s0 = PStr ''enabled'' \<or> state s0 = PStr ''disabled''"
  shows "\<exists>b. map_of (canon_params s1) k = Some (PBool b)"
proof -
  from assms obtain s n where init: "init_client (hooks_of c) (class_of c) am = Inr s0"
    and login: "login fetch s0 n0 = (Inr (), s, n)"
    and find: "find_obj fetch (hooks_of c) s n = (Inr (), s1, n1)"
    and rc: "response_cleaned s1 = Some found"
    unfolding looked_up_def by blast
  obtain h where s: "s = s0\<lparr>headers := h\<rparr>" using login_frame [OF login] by blast
  let ?s = "s\<lparr>requests := [find_entry None None None]\<rparr>"
  have k: "klass ?s = class_of c" "state ?s = state s0"
    using init_client_setup(1) [OF init] by (simp_all add: s)
  have "toggles c" using assms(2) by (cases c) (simp_all add: class_defs)
  then have "h_munge_module_params (hooks_of c) = enablable_munge_module_params"
    by (rule enablable_client.inherits_params [OF enablable_contract])
  moreover have "h_munge_module_params (hooks_of c) ?s = Inr (canon_params s1)"
    using found_difference [OF find _ rc] init_client_setup(3) [OF init] by (simp add: s)
  ultimately show ?thesis
    using assms(2,3) k
    by (auto simp: enablable_munge_module_params_def ebind_Inr_iff enable_key_def
        eq_commute [of _ "canon_params s1"])
qed

section \<open>Wanted attributes and defaults\<close>

text \<open>The wanted attributes do not depend on the session.\<close>

lemma munge_setup:
  assumes "same_setup s t"
  shows "h_munge_module_params (hooks_of c) t = h_munge_module_params (hooks_of c) s"
proof -
  have e: "param_data t = param_data s" "params t = params s" "state t = state s" "klass t = klass s"
    "argument_spec t = argument_spec s"
    using assms by (simp_all add: same_setup_def)
  have "munge_module_params t = munge_module_params s"
    by (simp add: munge_module_params_def munge_pop_request_keys_def munge_state_exact_add_defaults_def
        clean_cong [OF e(1)] e cong: if_cong)
  then show ?thesis
    by (cases c) (simp_all add: hook_defs enablable_munge_module_params_def cert_munge_module_params_def
        sense_def enable_key_def e cong: if_cong)
qed

lemma looked_up_params:
  assumes "looked_up c am fetch n0 s0 s1 n1 found"
  shows "h_munge_module_params (hooks_of c) s0 = Inr (canon_params s1)"
proof -
  from assms obtain s n where init: "init_client (hooks_of c) (class_of c) am = Inr s0"
    and login: "login fetch s0 n0 = (Inr (), s, n)"
    and find: "find_obj fetch (hooks_of c) s n = (Inr (), s1, n1)"
    and rc: "response_cleaned s1 = Some found"
    unfolding looked_up_def by blast
  obtain h where s: "s = s0\<lparr>headers := h\<rparr>" using login_frame [OF login] by blast
  then have "same_setup s0 (s\<lparr>requests := [find_entry None None None]\<rparr>)" by (simp add: same_setup_def)
  from munge_setup [OF this, of c] found_difference [OF find _ rc] init_client_setup(3) [OF init]
  show ?thesis by (simp add: s) metis
qed

text \<open>No wanted attribute is \<open>None\<close>: neither \<open>clean\<close> nor a default of a specification gives one.\<close>

lemma class_defaults:
  "list_all (\<lambda>(k, sp). sp_default sp \<noteq> Some PNone)
     (fold (\<lambda>(k, sp). dset k sp) (kw_args (class_of c)) (standard_params (class_of c)))"
  by (induct c; code_simp)

lemma client_argument_spec:
  assumes "init_client (hooks_of c) (class_of c) am = Inr s"
  shows "argument_spec s = fold (\<lambda>(k, sp). dset k sp) (kw_args (class_of c)) (standard_params (class_of c))"
proof -
  have m: "init_methods (new_self (class_of c)) = Inr (new_self (class_of c)\<lparr>s_methods := method_table c\<rparr>)"
    by (rule init_methods_table) (simp add: new_self_def)
  let ?t = "init_standard_params (new_self (class_of c)\<lparr>s_methods := method_table c\<rparr>)"
  have "argument_spec s = argument_spec (h_init_kw_args (hooks_of c) ?t)"
    using assms unfolding init_client_def m by (auto simp: init_module_def err_simps Let_def)
  also have "\<dots> = fold (\<lambda>(k, sp). dset k sp) (kw_args (class_of c)) (standard_params (class_of c))"
    by (cases c) (simp_all add: hook_defs init_kw_args_def enablable_init_kw_args_def
        init_standard_params_def new_self_def Let_def)
  finally show ?thesis .
qed

definition no_none :: "pydict \<Rightarrow> bool" where
  "no_none d \<longleftrightarrow> (\<forall>k. map_of d k \<noteq> Some PNone)"

lemma no_none_dset: "no_none d \<Longrightarrow> v \<noteq> PNone \<Longrightarrow> no_none (dset k v d)"
  by (simp add: no_none_def)

lemma canonical_no_none: "canonical s d \<Longrightarrow> no_none d"
  unfolding canonical_def no_none_def by (metis clean_shape.simps(2))

lemma defaults_no_none:
  "list_all (\<lambda>(k, sp). sp_default sp \<noteq> Some PNone) specs \<Longrightarrow> no_none item \<Longrightarrow>
     no_none (fold (\<lambda>(k, sp) it. if dhas it k then it
       else case sp_default sp of None \<Rightarrow> it | Some v \<Rightarrow> dset k v it) specs item)"
  by (induction specs arbitrary: item) (auto simp: no_none_dset split: option.split)

lemma munge_no_none:
  assumes "init_client (hooks_of c) (class_of c) am = Inr s"
    and "h_munge_module_params (hooks_of c) s = Inr cp"
  shows "no_none cp"
proof -
  have base: "no_none d" if "munge_module_params s = Inr d" for d
  proof -
    from that obtain x where x: "clean s (params s) = Inr x"
      and d: "d = munge_state_exact_add_defaults s (munge_pop_request_keys s x)"
      by (auto simp: munge_module_params_def err_simps)
    have "no_none (munge_pop_request_keys s x)"
      by (rule canonical_no_none [OF canonical_munge_pop [OF clean_canonical [OF x]]])
    with defaults_no_none [OF class_defaults [of c] this] show ?thesis
      unfolding d munge_state_exact_add_defaults_def client_argument_spec [OF assms(1)] by simp
  qed
  have "p \<noteq> PNone" if "subject_to_principal v = Inr p" for v p
    using that by (cases v) auto
  moreover have "no_none (ddel k d)" if "no_none d" for k d
    using that by (simp add: no_none_def)
  ultimately show ?thesis
    using assms(2) base
    by (cases c) (auto simp: hook_defs enablable_munge_module_params_def cert_munge_module_params_def
        err_simps intro!: no_none_dset split: if_splits)
qed

lemma canon_params_wf:
  assumes "h_munge_module_params (hooks_of c) s = Inr cp" and "state s = PStr ''absent''"
  shows "wf_dict cp"
proof -
  have base: "wf_dict d" if "munge_module_params s = Inr d" for d
    using that assms(2)
    by (auto simp: munge_module_params_def munge_state_exact_add_defaults_def err_simps
        intro!: canonical_wf [of s] canonical_munge_pop [of s] dest: clean_canonical)
  show ?thesis
    using assms base
    by (cases c) (auto simp: hook_defs enablable_munge_module_params_def cert_munge_module_params_def
        err_simps split: if_splits)
qed

text \<open>What an attribute is set to by default is a plain value.\<close>

lemma class_defaults_plain:
  "list_all (\<lambda>(k, sp). case sp_default sp of None \<Rightarrow> True | Some v \<Rightarrow> hashable v)
     (fold (\<lambda>(k, sp). dset k sp) (kw_args (class_of c)) (standard_params (class_of c)))"
  by (induct c; code_simp)

lemma client_defaults:
  assumes "init_client (hooks_of c) (class_of c) am = Inr s"
  shows "hashable (default_value s k)"
  using class_defaults_plain [of c] map_of_SomeD [of "argument_spec s" k]
  unfolding default_value_def client_argument_spec [OF assms] list_all_iff
  by (fastforce split: option.splits)

text \<open>So the scalars of the difference are what the goal asks to be set.\<close>

lemma looked_up_scalars:
  assumes found: "looked_up c am fetch n0 s0 s1 n1 found"
    and d: "compute_changes s0 (canon_params s1) found = Inr d"
    and k: "\<not> is_list_param s0 k"
  shows "option_list (map_of (scalars d) k) = goal_sets s0 (canon_params s1) found k"
proof (cases "state s0 = PStr ''absent''")
  case True
  note init = looked_up_setup(7) [OF found] and cp = looked_up_params [OF found]
  have "map_of (canon_params s1) k \<noteq> Some PNone"
    using munge_no_none [OF init cp] by (simp add: no_none_def)
  moreover have "\<not> py_eq v PNone" if "v \<noteq> PNone" for v using that by (cases v) auto
  ultimately show ?thesis
    using k True
    by (auto simp: compute_changes_scalars_absent [OF d True canon_params_wf [OF cp True]]
        goal_sets_def option_list_def dget_def split: option.split)
next
  case False
  then show ?thesis
    using k
    by (auto simp: compute_changes_scalars [OF d False] goal_sets_def option_list_def split: option.split)
qed

section \<open>The queue reaches the goal\<close>

lemma looked_up_readable:
  assumes "looked_up c am fetch n0 s0 s1 n1 found" and "\<not> check_mode s0"
    and "string_params s0 (canon_params s1)" and "string_params s0 found"
  shows "readable c s1"
proof -
  note set = looked_up_setup [OF assms(1)]
  obtain d where d: "compute_changes s0 (canon_params s1) found = Inr d" "list_add (diffs s1) = list_add d"
    "list_del (diffs s1) = list_del d" "wf_dict (scalars (diffs s1))"
    using looked_up_difference [OF assms(1)] by metis
  have "base_keys s1 = base_keys s0" "check_mode s1 = check_mode s0"
    using set(1) by (simp_all add: same_setup_def)
  then show ?thesis
    using set(2-4) assms(2) d(2-4) changes_string [OF d(1) assms(3,4)] compute_changes_wf_lists [OF d(1)]
      client_keys(1,2) [OF set(7)]
    by (simp add: readable_def string_changes_def)
qed

lemma queue_content:
  assumes found: "looked_up c am fetch n0 s0 s1 n1 found" and "\<not> check_mode s0"
    and texts: "string_params s0 (canon_params s1)" "string_params s0 found"
    and queue: "queue_requests (hooks_of c) s1 = Inr s2"
    and keeps: "state s0 \<noteq> PStr ''absent'' \<or> h_is_rem_param_request (hooks_of c) s1"
  obtains es where "requests s2 = requests s1 @ es"
    "\<And>k. is_list_param s0 k \<Longrightarrow> queue_adds c es k = texts_at (list_add (diffs s1)) k"
    "\<And>k. is_list_param s0 k \<Longrightarrow> queue_removes c es k = texts_at (list_del (diffs s1)) k"
    "\<And>k. queue_sets c es k = base_sets s1 k @ toggle_sets s1 k"
proof -
  note set = looked_up_setup [OF found]
  have same: "base_keys s1 = base_keys s0" "state s1 = state s0" using set(1) by (simp_all add: same_setup_def)
  note rd = looked_up_readable [OF found assms(2) texts]
  from queue_carries [OF queue rd] keeps same(2)
  have "carries c (set (base_keys s1) \<union> set (own_lists c)) (\<lambda>k. base_sets s1 k @ toggle_sets s1 k) s1 s2"
    by simp
  then obtain es where "requests s2 = requests s1 @ es"
    "queue_adds c es = only (set (base_keys s1) \<union> set (own_lists c)) (texts_at (list_add (diffs s1)))"
    "queue_removes c es = only (set (base_keys s1) \<union> set (own_lists c)) (texts_at (list_del (diffs s1)))"
    "queue_sets c es = (\<lambda>k. base_sets s1 k @ toggle_sets s1 k)"
    unfolding carries_def contributes_def by auto
  then show ?thesis
    using client_keys(3) [OF set(7)] by (intro that [of es]) (simp_all add: only_def same(1))
qed

text \<open>C6: Outside check mode, and unless the task deletes the object, the queue of every module, read the way
  FreeIPA documents its requests, brings the object to what the state asks for: adding and removing
  what the requests carry gives every list attribute, a list of texts, its goal. A scalar base
  attribute of the task is set, to the wanted value, exactly when it is not found with it; with
  \<open>state=absent\<close> it is set, to its default, exactly when it is found with the value to take away.
  Any other is set, to nothing, only with \<open>state=exact\<close> where it is found and has no default.\<close>

theorem queue_reaches_goal:
  assumes found: "looked_up c am fetch n0 s0 s1 n1 found" and "\<not> check_mode s0"
    and texts: "string_params s0 (canon_params s1)" "string_params s0 found"
    and queue: "queue_requests (hooks_of c) s1 = Inr s2"
    and keeps: "state s0 \<noteq> PStr ''absent'' \<or> h_is_rem_param_request (hooks_of c) s1"
  shows "\<exists>es. requests s2 = requests s1 @ es \<and>
    (\<forall>k. is_list_param s0 k \<longrightarrow>
       (texts_at found k \<union> queue_adds c es k) - queue_removes c es k =
         goal_texts (state s0) (texts_at (canon_params s1) k) (texts_at found k)) \<and>
    (\<forall>k \<in> set (base_keys s0). \<not> is_list_param s0 k \<longrightarrow>
       queue_sets c es k = goal_sets s0 (canon_params s1) found k)"
proof -
  note set = looked_up_setup [OF found]
  have same: "base_keys s1 = base_keys s0" using set(1) by (simp add: same_setup_def)
  obtain es where es: "requests s2 = requests s1 @ es"
    "\<And>k. is_list_param s0 k \<Longrightarrow> queue_adds c es k = texts_at (list_add (diffs s1)) k"
    "\<And>k. is_list_param s0 k \<Longrightarrow> queue_removes c es k = texts_at (list_del (diffs s1)) k"
    "\<And>k. queue_sets c es k = base_sets s1 k @ toggle_sets s1 k"
    using queue_content [OF found assms(2) texts queue keeps] by blast
  obtain d where d: "compute_changes s0 (canon_params s1) found = Inr d" "list_add (diffs s1) = list_add d"
    "list_del (diffs s1) = list_del d"
    "state s0 \<noteq> PStr ''absent'' \<or> h_is_rem_param_request (hooks_of c) s1 \<Longrightarrow> diffs s1 = d"
    using looked_up_difference [OF found] by metis
  have "(texts_at found k \<union> queue_adds c es k) - queue_removes c es k =
      goal_texts (state s0) (texts_at (canon_params s1) k) (texts_at found k)" if k: "is_list_param s0 k" for k
    using k by (auto simp: es(2,3) d(2,3) changes_texts [OF d(1) texts] goal_texts_def)
  moreover have "queue_sets c es k = goal_sets s0 (canon_params s1) found k"
    if k: "k \<in> set (base_keys s0)" "\<not> is_list_param s0 k" for k
  proof -
    have "toggle_sets s1 k = []"
      using client_keys(2) [OF set(7)] k(1) set(2) by (auto simp: toggle_sets_def)
    moreover have "base_sets s1 k = option_list (map_of (scalars d) k)"
      using k(1) d(4) [OF keeps] by (simp add: base_sets_def same)
    ultimately show ?thesis by (simp add: es(4) looked_up_scalars [OF found d(1) k(2)])
  qed
  ultimately show ?thesis using es(1) by blast
qed

section \<open>A group and its members\<close>

definition members_task :: ansible_module where
  "members_task spec = Inr
     ([(''cn'', PStr ''staff''), (''description'', PStr ''new''), (''gidnumber'', PNone),
       (''member_user'', PList [PStr ''ann'', PStr ''bob'']), (''state'', PStr ''present''),
       (''ipa_prot'', PStr ''https''), (''ipa_host'', PStr ''ipa''),
       (''ipa_user'', PStr ''admin''), (''ipa_pass'', PStr ''secret'')], False)"

definition reporting :: "pydict \<Rightarrow> unit fetch" where
  "reporting d w q = (HttpReply 200 [] (Some (entry_reply (PList [PDict d]))) PNone, w)"

definition group_entry :: "string \<Rightarrow> string list \<Rightarrow> pydict" where
  "group_entry descr users = [(''cn'', PList [PStr ''staff'']), (''description'', PList [PStr descr]),
     (''member_user'', PList (map PStr users))]"

definition cleaned_entry :: "string \<Rightarrow> string list \<Rightarrow> pydict" where
  "cleaned_entry descr users = [(''description'', PStr descr), (''member_user'', PList (map PStr users))]"

definition queued :: "string \<Rightarrow> string \<Rightarrow> pydict \<Rightarrow> entry" where
  "queued nm m item = \<lparr>e_name = nm, e_request = Some \<lparr>r_method = m, r_name = [PStr ''staff''], r_item = item\<rparr>,
     e_response = None, e_response_cleaned = None\<rparr>"

definition members_queue :: "entry list" where
  "members_queue =
     [queued ''add_or_mod'' ''group_mod'' [(''description'', PStr ''new''), (''all'', PBool True)],
      queued ''group_add_member'' ''group_add_member'' [(''all'', PBool True), (''user'', PList [PStr ''ann''])]]"

definition members_net :: "unit net" where
  "members_net = \<lparr>server = (), sent = []\<rparr>"

lemma members_first_run:
  "case init_client GroupIPAClient_hooks GroupIPAClient_class members_task of
     Inl x \<Rightarrow> False
   | Inr s0 \<Rightarrow> \<not> check_mode s0 \<and> state s0 = PStr ''present'' \<and>
       (case login (reporting (group_entry ''old'' [''bob'', ''eve''])) s0 members_net of (r, s, n) \<Rightarrow>
         r = Inr () \<and>
         (case find_obj (reporting (group_entry ''old'' [''bob'', ''eve''])) GroupIPAClient_hooks s n of (r1, s1, n1) \<Rightarrow>
           r1 = Inr () \<and> canon_params s1 = cleaned_entry ''new'' [''ann'', ''bob''] \<and>
           response_cleaned s1 = Some (cleaned_entry ''old'' [''bob'', ''eve'']) \<and> length (requests s1) = 1 \<and>
           (case queue_requests GroupIPAClient_hooks s1 of Inl x \<Rightarrow> False
            | Inr s2 \<Rightarrow> drop 1 (requests s2) = members_queue)))"
  by code_simp

lemma members_second_run:
  "case init_client GroupIPAClient_hooks GroupIPAClient_class members_task of
     Inl x \<Rightarrow> False
   | Inr s0 \<Rightarrow>
       (case login (reporting (group_entry ''new'' [''bob'', ''eve'', ''ann''])) s0 members_net of (r, s, n) \<Rightarrow>
         r = Inr () \<and>
         (case find_obj (reporting (group_entry ''new'' [''bob'', ''eve'', ''ann''])) GroupIPAClient_hooks s n of (r1, s1, n1) \<Rightarrow>
           r1 = Inr () \<and> response_cleaned s1 = Some (cleaned_entry ''new'' [''bob'', ''eve'', ''ann'']) \<and>
           obj_exists s1 = Inr True))"
  by code_simp

lemma members_looked_up:
  obtains s0 s1 n1 s2 t1 m1 where
    "looked_up Group members_task (reporting (group_entry ''old'' [''bob'', ''eve''])) members_net s0 s1 n1
       (cleaned_entry ''old'' [''bob'', ''eve''])"
    "queue_requests (hooks_of Group) s1 = Inr s2"
    "looked_up Group members_task (reporting (group_entry ''new'' [''bob'', ''eve'', ''ann''])) members_net s0 t1 m1
       (cleaned_entry ''new'' [''bob'', ''eve'', ''ann''])"
    "obj_exists t1 = Inr True" "\<not> check_mode s0" "state s0 = PStr ''present''" "canon_params s1 = cleaned_entry ''new'' [''ann'', ''bob'']"
    "drop (length (requests s1)) (requests s2) = members_queue" "length (requests s1) = 1"
  using members_first_run members_second_run that
  by (auto simp: looked_up_def split: sum.splits prod.splits)

lemma group_lists:
  assumes "init_client (hooks_of Group) (class_of Group) am = Inr s"
  shows "is_list_param s k \<longleftrightarrow> k = ''member_group'' \<or> k = ''member_user''"
    "set (base_keys s) = {''description'', ''gidnumber'', ''nonposix'', ''external''}"
  by (auto simp: is_list_param_def init_client_setup(4) [OF assms] client_base_keys [OF assms]
      class_keys_def class_defs kwarg_def)

lemma members_texts:
  assumes "init_client (hooks_of Group) (class_of Group) am = Inr s"
  shows "string_params s (cleaned_entry descr users)"
  unfolding string_params_def group_lists [OF assms] by (auto simp: cleaned_entry_def)

theorem queue_reaches_goal_witness:
  "\<exists>s0 s1 n1 s2 es. looked_up Group members_task (reporting (group_entry ''old'' [''bob'', ''eve''])) members_net
       s0 s1 n1 (cleaned_entry ''old'' [''bob'', ''eve'']) \<and>
     queue_requests (hooks_of Group) s1 = Inr s2 \<and> requests s2 = requests s1 @ es \<and>
     (texts_at (cleaned_entry ''old'' [''bob'', ''eve'']) ''member_user'' \<union> queue_adds Group es ''member_user'') -
       queue_removes Group es ''member_user'' = {''ann'', ''bob'', ''eve''} \<and>
     queue_sets Group es ''description'' = [PStr ''new'']"
proof -
  obtain s0 s1 n1 s2 t1 m1 where found: "looked_up Group members_task
      (reporting (group_entry ''old'' [''bob'', ''eve''])) members_net s0 s1 n1 (cleaned_entry ''old'' [''bob'', ''eve''])"
    and queue: "queue_requests (hooks_of Group) s1 = Inr s2"
    and task: "\<not> check_mode s0" "state s0 = PStr ''present''" "canon_params s1 = cleaned_entry ''new'' [''ann'', ''bob'']"
    by (rule members_looked_up)
  note init = looked_up_setup(7) [OF found]
  have texts: "string_params s0 (canon_params s1)" "string_params s0 (cleaned_entry ''old'' [''bob'', ''eve''])"
    using members_texts [OF init] by (simp_all add: task(3))
  have keeps: "state s0 \<noteq> PStr ''absent'' \<or> h_is_rem_param_request (hooks_of Group) s1" by (simp add: task(2))
  obtain es where es: "requests s2 = requests s1 @ es"
    "\<forall>k. is_list_param s0 k \<longrightarrow>
       (texts_at (cleaned_entry ''old'' [''bob'', ''eve'']) k \<union> queue_adds Group es k) - queue_removes Group es k =
         goal_texts (state s0) (texts_at (canon_params s1) k) (texts_at (cleaned_entry ''old'' [''bob'', ''eve'']) k)"
    "\<forall>k \<in> set (base_keys s0). \<not> is_list_param s0 k \<longrightarrow> queue_sets Group es k =
       goal_sets s0 (canon_params s1) (cleaned_entry ''old'' [''bob'', ''eve'']) k"
    using queue_reaches_goal [OF found task(1) texts queue keeps] by blast
  have "(texts_at (cleaned_entry ''old'' [''bob'', ''eve'']) ''member_user'' \<union> queue_adds Group es ''member_user'') -
       queue_removes Group es ''member_user'' = {''ann'', ''bob'', ''eve''}"
    using es(2) by (auto simp: group_lists [OF init] task(2,3) goal_texts_def cleaned_entry_def texts_at_def attr_list_def)
  moreover have "queue_sets Group es ''description'' = [PStr ''new'']"
    using es(3) by (simp add: group_lists [OF init] goal_sets_def task(2,3) cleaned_entry_def)
  ultimately show ?thesis using found queue es(1) by blast
qed

end
