(* ===== verification/IPA_Reruns.thy ===== *)
theory IPA_Reruns
  imports IPA_Convergence
begin

text \<open>
  Tasks run again: once a server has carried out what a run queued, the same task finds nothing to do; and what a run for a missing object asked to be disabled leaves
  to the next one.
\<close>

section \<open>The second run\<close>

text \<open>
  What the server reports after it carried out a queue: an object that was there has the list values
  the requests leave it, keeps the attributes no request set and reports those that were set with an
  equal value, or not at all where they were set to \<open>None\<close>; a new object has at least what the
  requests gave it.
\<close>

definition reports_set :: "pyval list \<Rightarrow> bool \<Rightarrow> pyval option \<Rightarrow> pyval option \<Rightarrow> bool" where
  "reports_set vs new before after \<longleftrightarrow>
     (if vs = [] then new \<or> after = before
      else if last vs = PNone then after = None
      else \<exists>w. after = Some w \<and> py_eq (last vs) w)"

definition carried_out :: "ipa_module \<Rightarrow> self \<Rightarrow> bool \<Rightarrow> entry list \<Rightarrow> pydict \<Rightarrow> pydict \<Rightarrow> bool" where
  "carried_out c s new es before after \<longleftrightarrow>
     (\<forall>k. is_list_param s k \<longrightarrow>
        (if new then queue_adds c es k \<subseteq> texts_at after k
         else texts_at after k = (texts_at before k \<union> queue_adds c es k) - queue_removes c es k)) \<and>
     (\<forall>k. k \<in> set (base_keys s) \<or> enablekey (class_of c) = Some k \<longrightarrow> \<not> is_list_param s k \<longrightarrow>
        reports_set (queue_sets c es k) new (map_of before k) (map_of after k))"

lemma goal_texts_idem: "goal_texts st A (goal_texts st A B) = goal_texts st A B"
  by (auto simp: goal_texts_def)

lemma no_list_changes:
  assumes "compute_changes s ch cu = Inr c" and "string_params s ch" and "string_params s cu"
    and "\<And>k. is_list_param s k \<Longrightarrow> goal_texts (state s) (texts_at ch k) (texts_at cu k) = texts_at cu k"
  shows "list_add c = [] \<and> list_del c = []"
proof -
  note lists = string_params_lists [OF assms(2)] string_params_lists [OF assms(3)]
  note ok = compute_changes_lists_ok [OF assms(1) lists]
  have "attr_vals (list_add c) k = {} \<and> attr_vals (list_del c) k = {}" for k
  proof (cases "is_list_param s k")
    case True
    then show ?thesis
      using assms(4) [OF True] attr_vals_texts [OF assms(2) True] attr_vals_texts [OF assms(3) True]
      by (auto simp: compute_changes_list_add [OF assms(1) lists] compute_changes_list_del [OF assms(1) lists]
          goal_texts_def inj_eq [OF inj_text_key] split: if_splits)
  qed (simp add: compute_changes_list_add [OF assms(1) lists] compute_changes_list_del [OF assms(1) lists])
  then show ?thesis using list_changes_ok_empty_iff [OF ok(1)] list_changes_ok_empty_iff [OF ok(2)] by blast
qed

text \<open>No list parameter is among the scalars.\<close>

lemma no_list_scalars:
  assumes "compute_changes s ch cu = Inr c" and "is_list_param s k" and "wf_dict ch"
  shows "map_of (scalars c) k = None"
  using assms(2)
  by (cases "state s = PStr ''absent''")
    (simp_all add: compute_changes_scalars_absent [OF assms(1) _ assms(3)] compute_changes_scalars [OF assms(1)]
      split: option.split)

lemma rem_param_params:
  "canon_params t = canon_params s \<Longrightarrow> h_is_rem_param_request (hooks_of c) t = h_is_rem_param_request (hooks_of c) s"
  by (cases c) (simp_all add: hook_defs is_rem_param_request_def)

text \<open>
  With state \<open>absent\<close> an attribute is set to its default; the task asks to take away a value other
  than that.
\<close>

definition resets_away :: "self \<Rightarrow> pydict \<Rightarrow> bool" where
  "resets_away s want \<longleftrightarrow>
     (state s = PStr ''absent'' \<longrightarrow>
        (\<forall>k \<in> set (base_keys s). \<not> is_list_param s k \<longrightarrow>
           (case map_of want k of None \<Rightarrow> True | Some v \<Rightarrow> \<not> py_eq v (default_value s k))))"

text \<open>A report that has each set value leaves no scalar to set.\<close>

lemma py_eq_same:
  assumes "hashable d" and "py_eq d w" and "py_eq v w"
  shows "py_eq v d"
proof (cases "hashable v")
  case True
  with assms show ?thesis by (simp add: py_eq_hashable)
next
  case False
  with assms show ?thesis by (cases v; cases w; cases d) auto
qed

lemma goal_sets_again:
  assumes "reports_set (goal_sets s ch cu k) (cu = []) (map_of cu k) (map_of cu' k)"
    and "cu = [] \<Longrightarrow> state s = PStr ''present''" and "map_of ch k \<noteq> Some PNone"
    and "\<And>v. state s = PStr ''absent'' \<Longrightarrow> map_of ch k = Some v \<Longrightarrow> \<not> py_eq v (default_value s k)"
    and "hashable (default_value s k)"
  shows "goal_sets s ch cu' k = []"
proof (cases "map_of ch k")
  case None
  with assms(1,2) show ?thesis by (auto simp: goal_sets_def reports_set_def split: if_splits)
next
  case (Some v)
  note v = this
  show ?thesis
  proof (cases "goal_sets s ch cu k = []")
    case True
    with assms(1,2) v show ?thesis
      by (cases "cu = []") (auto simp: goal_sets_def reports_set_def Let_def split: if_splits)
  next
    case False
    then have "goal_sets s ch cu k = [if state s = PStr ''absent'' then default_value s k else v]"
      using v by (auto simp: goal_sets_def Let_def split: if_splits)
    with assms(1) have "if (if state s = PStr ''absent'' then default_value s k else v) = PNone then map_of cu' k = None
        else \<exists>w. map_of cu' k = Some w \<and> py_eq (if state s = PStr ''absent'' then default_value s k else v) w"
      by (simp add: reports_set_def split: if_split_asm)
    with v assms(3,4) py_eq_same [OF assms(5)] show ?thesis
      by (auto simp: goal_sets_def Let_def split: if_splits option.splits)
  qed
qed

lemma settled_again:
  assumes first: "looked_up c am fetch n0 s0 s1 n1 found" and queue: "queue_requests (hooks_of c) s1 = Inr s2"
    and second: "looked_up c am fetch' m0 s0 t1 m1 found'"
    and server: "carried_out c s0 (found = []) (drop (length (requests s1)) (requests s2)) found found'"
    and texts: "string_params s0 (canon_params s1)" "string_params s0 found" "string_params s0 found'"
    and task: "\<not> check_mode s0" "state s0 \<noteq> PStr ''absent'' \<or> h_is_rem_param_request (hooks_of c) s1"
    and new: "found = [] \<longrightarrow> state s0 = PStr ''present''" and resets: "resets_away s0 (canon_params s1)"
  shows "settled t1"
proof -
  let ?ch = "canon_params s1"
  note set = looked_up_setup [OF first] and set' = looked_up_setup [OF second]
  have same: "base_keys t1 = base_keys s0" "state t1 = state s0" "klass s1 = class_of c" "klass t1 = class_of c"
    "state s1 = state s0" "base_keys s1 = base_keys s0"
    using set(1,2) set'(1,2) by (simp_all add: same_setup_def)
  have ch: "canon_params t1 = ?ch" using looked_up_params [OF first] looked_up_params [OF second] by simp
  have task': "state s0 \<noteq> PStr ''absent'' \<or> h_is_rem_param_request (hooks_of c) t1"
    using task(2) rem_param_params [OF ch] by simp
  obtain d where d: "compute_changes s0 ?ch found = Inr d" "diffs s1 = d"
    using looked_up_difference [OF first] task(2) by metis
  obtain d' where d': "compute_changes s0 ?ch found' = Inr d'" "diffs t1 = d'"
    using looked_up_difference [OF second] task' unfolding ch by metis
  obtain es where "requests s2 = requests s1 @ es"
    and es: "\<And>k. is_list_param s0 k \<Longrightarrow> queue_adds c es k = texts_at (list_add d) k"
    "\<And>k. is_list_param s0 k \<Longrightarrow> queue_removes c es k = texts_at (list_del d) k"
    "\<And>k. queue_sets c es k = base_sets s1 k @ toggle_sets s1 k"
    using queue_content [OF first task(1) texts(1,2) queue task(2)] d(2) by metis
  then have "drop (length (requests s1)) (requests s2) = es" by simp
  note out = server [unfolded this carried_out_def]
  have "goal_texts (state s0) (texts_at ?ch k) (texts_at found' k) = texts_at found' k"
    if k: "is_list_param s0 k" for k
  proof (cases "found = []")
    case True
    then have "texts_at ?ch k \<subseteq> texts_at found' k"
      using out k new by (simp add: es(1) changes_texts [OF d(1) texts(1,2)] texts_at_None)
    with True new show ?thesis by (auto simp: goal_texts_def)
  next
    case False
    then have "texts_at found' k = goal_texts (state s0) (texts_at ?ch k) (texts_at found k)"
      using out k by (auto simp: es(1,2) changes_texts [OF d(1) texts(1,2)] goal_texts_def)
    then show ?thesis by (simp add: goal_texts_idem)
  qed
  then have lists: "list_add d' = [] \<and> list_del d' = []"
    by (rule no_list_changes [OF d'(1) texts(1,3)])
  have scalar: "map_of (scalars d') k = None"
    if k: "k \<in> set (base_keys s0) \<or> enablekey (class_of c) = Some k" "\<not> is_list_param s0 k"
      and sets: "queue_sets c es k = option_list (map_of (scalars d) k)"
      and away: "state s0 = PStr ''absent'' \<longrightarrow> k \<in> set (base_keys s0)" for k
  proof -
    have "reports_set (goal_sets s0 ?ch found k) (found = []) (map_of found k) (map_of found' k)"
      using out k sets looked_up_scalars [OF first d(1) k(2)] by auto
    moreover have "map_of ?ch k \<noteq> Some PNone"
      using munge_no_none [OF set(7) looked_up_params [OF first]] by (simp add: no_none_def)
    ultimately have "goal_sets s0 ?ch found' k = []"
      using new resets away k(2) client_defaults [OF set(7), of k]
      by (intro goal_sets_again [where cu = found]) (auto simp: resets_away_def)
    then show ?thesis
      using looked_up_scalars [OF second, unfolded ch, OF d'(1) k(2)] by (simp add: option_list_def split: option.splits)
  qed
  have base: "in_base t1 (scalars d') = []"
  proof (rule in_base_Nil)
    fix k assume "k \<in> set (base_keys t1)"
    then have k: "k \<in> set (base_keys s0)" by (simp add: same(1))
    show "map_of (scalars d') k = None"
    proof (cases "is_list_param s0 k")
      case True
      then show ?thesis using no_list_scalars [OF d'(1)] canon_params_wf [OF looked_up_params [OF first]] by (cases "state s0 = PStr ''absent''") (simp_all add: compute_changes_scalars [OF d'(1)])
    next
      case False
      have "queue_sets c es k = option_list (map_of (scalars d) k)"
        using k client_keys(2) [OF set(7)] by (auto simp: es(3) base_sets_def toggle_sets_def same d(2))
      with scalar k False show ?thesis by blast
    qed
  qed
  have flag: "map_of (scalars d') k = None"
    if k: "enablekey (class_of c) = Some k" and st: "state s0 = PStr ''enabled'' \<or> state s0 = PStr ''disabled''" for k
  proof -
    have na: "state s0 \<noteq> PStr ''absent''" using st by auto
    have "toggles c" using k by (cases c) (simp_all add: class_defs)
    then obtain sp where "map_of (kw_args (class_of c)) k = Some sp" "sp_type sp \<noteq> ''list''"
      using enablable_client.key_is_scalar [OF enablable_contract] k by fastforce
    then have nl: "\<not> is_list_param s0 k"
      by (simp add: is_list_param_def init_client_setup(4) [OF set(7)] map_of_map)
    obtain b where b: "map_of ?ch k = Some (PBool b)" using looked_up_flag [OF first k st] by blast
    have "map (\<lambda>v. PBool (py_truth v)) (option_list (map_of (scalars d) k)) = option_list (map_of (scalars d) k)"
      using nl b by (simp add: compute_changes_scalars [OF d(1) na] option_list_def split: option.split)
    moreover have "\<not> is_absent s1" using st new set(6) by auto
    ultimately have "queue_sets c es k = option_list (map_of (scalars d) k)"
      using k st client_keys(2) [OF set(7) k] by (simp add: es(3) base_sets_def toggle_sets_def same d(2))
    with scalar k nl na show ?thesis by blast
  qed
  with lists base show ?thesis by (auto simp: settled_def same d'(2) split: option.split)
qed

text \<open>A run that queues nothing ends without a change.\<close>

lemma idle_run:
  assumes found: "looked_up c am fetch n0 s0 s1 n1 found" and queue: "queue_requests (hooks_of c) s1 = Inr s1"
  shows "\<exists>v. main fetch (hooks_of c) s0 n0 = (ExitJson False (cname (class_of c)) v, s1, n1)"
proof -
  note set = looked_up_setup [OF found]
  from found obtain s n where login: "login fetch s0 n0 = (Inr (), s, n)"
    and find: "find_obj fetch (hooks_of c) s n = (Inr (), s1, n1)"
    unfolding looked_up_def by blast
  obtain h where s: "s = s0\<lparr>headers := h\<rparr>" using login_frame [OF login] by blast
  obtain v where "ensure fetch (hooks_of c) s n = (Inr (False, v), s1, n1)"
    using idle_ensure [OF _ _ find queue] init_client_setup(3,5) [OF set(7)] by (auto simp: s)
  with login set(2) show ?thesis by (simp add: main_def)
qed

text \<open>C7: Outside check mode, once a server has carried out the queued requests, another run of the same task
  logs in, looks the object up, finds nothing to change and leaves through \<open>exit_json\<close> with
  \<open>changed=False\<close>: for every module and every state where the object was there, \<open>absent\<close> with attributes
  to take away included (none of them asked to be taken away at its default), and with \<open>state=present\<close>
  where it was missing. List attributes are lists of texts.\<close>

theorem second_run_after_requests:
  assumes first: "looked_up c am fetch n0 s0 s1 n1 found" and queue: "queue_requests (hooks_of c) s1 = Inr s2"
    and second: "looked_up c am fetch' m0 s0 t1 m1 found'" and there: "obj_exists t1 = Inr True"
    and server: "carried_out c s0 (found = []) (drop (length (requests s1)) (requests s2)) found found'"
    and texts: "string_params s0 (canon_params s1)" "string_params s0 found" "string_params s0 found'"
    and task: "\<not> check_mode s0" "state s0 \<noteq> PStr ''absent'' \<or> h_is_rem_param_request (hooks_of c) s1"
    and new: "found = [] \<longrightarrow> state s0 = PStr ''present''" and resets: "resets_away s0 (canon_params s1)"
  shows "\<exists>v. main fetch' (hooks_of c) s0 m0 = (ExitJson False (cname (class_of c)) v, t1, m1)"
proof (rule idle_run [OF second])
  have settled: "settled t1" by (rule settled_again [OF first queue second server texts task new resets])
  note set = looked_up_setup [OF second]
  have st: "state t1 = state s0" using set(1) by (simp add: same_setup_def)
  have ch: "canon_params t1 = canon_params s1"
    using looked_up_params [OF first] looked_up_params [OF second] by simp
  show "queue_requests (hooks_of c) t1 = Inr t1"
    by (rule ipa_client.queue_requests_idle [OF client_contract set(2) settled there])
      (use task(2) in \<open>simp add: st rem_param_params [OF ch]\<close>)
qed

section \<open>A new object is never disabled\<close>

lemma queue_sets_request:
  assumes "e \<in> set es" and "e_request e = Some q"
  shows "set (sets c q k) \<subseteq> set (queue_sets c es k)"
  using assms by (force simp: queue_sets_def)

text \<open>C18: Asked for a disabled object that is missing, the DNS zone, CA ACL and user modules queue no request
  that disables it: what they add is left enabled, and only another run of the task disables it.\<close>

theorem disabled_object_added_enabled:
  assumes found: "looked_up c am fetch n0 s0 s1 n1 []" and queue: "queue_requests (hooks_of c) s1 = Inr s2"
    and task: "\<not> check_mode s0" "state s0 = PStr ''disabled''" and texts: "string_params s0 (canon_params s1)"
    and toggle: "enablekey (class_of c) = Some k"
  shows "\<exists>es. requests s2 = requests s1 @ es \<and> queue_sets c es k = [] \<and>
    (\<forall>e \<in> set es. \<forall>q. e_request e = Some q \<longrightarrow> r_method q \<noteq> cname (class_of c) @ ''_disable'')"
proof -
  note set = looked_up_setup [OF found]
  have base: "base_keys s1 = base_keys s0" using set(1) by (simp add: same_setup_def)
  have none: "string_params s0 []" by (simp add: string_params_def)
  have "state s0 \<noteq> PStr ''absent'' \<or> h_is_rem_param_request (hooks_of c) s1" by (simp add: task(2))
  from queue_content [OF found task(1) texts none queue this]
  obtain es where es: "requests s2 = requests s1 @ es"
    and sets: "\<And>k. queue_sets c es k = base_sets s1 k @ toggle_sets s1 k"
    by metis
  have unset: "queue_sets c es k = []"
    using client_keys(2) [OF set(7) toggle] set(6) by (simp add: sets base_sets_def toggle_sets_def base)
  have "toggles c" using toggle by (cases c) (simp_all add: class_defs)
  note table = toggle_methods [OF this]
  have "r_method q \<noteq> cname (class_of c) @ ''_disable''" if "e \<in> set es" "e_request e = Some q" for e q
  proof
    assume "r_method q = cname (class_of c) @ ''_disable''"
    then have "sets c q k \<noteq> []" using table(3,5) toggle by (simp add: sets_def)
    with queue_sets_request [OF that, of c k] unset show False by simp
  qed
  with es unset show ?thesis by blast
qed

section \<open>Runs of a group and a zone\<close>

lemma members_carried_out:
  assumes "init_client (hooks_of Group) (class_of Group) am = Inr s"
  shows "carried_out Group s False members_queue (cleaned_entry ''old'' [''bob'', ''eve''])
    (cleaned_entry ''new'' [''bob'', ''eve'', ''ann''])"
  unfolding carried_out_def group_lists [OF assms]
  by (auto simp: members_queue_def queued_def cleaned_entry_def queue_adds_def queue_removes_def queue_sets_def
      adds_def removes_def sets_def member_values_def base_methods given_values.simps group_names_def named_values_def
      texts_at_def attr_list_def unwrap_cert_def reports_set_def option_list_def class_defs)

theorem second_run_after_requests_witness:
  "\<exists>s0 v t1 m1. init_client GroupIPAClient_hooks GroupIPAClient_class members_task = Inr s0 \<and>
     main (reporting (group_entry ''new'' [''bob'', ''eve'', ''ann''])) GroupIPAClient_hooks s0 members_net =
       (ExitJson False ''group'' v, t1, m1)"
proof -
  obtain s0 s1 n1 s2 t1 m1 where found: "looked_up Group members_task
      (reporting (group_entry ''old'' [''bob'', ''eve''])) members_net s0 s1 n1 (cleaned_entry ''old'' [''bob'', ''eve''])"
    and queue: "queue_requests (hooks_of Group) s1 = Inr s2"
    and again: "looked_up Group members_task (reporting (group_entry ''new'' [''bob'', ''eve'', ''ann''])) members_net
      s0 t1 m1 (cleaned_entry ''new'' [''bob'', ''eve'', ''ann''])" "obj_exists t1 = Inr True"
    and task: "\<not> check_mode s0" "state s0 = PStr ''present''" "canon_params s1 = cleaned_entry ''new'' [''ann'', ''bob'']"
    and es: "drop (length (requests s1)) (requests s2) = members_queue"
    by (rule members_looked_up)
  note init = looked_up_setup(7) [OF found]
  have "cleaned_entry ''old'' [''bob'', ''eve''] \<noteq> []" by (simp add: cleaned_entry_def)
  then have "\<exists>v. main (reporting (group_entry ''new'' [''bob'', ''eve'', ''ann''])) (hooks_of Group) s0 members_net =
      (ExitJson False (cname (class_of Group)) v, t1, m1)"
    using second_run_after_requests [OF found queue again] members_texts [OF init] members_carried_out [OF init]
    by (simp add: task es resets_away_def)
  with init show ?thesis by (auto simp: class_defs)
qed

text \<open>A DNS zone that is added while it is asked to be disabled.\<close>

definition nothing_found :: "unit fetch" where
  "nothing_found w q =
     (HttpReply 200 [] (Some (PDict [(''error'', PNone),
        (''result'', PDict [(''result'', PList []), (''count'', PInt 0)])])) PNone, w)"

definition disabled_zone_task :: ansible_module where
  "disabled_zone_task spec = Inr
     ([(''idnsname'', PStr ''lab.''), (''idnszoneactive'', PNone), (''state'', PStr ''disabled''),
       (''ipa_prot'', PStr ''https''), (''ipa_host'', PStr ''ipa''),
       (''ipa_user'', PStr ''admin''), (''ipa_pass'', PStr ''secret'')], False)"

lemma disabled_zone_run:
  "case init_client DNSZoneIPAClient_hooks DNSZoneIPAClient_class disabled_zone_task of
     Inl x \<Rightarrow> False
   | Inr s0 \<Rightarrow> \<not> check_mode s0 \<and> state s0 = PStr ''disabled'' \<and>
       (case login nothing_found s0 members_net of (r, s, n) \<Rightarrow>
         r = Inr () \<and>
         (case find_obj nothing_found DNSZoneIPAClient_hooks s n of (r1, s1, n1) \<Rightarrow>
           r1 = Inr () \<and> canon_params s1 = [(''idnszoneactive'', PBool False)] \<and>
           response_cleaned s1 = Some [] \<and>
           (case queue_requests DNSZoneIPAClient_hooks s1 of Inl x \<Rightarrow> False
            | Inr s2 \<Rightarrow> length (drop (length (requests s1)) (requests s2)) = 1 \<and> map e_request (drop (length (requests s1)) (requests s2)) =
                [Some \<lparr>r_method = ''dnszone_add'', r_name = [PStr ''lab.''], r_item = [(''all'', PBool True)]\<rparr>])))"
  by code_simp

theorem disabled_object_added_enabled_witness:
  "\<exists>s0 s1 n1 s2 es. looked_up DNSZone disabled_zone_task nothing_found members_net s0 s1 n1 [] \<and>
     queue_requests (hooks_of DNSZone) s1 = Inr s2 \<and> requests s2 = requests s1 @ es \<and> length es = 1 \<and>
     (\<forall>e \<in> set es. \<forall>q. e_request e = Some q \<longrightarrow> r_method q \<noteq> ''dnszone_disable'')"
proof -
  obtain s0 s1 n1 s2 where found: "looked_up DNSZone disabled_zone_task nothing_found members_net s0 s1 n1 []"
    and queue: "queue_requests (hooks_of DNSZone) s1 = Inr s2"
    and task: "\<not> check_mode s0" "state s0 = PStr ''disabled''" "canon_params s1 = [(''idnszoneactive'', PBool False)]"
    and one: "length (drop (length (requests s1)) (requests s2)) = 1"
    using disabled_zone_run
    by (auto simp: looked_up_def simp del: length_drop split: sum.splits prod.splits)
  note init = looked_up_setup(7) [OF found]
  have "string_params s0 (canon_params s1)"
    by (auto simp: string_params_def task(3) is_list_param_def init_client_setup(4) [OF init] class_defs kwarg_def)
  from disabled_object_added_enabled [OF found queue task(1,2) this, of "''idnszoneactive''"]
  obtain es where "requests s2 = requests s1 @ es"
    "\<forall>e \<in> set es. \<forall>q. e_request e = Some q \<longrightarrow> r_method q \<noteq> ''dnszone_disable''"
    by (auto simp: class_defs)
  with found queue one show ?thesis
    by (intro exI [of _ s0] exI [of _ s1] exI [of _ n1] exI [of _ s2] exI [of _ es]) simp
qed

end
