(* ===== verification/IPA_Deletion.thy ===== *)
theory IPA_Deletion
  imports IPA_Reruns
begin

text \<open>
  When an object is deleted: only by a task that asks for it and gives no attribute, never by the
  modules with defaults, and not twice.
\<close>

section \<open>Who deletes\<close>

text \<open>The methods of every change function but \<open>rem\<close>.\<close>

definition kept_methods :: "ipa_module \<Rightarrow> string set" where
  "kept_methods c = extra_methods c \<union>
     {base_method c ''add'', base_method c ''mod'', cname (class_of c) @ ''_enable'', cname (class_of c) @ ''_disable''}"

lemma kept_no_delete: "base_method c ''rem'' \<notin> kept_methods c"
  by (cases c) (simp_all add: kept_methods_def base_method_def class_defs caacl_methods_def group_methods_def
      service_methods_def user_methods_def)

lemma toggle_queues:
  assumes "enable_or_disable mp s = Inr (b, s')" and "toggles c" and "s_methods s = method_table c"
  shows "queues (kept_methods c) s s'"
proof (cases "s' = s")
  case False
  with assms(1) obtain k m nm where "dindex (s_methods s) k = Inr m" "k = ''enabled'' \<or> k = ''disabled''"
    and "s' = enqueue ''enable_or_disable'' \<lparr>r_method = m, r_name = nm, r_item = []\<rparr> s"
    unfolding enable_or_disable_def by (auto simp: ebind_Inr_iff split: option.splits if_splits)
  with toggle_methods(1,2) [OF assms(2)] show ?thesis
    by (auto simp: assms(3) dindex_Inr kept_methods_def intro!: queues_enqueue)
qed simp

lemma own_queues_kept:
  assumes "queue_loop (hooks_of c) (drop 2 (change_functions (class_of c))) s = Inr s'"
    and "s_methods s = method_table c"
  shows "queues (kept_methods c) s s'"
proof -
  have extra: "extra_methods c \<union> kept_methods c = kept_methods c" by (auto simp: kept_methods_def)
  from assms(1) show ?thesis
  proof (cases rule: own_loop_cases)
    case 1
    then show ?thesis by simp
  next
    case (2 b)
    then show ?thesis by (intro toggle_queues [OF 2(2)]) (simp_all add: assms(2))
  next
    case (3 b)
    then show ?thesis using handle_members_queues [OF 3(2), of "kept_methods Group"] extra by simp
  next
    case (4 b t b')
    have "queues (kept_methods CAACL) s t" using 4(1) by (intro toggle_queues [OF 4(2)]) (simp_all add: assms(2))
    then show ?thesis
      using add_remove_list_items_queues [OF 4(3), of "kept_methods CAACL"] extra 4(1) queues_trans by simp
  next
    case (5 b t b')
    then show ?thesis
      using handle_managedby_host_queues [OF 5(2), of "kept_methods Service"]
        handle_allow_keytab_queues [OF 5(3), of "kept_methods Service"] extra queues_trans by simp
  next
    case (6 b t b' u b'')
    have "queues (kept_methods User) s t" using 6(1) by (intro toggle_queues [OF 6(2)]) (simp_all add: assms(2))
    then show ?thesis
      using handle_cert_queues [OF 6(3), of "kept_methods User"] handle_principal_queues [OF 6(4), of "kept_methods User"]
        extra 6(1) queues_trans by simp
  qed
qed

lemma keeping_queues:
  assumes "queue_requests (hooks_of c) s = Inr s'" and "klass s = class_of c" and "s_methods s = method_table c"
    and "state s \<noteq> PStr ''absent'' \<or> h_is_rem_param_request (hooks_of c) s"
  shows "queues (kept_methods c) s s'"
proof -
  obtain b t where add: "add_or_mod (hooks_of c) s = Inr (b, t)"
    and own: "queue_loop (hooks_of c) (drop 2 (change_functions (class_of c))) t = Inr s'"
    using queue_requests_split [OF assms(1,2,4)] by blast
  from add have t: "queues (kept_methods c) s t"
  proof (cases rule: add_or_mod_cases)
    case (2 q)
    then show ?thesis
      using add_or_mod_request_method [OF 2(2) assms(3)] by (auto simp: kept_methods_def intro!: queues_enqueue)
  qed simp
  then have "s_methods t = method_table c" by (simp add: queues_frame assms(3))
  with t own show ?thesis using own_queues_kept queues_trans by blast
qed

text \<open>C11: Whatever the task and the server, a request that deletes (revokes) is queued only by a task with
  \<open>state=absent\<close> that gives no attribute (a certificate may have any), outside check mode, for an
  object that was found.\<close>

theorem delete_only_when_asked:
  assumes found: "looked_up c am fetch n0 s0 s1 n1 found" and queue: "queue_requests (hooks_of c) s1 = Inr s2"
    and entry: "e \<in> set (drop (length (requests s1)) (requests s2))" "e_request e = Some q"
    and delete: "r_method q = base_method c ''rem''"
  shows "state s0 = PStr ''absent'' \<and> (c = Cert \<or> canon_params s1 = []) \<and> found \<noteq> [] \<and> \<not> check_mode s0"
proof -
  note set = looked_up_setup [OF found]
  have same: "state s1 = state s0" "check_mode s1 = check_mode s0" using set(1) by (simp_all add: same_setup_def)
  have asked: "state s1 = PStr ''absent'' \<and> \<not> h_is_rem_param_request (hooks_of c) s1"
  proof (rule ccontr)
    assume "\<not> (state s1 = PStr ''absent'' \<and> \<not> h_is_rem_param_request (hooks_of c) s1)"
    then have "queues (kept_methods c) s1 s2" using keeping_queues [OF queue set(2,3)] by blast
    with entry have "r_method q \<in> kept_methods c" by (fastforce simp: queues_def new_entry_ok_def)
    with kept_no_delete delete show False by metis
  qed
  moreover have "\<not> (is_absent s1 \<or> check_mode s1)"
  proof
    assume "is_absent s1 \<or> check_mode s1"
    with absent_idle [OF set(2)] asked queue have "s2 = s1" by simp
    with entry(1) show False by simp
  qed
  moreover have "c = Cert \<or> h_is_rem_param_request (hooks_of c) s1 = (canon_params s1 \<noteq> [])"
    by (cases c) (simp_all add: hook_defs is_rem_param_request_def)
  ultimately show ?thesis using set(6) same by auto
qed

section \<open>Modules that never delete\<close>

lemma exact_defaults_not_Nil: "item \<noteq> [] \<Longrightarrow> munge_state_exact_add_defaults s item \<noteq> []"
proof -
  have "fold (\<lambda>(k, sp) it. if dhas it k then it
        else case sp_default sp of None \<Rightarrow> it | Some v \<Rightarrow> dset k v it) xs item \<noteq> []"
    if "item \<noteq> []" for xs :: "(string \<times> argspec) list" and item
    using that
  proof (induction xs arbitrary: item)
    case (Cons x xs)
    obtain k sp where x: "x = (k, sp)" by fastforce
    have "(if dhas item k then item
        else case sp_default sp of None \<Rightarrow> item | Some v \<Rightarrow> dset k v item) \<noteq> []"
      using Cons.prems by (cases "sp_default sp") simp_all
    from Cons.IH [OF this] x show ?case by simp
  qed simp
  then show "item \<noteq> [] \<Longrightarrow> munge_state_exact_add_defaults s item \<noteq> []"
    by (simp add: munge_state_exact_add_defaults_def)
qed

lemma munge_params_not_Nil:
  assumes "munge_module_params s = Inr cp" and "wf_dict (params s)"
    and "map_of (param_data s) k = Some ''bool''" and "map_of (params s) k = Some (PBool b)"
    and "k \<notin> set (param_keys (klass s))"
  shows "cp \<noteq> []"
proof -
  from assms(1) obtain d where d: "clean s (params s) = Inr d"
    and cp: "cp = munge_state_exact_add_defaults s (munge_pop_request_keys s d)"
    by (auto simp: munge_module_params_def err_simps)
  have "map_of (munge_pop_request_keys s d) k = Some (PBool b)"
    using clean_by_key [OF d assms(2), of k] assms(3-5) by (simp add: clean_value_def)
  then have "munge_pop_request_keys s d \<noteq> []"
    by (metis map_of.simps(1) option.distinct(1))
  with cp show ?thesis by (simp add: exact_defaults_not_Nil)
qed

text \<open>The boolean parameter with a default of these two modules.\<close>

fun always_set :: "ipa_module \<Rightarrow> string" where
  "always_set Service = ''ipakrbrequirespreauth''"
| "always_set _ = ''nsaccountlock''"

text \<open>C16: The service and user modules have a boolean parameter that is always set, so for them
  \<open>state=absent\<close> always counts as removing attributes: no run ever queues the delete request.\<close>

theorem default_prevents_deletion:
  assumes "c = Service \<or> c = User" and found: "looked_up c am fetch n0 s0 s1 n1 found"
    and ps: "wf_dict (params s0)" "map_of (params s0) (always_set c) = Some (PBool b)"
    and queue: "queue_requests (hooks_of c) s1 = Inr s2"
    and entry: "e \<in> set (drop (length (requests s1)) (requests s2))" "e_request e = Some q"
  shows "r_method q \<noteq> base_method c ''rem''"
proof
  assume "r_method q = base_method c ''rem''"
  with delete_only_when_asked [OF found queue entry] assms(1) have none: "canon_params s1 = []" by auto
  note ini = init_client_setup [OF looked_up_setup(7) [OF found]]
  have m: "h_munge_module_params (hooks_of c) s0 = Inr []"
    using looked_up_params [OF found] by (simp add: none)
  have k: "map_of (param_data s0) (always_set c) = Some ''bool''" "always_set c \<notin> set (param_keys (klass s0))"
    using assms(1) by (auto simp: ini class_defs user_kw_args_def service_kw_args_def kwarg_def Let_def)
  obtain item where "munge_module_params s0 = Inr item" "item = []"
    using assms(1) m by (auto simp: hook_defs enablable_munge_module_params_def err_simps split: if_splits)
  with munge_params_not_Nil [OF _ ps(1) k(1) ps(2) k(2)] show False by blast
qed

section \<open>Deleting once\<close>

text \<open>C12: Asked to remove an object that is there (and no attributes of it), every module queues exactly one
  request, its delete (revoke) method, and nothing after it, outside check mode; in check mode it queues
  nothing. Run again when the object is gone it ends with \<open>changed=False\<close> in both modes.\<close>

theorem second_run_after_deletion:
  assumes first: "looked_up c am fetch n0 s0 s1 n1 found" and queue: "queue_requests (hooks_of c) s1 = Inr s2"
    and task: "state s0 = PStr ''absent''" "\<not> h_is_rem_param_request (hooks_of c) s1"
    and there: "found \<noteq> []" and second: "looked_up c am fetch' m0 s0 t1 m1 []"
  shows "(if check_mode s0 then s2 = s1
     else \<exists>q. s2 = enqueue ''rem'' q s1 \<and> r_method q = base_method c ''rem'' \<and> rem_request (hooks_of c) s1 = Inr q) \<and>
    (\<exists>v. main fetch' (hooks_of c) s0 m0 = (ExitJson False (cname (class_of c)) v, t1, m1))"
proof
  note set = looked_up_setup [OF first] and set' = looked_up_setup [OF second]
  have same: "state s1 = state s0" "check_mode s1 = check_mode s0" "state t1 = state s0"
    using set(1) set'(1) by (simp_all add: same_setup_def)
  show "if check_mode s0 then s2 = s1
     else \<exists>q. s2 = enqueue ''rem'' q s1 \<and> r_method q = base_method c ''rem'' \<and> rem_request (hooks_of c) s1 = Inr q"
  proof (cases "check_mode s0")
    case True
    have "queue_requests (hooks_of c) s1 = Inr s1"
      by (rule absent_idle) (use True task set in \<open>simp_all add: same\<close>)
    with queue True show ?thesis by simp
  next
    case False
    have "\<exists>q. s2 = enqueue ''rem'' q s1 \<and> r_method q = base_method c ''rem'' \<and> rem_request (hooks_of c) s1 = Inr q"
      by (rule absent_deletes_once [OF queue]) (use False task there set in \<open>simp_all add: same\<close>)
    with False show ?thesis by simp
  qed
  have ch: "canon_params t1 = canon_params s1"
    using looked_up_params [OF first] looked_up_params [OF second] by simp
  have "queue_requests (hooks_of c) t1 = Inr t1"
    by (rule absent_idle) (use task set' in \<open>simp_all add: same rem_param_params [OF ch]\<close>)
  then show "\<exists>v. main fetch' (hooks_of c) s0 m0 = (ExitJson False (cname (class_of c)) v, t1, m1)"
    by (rule idle_run [OF second])
qed

section \<open>Runs that delete a group and keep a service\<close>

definition deletion_task :: ansible_module where
  "deletion_task spec = Inr
     ([(''cn'', PStr ''staff''), (''description'', PNone), (''gidnumber'', PNone), (''state'', PStr ''absent''),
       (''ipa_prot'', PStr ''https''), (''ipa_host'', PStr ''ipa''),
       (''ipa_user'', PStr ''admin''), (''ipa_pass'', PStr ''secret'')], False)"

definition service_task :: ansible_module where
  "service_task spec = Inr
     ([(''krbcanonicalname'', PStr ''HTTP/a''), (''ipakrbrequirespreauth'', PBool True), (''state'', PStr ''absent''),
       (''ipa_prot'', PStr ''https''), (''ipa_host'', PStr ''ipa''),
       (''ipa_user'', PStr ''admin''), (''ipa_pass'', PStr ''secret'')], False)"

lemma deletion_runs:
  "case init_client GroupIPAClient_hooks GroupIPAClient_class deletion_task of
     Inl x \<Rightarrow> False
   | Inr s0 \<Rightarrow> \<not> check_mode s0 \<and> state s0 = PStr ''absent'' \<and>
       (case login (reporting (group_entry ''old'' [])) s0 members_net of (r, s, n) \<Rightarrow>
         r = Inr () \<and>
         (case find_obj (reporting (group_entry ''old'' [])) GroupIPAClient_hooks s n of (r1, s1, n1) \<Rightarrow>
           r1 = Inr () \<and> canon_params s1 = [] \<and>
           response_cleaned s1 = Some [(''description'', PStr ''old'')] \<and>
           (case queue_requests GroupIPAClient_hooks s1 of Inl x \<Rightarrow> False | Inr s2 \<Rightarrow> True))) \<and>
       (case login nothing_found s0 members_net of (r, s, n) \<Rightarrow>
         r = Inr () \<and>
         (case find_obj nothing_found GroupIPAClient_hooks s n of (r1, s1, n1) \<Rightarrow>
           r1 = Inr () \<and> response_cleaned s1 = Some []))"
  by code_simp

lemma service_run:
  "case init_client ServiceIPAClient_hooks ServiceIPAClient_class service_task of
     Inl x \<Rightarrow> False
   | Inr s0 \<Rightarrow> state s0 = PStr ''absent'' \<and> wf_dict (params s0) \<and> map_of (params s0) ''ipakrbrequirespreauth'' = Some (PBool True) \<and>
       (case login (reporting [(''krbcanonicalname'', PList [PStr ''HTTP/a'']), (''ipakrbrequirespreauth'', PList [PBool True])])
          s0 members_net of (r, s, n) \<Rightarrow>
         r = Inr () \<and>
         (case find_obj (reporting [(''krbcanonicalname'', PList [PStr ''HTTP/a'']), (''ipakrbrequirespreauth'', PList [PBool True])])
            ServiceIPAClient_hooks s n of (r1, s1, n1) \<Rightarrow>
           r1 = Inr () \<and> response_cleaned s1 = Some [(''ipakrbrequirespreauth'', PBool True)] \<and>
           (case queue_requests ServiceIPAClient_hooks s1 of Inl x \<Rightarrow> False
            | Inr s2 \<Rightarrow> map (map_option r_method \<circ> e_request) (drop (length (requests s1)) (requests s2)) = [Some ''service_mod''])))"
  by code_simp

theorem second_run_after_deletion_witness:
  "\<exists>s0 s1 n1 q v t1 m1. looked_up Group deletion_task (reporting (group_entry ''old'' [])) members_net s0 s1 n1
       [(''description'', PStr ''old'')] \<and>
     queue_requests GroupIPAClient_hooks s1 = Inr (enqueue ''rem'' q s1) \<and> r_method q = ''group_del'' \<and>
     main nothing_found GroupIPAClient_hooks s0 members_net = (ExitJson False ''group'' v, t1, m1)"
proof -
  obtain s0 s1 n1 s2 t1 m1 where found: "looked_up Group deletion_task (reporting (group_entry ''old'' []))
      members_net s0 s1 n1 [(''description'', PStr ''old'')]"
    and queue: "queue_requests (hooks_of Group) s1 = Inr s2"
    and again: "looked_up Group deletion_task nothing_found members_net s0 t1 m1 []"
    and task: "\<not> check_mode s0" "state s0 = PStr ''absent''" "canon_params s1 = []"
    using deletion_runs by (auto simp: looked_up_def split: sum.splits prod.splits)
  have "\<not> h_is_rem_param_request (hooks_of Group) s1" by (simp add: hook_defs is_rem_param_request_def task(3))
  from second_run_after_deletion [OF found queue task(2) this _ again] task(1)
  obtain q v where "s2 = enqueue ''rem'' q s1" "r_method q = base_method Group ''rem''"
    "main nothing_found (hooks_of Group) s0 members_net = (ExitJson False (cname (class_of Group)) v, t1, m1)"
    by auto
  then have "queue_requests GroupIPAClient_hooks s1 = Inr (enqueue ''rem'' q s1) \<and> r_method q = ''group_del'' \<and>
     main nothing_found GroupIPAClient_hooks s0 members_net = (ExitJson False ''group'' v, t1, m1)"
    using queue by (simp add: class_defs base_method_def)
  with found show ?thesis by blast
qed

theorem delete_only_when_asked_witness:
  "\<exists>s0 s1 n1 q. looked_up Group deletion_task (reporting (group_entry ''old'' [])) members_net s0 s1 n1
       [(''description'', PStr ''old'')] \<and>
     queue_requests GroupIPAClient_hooks s1 = Inr (enqueue ''rem'' q s1) \<and> r_method q = ''group_del'' \<and>
     state s0 = PStr ''absent'' \<and> canon_params s1 = [] \<and> \<not> check_mode s0"
proof -
  obtain s0 s1 n1 s2 where found: "looked_up Group deletion_task (reporting (group_entry ''old'' []))
      members_net s0 s1 n1 [(''description'', PStr ''old'')]"
    and queue: "queue_requests (hooks_of Group) s1 = Inr s2"
    and task: "\<not> check_mode s0" "state s0 = PStr ''absent''" "canon_params s1 = []"
    using deletion_runs by (auto simp: looked_up_def split: sum.splits prod.splits)
  note set = looked_up_setup [OF found]
  have "state s1 = PStr ''absent''" "\<not> check_mode s1" using set(1) task by (simp_all add: same_setup_def)
  moreover have "\<not> h_is_rem_param_request (hooks_of Group) s1"
    by (simp add: hook_defs is_rem_param_request_def task(3))
  ultimately obtain q where q: "s2 = enqueue ''rem'' q s1" "r_method q = base_method Group ''rem''"
    using absent_deletes_once [OF queue set(2,3)] set(6) by auto
  let ?e = "\<lparr>e_name = ''rem'', e_request = Some q, e_response = None, e_response_cleaned = None\<rparr>"
  have e: "?e \<in> set (drop (length (requests s1)) (requests s2))" by (simp add: q(1) enqueue_def)
  have "state s0 = PStr ''absent'' \<and> (Group = Cert \<or> canon_params s1 = []) \<and>
      [(''description'', PStr ''old'')] \<noteq> [] \<and> \<not> check_mode s0"
    by (rule delete_only_when_asked [OF found queue e _ q(2)]) simp
  moreover have "r_method q = ''group_del''" using q(2) by (simp add: base_method_def class_defs)
  ultimately show ?thesis using found queue q(1) by auto
qed

theorem default_prevents_deletion_witness:
  "\<exists>s0 s1 n1 s2 e q. init_client ServiceIPAClient_hooks ServiceIPAClient_class service_task = Inr s0 \<and>
     state s0 = PStr ''absent'' \<and> queue_requests ServiceIPAClient_hooks s1 = Inr s2 \<and>
     drop (length (requests s1)) (requests s2) = [e] \<and> e_request e = Some q \<and> r_method q = ''service_mod'' \<and>
     ''service_mod'' \<noteq> base_method Service ''rem''"
proof -
  let ?reply = "reporting [(''krbcanonicalname'', PList [PStr ''HTTP/a'']), (''ipakrbrequirespreauth'', PList [PBool True])]"
  obtain s0 s1 n1 s2 e q where found: "looked_up Service service_task ?reply members_net s0 s1 n1
      [(''ipakrbrequirespreauth'', PBool True)]"
    and ps: "wf_dict (params s0)" "map_of (params s0) (always_set Service) = Some (PBool True)"
    and queue: "queue_requests (hooks_of Service) s1 = Inr s2"
    and e: "drop (length (requests s1)) (requests s2) = [e]" "e_request e = Some q" "r_method q = ''service_mod''"
    and st: "state s0 = PStr ''absent''"
    using service_run by (auto simp: looked_up_def split: sum.splits prod.splits)
  have "r_method q \<noteq> base_method Service ''rem''"
    by (rule default_prevents_deletion [OF disjI1 [OF refl] found ps queue _ e(2)]) (simp add: e(1))
  with e(3) have "''service_mod'' \<noteq> base_method Service ''rem''" by simp
  moreover have "init_client (hooks_of Service) (class_of Service) service_task = Inr s0"
    using looked_up_setup(7) [OF found] .
  ultimately show ?thesis
    using st queue e by (intro exI [of _ s0] exI [of _ s1] exI [of _ n1] exI [of _ s2] exI [of _ e] exI [of _ q])
      (simp add: class_defs)
qed

end
