(* ===== verification/Spec2Isabelle.thy ===== *)
theory Spec2Isabelle
  imports Parted CoreProv Filters Droplet_Info File_Runs Docker_Runs IPA_Deletion
begin

text \<open>
  Verification of \<^emph>\<open>freeipa-cloud-prov\<close>: the Ansible modules, plugins and template filters under
  \<open>src/lib\<close> that provision FreeIPA objects, certificates, Docker networks and disks.

  \<^bold>\<open>The program.\<close> The IPA modules are classes over one client, \<open>lib/python/ipa.py\<close>. A run logs in,
  sends a \<open>find\<close> request, turns parameters and reply into canonical dictionaries, computes their
  difference for the requested state, lets each change function queue requests, and sends the queue.
  A module supplies class data and overrides some methods. The other modules stand alone: private key
  and certificate request over files, Docker network over a client object, partitions over the
  \<open>parted\<close> command. The filters are pure functions of text.

  \<^bold>\<open>Theories.\<close>
  \<^item> \<open>Prelude\<close>, \<open>PyValue\<close>: Python values (\<open>pyval\<close>), dictionaries as association lists in
    iteration order, exceptions as \<open>exit + 'a\<close>, and the built-ins the sources use (equality,
    truth, \<open>in\<close>, \<open>int\<close>, \<open>%s\<close>, \<open>format\<close>, \<open>set\<close>). \<open>err_simps\<close> collects the inversion rules
    of the error functions. \<open>Ansible\<close>: argument specifications and the reading of parameters.
    \<open>PyFloat\<close>: floats as rationals rounded to 53 bits. \<open>Effects\<close>:
    programs over a logged outside world, and the locale \<open>log_invariant\<close>.
  \<^item> \<open>IPA_Base\<close> (class data as \<open>client_class\<close>, the object as \<open>self\<close>, construction, cleaning),
    \<open>IPA_Diff\<close> (\<open>get_slice\<close>, \<open>op\<close>, \<open>compute_changes\<close>), \<open>IPA_Session\<close> (login, posting, \<open>find\<close>),
    \<open>IPA_Change\<close> (\<open>add_or_mod\<close>, \<open>rem\<close>, queue, \<open>ensure\<close>, \<open>main\<close>), \<open>IPA_Enablable\<close>. Overridden
    methods are the fields of a record \<open>hooks\<close>.
  \<^item> \<open>IPA_Contract\<close>: the locale \<open>ipa_client\<close>, what the core relies on from a module's hooks, with
    the properties of a run proved once from it; \<open>IPA_CA\<close>, \<open>IPA_DNSZone\<close>, \<open>IPA_DNSRecord\<close>,
    \<open>IPA_Group\<close>, \<open>IPA_CAACL\<close>, \<open>IPA_User\<close>, \<open>IPA_Service\<close>, \<open>IPA_Cert\<close>: one module each, with the
    interpretation that shows its hooks meet the contract; \<open>IPA_Clients\<close> joins them as one type
    \<open>ipa_module\<close>, \<open>IPA_Requests\<close> describes the requests they build, \<open>IPA_Idempotence\<close> composes
    find, difference and queue into whole runs, \<open>IPA_Completion\<close> shows that runs come to an
    end: which tasks and replies leave nothing to raise once the object was found. \<open>IPA_Server\<close>
    gives the requests their documented meaning and shows for every module that the queue carries
    exactly the difference; \<open>IPA_Convergence\<close> shows that it brings the object to what the
    state asks for, and \<open>IPA_Reruns\<close> that the same task run again then finds nothing to do, unless
    the object was missing and asked to be disabled: that takes two runs. \<open>IPA_Deletion\<close>: who deletes
    an object, and that it is done once.
  \<^item> \<open>Filters\<close>, \<open>Droplet_Info\<close>: \<open>lib/filter_plugins\<close>, \<open>lib/action_plugins\<close>.
  \<^item> \<open>OS_Files\<close>: a file system with refusals and the locale \<open>managed_file\<close> of a module that keeps
    one file; \<open>OpenSSL_PrivateKey\<close> and \<open>OpenSSL_CSR\<close> interpret it; \<open>File_Runs\<close>: any
    sequence of tasks of both over one file system, as an inductive relation.
  \<^item> \<open>Docker_Network\<close>: the network manager over an abstract daemon state, with the locale
    \<open>step_relation\<close> for relations every step keeps, and \<open>run_relation\<close> for whole runs.
    \<open>Docker_Runs\<close>: runs that change the daemon, from what Docker documents of its calls
    (\<open>daemon_laws\<close>: containers by name or identifier, reports that show the settings as given).
  \<^item> \<open>Parted_Info\<close> (the listing, sizes, version and \<open>/sys\<close> records) and \<open>Parted\<close> (commands,
    scripts, \<open>main\<close>, with the locale \<open>command_log\<close>): \<open>lib/modules/parted.py\<close>.
  \<^item> \<open>CoreProv\<close>: \<open>python/coreprov\<close>, each method as a sequence of calls.

  \<^bold>\<open>What is shown.\<close> In this theory: the requests a run may send and in which order (login, one find,
  only then changes), check mode, order of the queue, idempotence, the content of add, modify, delete and toggle requests, and how
  every spelling of a parameter is read (\<open>spells\<close>). From \<open>IPA_Completion\<close> to \<open>IPA_Deletion\<close>: what whole runs achieve with a server
  that does what it is sent. In \<open>IPA_Diff\<close>: the difference reaches the goal, is empty exactly when there is
  nothing to do, and converges. In the module theories: what each override builds. In the file
  modules: idempotence, check mode, permissions, failed writes, and that a request is signed with the
  key of an earlier task, which no later unforced task changes. In \<open>Docker_Network\<close>: check mode, the
  plan of actions; in \<open>Docker_Runs\<close>: a run reaches the wanted containers and the next one
  changes nothing. Filters: round trips and alphabets. In the
  \<open>Parted\<close> theories: the listing is read back in every unit, scripts set exactly the wanted flags, reading runs
  run no script, a disk as asked is left alone, and where sizes, versions and labels go wrong. In
  \<open>CoreProv\<close>: no unit is submitted before its file is there.

  \<^bold>\<open>Bounds.\<close> No operation needs fuel: loops run over finite lists (requests, dictionary items,
  characters), and the scanning loops are \<open>fun\<close> with a length measure.

  \<^bold>\<open>Parameters.\<close> The HTTP transport and server (\<open>fetch\<close>), \<open>AnsibleModule\<close>, pyOpenSSL, hashlib, the
  Docker client, the DigitalOcean API, the \<open>parted\<close> program, \<open>/sys\<close>, \<open>math.log10\<close> and the base
  classes of \<open>coreprov\<close> are arguments of the definitions that call them. Dictionary
  iteration order is the order of the association list; Python leaves it open.

  \<^bold>\<open>Not modelled.\<close> Playbooks, templates, inventories and Dockerfiles (data for other programs), the
  documentation strings, the registration of the filters, and parameter values outside \<open>pyval\<close>
  (floats, bytes, objects). Where the interpreter would format or index such a value the model ends
  in the error \<open>OutOfModel\<close>. Of floats there is no NaN and no negative infinity, which the sources
  cannot make.
\<close>

section \<open>What a module may send\<close>

text \<open>C1: A run of any IPA module sends nothing, or the login form, then its find request, and only
  after that JSON requests whose methods are among the changing API methods of that module, whatever
  the server answers and wherever the run stops: nothing is changed before the object was looked
  up, and it is looked up once.\<close>

theorem run_sends_only_api_methods:
  "case run_module am fetch c n of (out, s', n') \<Rightarrow>
     \<exists>qs. sent n' = sent n @ qs \<and> session_log (base_method c ''find'') (set (api_changes c)) qs"
proof -
  obtain out s' n' where r: "run_module am fetch c n = (out, s', n')"
    by (metis prod_cases3)
  then have "\<exists>qs. sent n' = sent n @ qs \<and> session_log (base_method c ''find'') (set (api_changes c)) qs"
  proof (cases rule: run_module_cases)
    case (2 s)
    then obtain qs where qs: "sent n' = sent n @ qs" and
      "session_log (base_method c ''find'') (if check_mode s then {} else set (api_changes c)) qs"
      using main_of_client_log [OF 2] by (auto simp: base_method_def)
    then have "session_log (base_method c ''find'') (set (api_changes c)) qs"
      by (elim session_log_mono) simp
    with qs show ?thesis by blast
  qed auto
  with r show ?thesis by simp
qed

text \<open>C5: In check mode a run sends the login form and at most one request, the find request of its
  module.\<close>

theorem check_mode_only_finds:
  assumes "\<And>spec ps b. am spec = Inr (ps, b) \<Longrightarrow> b"
  shows "case run_module am fetch c n of (out, s', n') \<Rightarrow>
     \<exists>qs. sent n' = sent n @ qs \<and> session_log (base_method c ''find'') {} qs"
proof -
  obtain out s' n' where r: "run_module am fetch c n = (out, s', n')"
    by (metis prod_cases3)
  then have "\<exists>qs. sent n' = sent n @ qs \<and> session_log (base_method c ''find'') {} qs"
  proof (cases rule: run_module_cases)
    case (2 s)
    with assms have "check_mode s" by (blast intro: init_client_check_mode)
    with main_of_client_log [OF 2] show ?thesis by (simp add: base_method_def)
  qed auto
  with r show ?thesis by simp
qed

lemma staff_check_run:
  "case run_module (staff_task True) staff_server Group \<lparr>server = (), sent = []\<rparr> of
     (out, s', n') \<Rightarrow> length (sent n') = 2 \<and> out = ExitJson True ''group'' (PDict [])"
  by code_simp

theorem check_mode_only_finds_witness:
  "\<exists>v s' n'. run_module (staff_task True) staff_server Group \<lparr>server = (), sent = []\<rparr> =
       (ExitJson True ''group'' v, s', n') \<and> length (sent n') = 2 \<and>
     session_log (base_method Group ''find'') {} (sent n')"
proof -
  obtain s' n' where run: "run_module (staff_task True) staff_server Group \<lparr>server = (), sent = []\<rparr> =
      (ExitJson True ''group'' (PDict []), s', n')" "length (sent n') = 2"
    using staff_check_run by (auto split: prod.splits)
  have "case run_module (staff_task True) staff_server Group \<lparr>server = (), sent = []\<rparr> of (out, s', n') \<Rightarrow>
     \<exists>qs. sent n' = sent \<lparr>server = (), sent = []\<rparr> @ qs \<and> session_log (base_method Group ''find'') {} qs"
    by (rule check_mode_only_finds) (simp add: staff_task_def)
  with run show ?thesis by auto
qed

text \<open>C9: Outside check mode the queue is sent in its order and stops at the first failure: the requests
  sent are a prefix of the queued ones, all of them when processing ends normally, and then the
  object is marked changed exactly when it was before or there was one.\<close>

theorem queue_sent_in_order:
  assumes "process_queue fetch H s n = (r, s', n')" and "\<not> check_mode s"
    and "get_json_url s = Inr url"
  shows "\<exists>k \<le> length (drop 1 (requests s)).
    sent n' = sent n @ map (\<lambda>e. json_request s url (the (e_request e))) (take k (drop 1 (requests s))) \<and>
    (r = Inr () \<longrightarrow> k = length (drop 1 (requests s)) \<and>
       (changed s' \<longleftrightarrow> changed s \<or> drop 1 (requests s) \<noteq> []))"
proof -
  note p = assms(1) [unfolded process_queue_def]
  show ?thesis
  proof (cases "r = Inr ()")
    case True
    with p process_entries_sends [OF _ assms(2,3)] process_entries_changed show ?thesis
      by (intro exI [of _ "length (drop 1 (requests s))"]) fastforce
  next
    case False
    from process_entries_prefix [OF p assms(2,3)] False show ?thesis by blast
  qed
qed

text \<open>Idempotence of whole runs: when the server has stored what the first run's difference asks
  for, a second run with the same parameters sends nothing after its find request and reports
  \<open>changed=False\<close>, for every module and every \<open>state\<close> but \<open>absent\<close>.\<close>

theorem second_run_changes_nothing:
  assumes "klass s = class_of c" and "requests s = []" and "\<not> changed s"
    and "state s \<noteq> PStr ''absent''"
    and first: "find_obj fetch (hooks_of c) s n = (Inr (), s1, n1)"
    and second: "find_obj fetch' (hooks_of c) s m = (Inr (), s2, m2)"
    and "response_cleaned s1 = Some cu" and "response_cleaned s2 = Some cu'"
    and "lists_ok s (canon_params s1)" and "lists_ok s cu"
    and "\<forall>k v. map_of (canon_params s1) k = Some v \<longrightarrow> v \<noteq> PNone"
    and "stored s (diffs s1) cu cu'" and "obj_exists s2 = Inr True"
  shows "\<exists>v. ensure fetch' (hooks_of c) s m = (Inr (False, v), s2, m2)"
proof -
  have "settled s2"
    by (rule second_find_settled [OF assms(1,2,4) first second assms(7-12)])
  then show ?thesis by (rule settled_ensure [OF assms(1-3) second _ assms(13) disjI1 [OF assms(4)]])
qed

section \<open>Adding, modifying, removing\<close>

text \<open>C10: \<open>add_or_mod\<close> of every module either queues nothing (the object exists and no base
  attribute differs) or exactly one request: the add method iff the object is absent, the name the
  module gives, and as item the changed base attributes, the sorted \<open>key=value\<close> strings of the
  list changes under \<open>addattr\<close> and \<open>delattr\<close>, \<open>all\<close>, and nothing else.\<close>

theorem add_or_mod_request_content:
  assumes "add_or_mod (hooks_of c) s = Inr (stop, s')" and "s_methods s = method_table c"
    and "wf_dict (scalars (diffs s))"
    and "map_of (scalars (diffs s)) ''addattr'' = None" "map_of (scalars (diffs s)) ''delattr'' = None"
  shows "\<not> stop \<and>
    (s' = s \<and> build_item s = [] \<and> obj_exists s = Inr True \<or>
     (\<exists>q. s' = enqueue ''add_or_mod'' q s \<and>
        r_method q = base_method c (if is_absent s then ''add'' else ''mod'') \<and>
        h_mod_request_params (hooks_of c) s = Inr (r_name q) \<and> map_of (r_item q) = base_item s))"
  using assms(1)
proof (cases rule: add_or_mod_cases)
  case (2 q)
  have "map_of (in_base s (scalars (diffs s))) k = None" if "k \<in> {''addattr'', ''delattr''}" for k
    using that assms(4,5) by (auto simp: map_of_in_base)
  with 2 add_or_mod_request_item [OF 2(2) rewrite_is_base assms(3)]
    add_or_mod_request_method [OF 2(2) assms(2)] show ?thesis by auto
qed auto

text \<open>C13: Asked to remove attributes of a missing object, every module but the certificate one
  queues a request that adds the object.\<close>

theorem absent_attributes_add_object:
  assumes "state s = PStr ''absent''" and "h_is_rem_param_request (hooks_of c) s"
    and "s_methods s = method_table c" and "is_absent s" and "obj_exists s = Inr False"
    and "add_or_mod_request (hooks_of c) s = Inr q"
  shows "queue_loop (hooks_of c) [''rem'', ''add_or_mod''] s = Inr (enqueue ''add_or_mod'' q s) \<and>
    r_method q = base_method c ''add''"
  using assms add_or_mod_request_method [OF assms(6,3)]
  by (simp add: get_change_function_def rem_def add_or_mod_def)

section \<open>Enabling and disabling\<close>

text \<open>C14: A client with an enable flag compares the flag with the requested state, inverted flag or
  not, and the toggle it queues for an existing object is the enable method for \<open>enabled\<close> and the
  disable method for \<open>disabled\<close>, exactly when the found flag differs from the requested one; in
  check mode nothing is queued.\<close>

theorem toggle_requests_wanted_state:
  assumes "toggles c" and "klass s = class_of c"
    and "param_data s = map (\<lambda>(k, sp). (k, sp_type sp)) (kw_args (class_of c))"
    and "s_methods s = method_table c"
    and "h_munge_module_params (hooks_of c) s = Inr cp"
    and "h_compute_changes (hooks_of c) s cp found = Inr (diffs s)"
    and "state s = PStr (if on then ''enabled'' else ''disabled'')"
    and "\<not> is_absent s"
  shows "\<exists>nm. base_mod_request_params [] s = Inr nm \<and>
    enable_or_disable (base_mod_request_params []) s =
    Inr (False, if check_mode s then s else
      case map_of found (enable_key s) of
        Some w \<Rightarrow> if py_eq (PBool (sense s on)) w then s
                 else enqueue ''enable_or_disable'' \<lparr>r_method = cname (class_of c) @
                   (if on then ''_enable'' else ''_disable''), r_name = nm, r_item = []\<rparr> s
      | None \<Rightarrow> enqueue ''enable_or_disable'' \<lparr>r_method = cname (class_of c) @
                   (if on then ''_enable'' else ''_disable''), r_name = nm, r_item = []\<rparr> s)"
proof -
  obtain nm where nm: "base_mod_request_params [] s = Inr nm"
    by (simp add: base_mod_request_params_def)
  have st: "state s = PStr ''enabled'' \<or> state s = PStr ''disabled''"
    "(state s = PStr ''enabled'') = on"
    using assms(7) by (auto split: if_splits)
  note dir = enablable_client.toggle_direction [OF enablable_contract [OF assms(1)]
      assms(5,2,3,6) st(1), unfolded st(2) Let_def]
  have ec: "enable_change s = map_of (scalars (diffs s)) (enable_key s)"
    using assms(1,2) by (auto simp: enable_change_def enable_key_def class_defs)
  have m: "dindex (s_methods s) (if on then ''enabled'' else ''disabled'') =
      Inr (cname (class_of c) @ (if on then ''_enable'' else ''_disable''))"
    using assms(1,4) by (auto simp: method_table_def class_defs dindex_def)
  let ?want = "PBool (sense s on)"
  let ?q = "\<lparr>r_method = cname (class_of c) @ (if on then ''_enable'' else ''_disable''),
    r_name = nm, r_item = []\<rparr>"
  have sense: "sense s (py_truth ?want) = on" by (simp add: sense_def)
  have act: "enable_or_disable (base_mod_request_params []) s =
      Inr (False, if check_mode s then s else enqueue ''enable_or_disable'' ?q s)"
    if "enable_change s = Some ?want"
    unfolding enable_or_disable_def that option.case sense
    using assms(8) st(1) nm m by (cases on) auto
  have idle: "enable_or_disable (base_mod_request_params []) s = Inr (False, s)"
    if "enable_change s = None"
    by (simp only: enable_or_disable_def that option.case)
  show ?thesis
  proof (cases "map_of found (enable_key s)")
    case None
    with dir ec have "enable_change s = Some ?want" by simp
    from act [OF this] nm None show ?thesis by simp
  next
    case (Some w)
    show ?thesis
    proof (cases "py_eq ?want w")
      case True
      with dir ec Some have "enable_change s = None" by simp
      from idle [OF this] nm Some True show ?thesis by simp
    next
      case False
      with dir ec Some have "enable_change s = Some ?want" by simp
      from act [OF this] nm Some False show ?thesis by simp
    qed
  qed
qed

section \<open>Parameters\<close>









section \<open>The properties on concrete runs\<close>

text \<open>A group client after its constructor, for a task with the given state and parameters.\<close>

definition group_client :: "string \<Rightarrow> pydict \<Rightarrow> self" where
  "group_client st ps = (new_self GroupIPAClient_class)\<lparr>
     s_methods := method_table Group,
     argument_spec := kw_args GroupIPAClient_class,
     param_data := map (\<lambda>(k, sp). (k, sp_type sp)) (kw_args GroupIPAClient_class),
     base_keys := [''description'', ''gidnumber'', ''nonposix'', ''external''],
     params := (''cn'', PStr ''staff'') # ps, state := PStr st,
     protocol := PStr ''https'', host := PStr ''ipa''\<rparr>"

lemma group_client_simps [simp]:
  "klass (group_client st ps) = GroupIPAClient_class" "requests (group_client st ps) = []"
  "s_methods (group_client st ps) = method_table Group" "\<not> changed (group_client st ps)"
  "state (group_client st ps) = PStr st" "\<not> check_mode (group_client st ps)"
  by (simp_all add: group_client_def new_self_def)

lemma group_table: "method_table Group =
  [(''add'', ''group_add''), (''rem'', ''group_del''), (''mod'', ''group_mod''),
   (''find'', ''group_find'')]"
  by (simp add: method_table_def class_defs)

definition net0 :: "unit net" where
  "net0 = \<lparr>server = (), sent = []\<rparr>"

text \<open>The server's answer to a find: the given objects, and how many there are.\<close>

definition find_reply :: "pydict list \<Rightarrow> pyval" where
  "find_reply ds = PDict [(''error'', PNone), (''result'', PDict
     [(''result'', PList (map PDict ds)), (''count'', PInt (int (length ds)))])]"

lemma group_json_url: "get_json_url (group_client st ps\<lparr>requests := es\<rparr>) = Inr ''https://ipa/ipa/session/json''"
  by (simp add: get_json_url_def get_base_url_def group_client_def)

text \<open>A find entry, which is not sent again, and two requests.\<close>

definition two_requests :: "entry list" where
  "two_requests = find_entry None None None # map
     (\<lambda>m. \<lparr>e_name = m, e_request = Some \<lparr>r_method = m, r_name = [PStr ''staff''], r_item = []\<rparr>,
       e_response = None, e_response_cleaned = None\<rparr>)
     [''group_mod'', ''group_add_member'']"

lemma two_requests_run:
  "case process_queue (canned (find_reply [])) GroupIPAClient_hooks
      (group_client ''present'' []\<lparr>requests := two_requests\<rparr>) net0 of
     (r, s', n') \<Rightarrow> r = Inr () \<and> changed s'"
  by code_simp

theorem queue_sent_in_order_witness:
  "\<exists>s' n'. process_queue (canned (find_reply [])) GroupIPAClient_hooks
       (group_client ''present'' []\<lparr>requests := two_requests\<rparr>) net0 = (Inr (), s', n') \<and>
     sent n' = map (\<lambda>m. json_request (group_client ''present'' []) ''https://ipa/ipa/session/json''
        \<lparr>r_method = m, r_name = [PStr ''staff''], r_item = []\<rparr>) [''group_mod'', ''group_add_member''] \<and>
     changed s'"
proof -
  let ?s = "group_client ''present'' []\<lparr>requests := two_requests\<rparr>"
  obtain s' n' where run: "process_queue (canned (find_reply [])) GroupIPAClient_hooks ?s net0 = (Inr (), s', n')"
    using two_requests_run by (auto split: prod.splits)
  have "\<not> check_mode ?s" by simp
  from queue_sent_in_order [OF run this group_json_url]
  have "changed s' \<and> sent n' = map (\<lambda>e. json_request ?s ''https://ipa/ipa/session/json'' (the (e_request e)))
      (drop 1 two_requests)"
    by (auto simp: net0_def two_requests_def)
  with run show ?thesis by (simp add: two_requests_def json_request_def)
qed

definition staff :: "string \<Rightarrow> pydict" where
  "staff d = [(''cn'', PList [PStr ''staff'']), (''description'', PList [PStr d])]"

abbreviation staff_client :: self where
  "staff_client \<equiv> group_client ''present'' [(''description'', PStr ''new'')]"

lemmas find_eval = find_obj_def find_prepare_def find_digest_def Let_def GroupIPAClient_hooks_def
  IPAClient_hooks_def munge_module_params_def munge_response_def clean_def clean_step_def
  clean_value_def munge_pop_request_keys_def munge_state_exact_add_defaults_def
  find_request_params_def find_request_item_def post_json_def get_json_url_def get_base_url_def
  fetch_url_def canned_def find_reply_def status_ok_def decode_reply_def decode_result_def
  select_found_def dget_def group_table dindex_def compute_changes_def scalar_changes_def
  scalar_keys_def get_slice_def is_list_param_def op_dict_def
  obj_exists_def group_client_def new_self_def staff_def class_defs kwarg_def net0_def
  store_step_def find_entry_def response_cleaned_def spec_default_def

lemma staff_found:
  "\<exists>s1 n1. find_obj (canned (find_reply [staff ''old''])) GroupIPAClient_hooks staff_client net0 =
       (Inr (), s1, n1) \<and>
     response_cleaned s1 = Some [(''description'', PStr ''old'')] \<and>
     canon_params s1 = [(''description'', PStr ''new'')] \<and>
     diffs s1 = \<lparr>scalars = [(''description'', PStr ''new'')], list_add = [], list_del = []\<rparr>"
  by (simp add: find_eval)

lemma staff_found_again:
  "\<exists>s2 n2. find_obj (canned (find_reply [staff ''new''])) GroupIPAClient_hooks staff_client net0 =
       (Inr (), s2, n2) \<and>
     response_cleaned s2 = Some [(''description'', PStr ''new'')] \<and> obj_exists s2 = Inr True"
  by (simp add: find_eval)

theorem second_run_changes_nothing_witness:
  "\<exists>v s2 n2. ensure (canned (find_reply [staff ''new''])) GroupIPAClient_hooks staff_client net0 =
     (Inr (False, v), s2, n2)"
proof -
  obtain s1 n1 where f: "find_obj (canned (find_reply [staff ''old''])) (hooks_of Group) staff_client net0 =
      (Inr (), s1, n1)" "response_cleaned s1 = Some [(''description'', PStr ''old'')]"
    "canon_params s1 = [(''description'', PStr ''new'')]"
    "diffs s1 = \<lparr>scalars = [(''description'', PStr ''new'')], list_add = [], list_del = []\<rparr>"
    using staff_found by auto
  obtain s2 n2 where g: "find_obj (canned (find_reply [staff ''new''])) (hooks_of Group) staff_client net0 =
      (Inr (), s2, n2)" "response_cleaned s2 = Some [(''description'', PStr ''new'')]"
    "obj_exists s2 = Inr True"
    using staff_found_again by auto
  have l: "\<not> is_list_param staff_client ''description''"
    by (simp add: is_list_param_def group_client_def class_defs kwarg_def new_self_def)
  then have ok: "lists_ok staff_client [(''description'', PStr d)]" for d
    by (auto simp: lists_ok_def)
  have none: "enablekey (klass staff_client) = None" by (simp add: class_defs)
  have "\<exists>v. ensure (canned (find_reply [staff ''new''])) (hooks_of Group) staff_client net0 =
      (Inr (False, v), s2, n2)"
  proof (rule second_run_changes_nothing [OF _ _ _ _ f(1) g(1) f(2) g(2)])
    show "stored staff_client (diffs s1) [(''description'', PStr ''old'')] [(''description'', PStr ''new'')]"
      using ok l by (auto simp: stored_def relevant_def f(4) patched_vals_def attr_vals_def attr_list_def)
  qed (use ok g(3) in \<open>simp_all add: f(3)\<close>)
  then show ?thesis by auto
qed

text \<open>The same client once its find step recorded a cleaned response.\<close>

definition found_group :: "string \<Rightarrow> pydict \<Rightarrow> pydict \<Rightarrow> changes \<Rightarrow> self" where
  "found_group st cp found df = (group_client st [])\<lparr>
     requests := [find_entry None None (Some found)], canon_params := cp, diffs := df,
     responses := [(''group_find'', find_reply (if found = [] then [] else [found]))]\<rparr>"

lemma found_group_simps [simp]:
  "klass (found_group st cp found df) = GroupIPAClient_class"
  "s_methods (found_group st cp found df) = method_table Group"
  "state (found_group st cp found df) = PStr st" "\<not> check_mode (found_group st cp found df)"
  "canon_params (found_group st cp found df) = cp" "diffs (found_group st cp found df) = df"
  "is_absent (found_group st cp found df) \<longleftrightarrow> found = []"
  "obj_exists (found_group st cp found df) = Inr (found \<noteq> [])"
  "base_mod_request_params [] (found_group st cp found df) = Inr [PStr ''staff'']"
  by (simp_all add: found_group_def is_absent_def response_cleaned_def find_entry_def
      obj_exists_def group_table dindex_def find_reply_def dget_def base_mod_request_params_def
      group_client_def new_self_def class_defs)

lemma group_hooks [simp]:
  "h_mod_request_params GroupIPAClient_hooks = base_mod_request_params []"
  "h_mod_rewrite GroupIPAClient_hooks = mod_rewrite_list_changes"
  "h_is_rem_param_request GroupIPAClient_hooks = is_rem_param_request"
  by (simp_all add: GroupIPAClient_hooks_def IPAClient_hooks_def)

definition description_change :: changes where
  "description_change = \<lparr>scalars = [(''description'', PStr ''new'')], list_add = [], list_del = []\<rparr>"

lemma description_request:
  "\<exists>q. add_or_mod_request GroupIPAClient_hooks (found_group st cp found description_change) = Inr q"
  by (simp add: add_or_mod_request_def group_table dindex_def mod_rewrite_list_changes_def
      build_item_def description_change_def in_base_def opt_dict_def)

theorem add_or_mod_request_content_witness:
  "\<exists>q s'. add_or_mod GroupIPAClient_hooks (found_group ''present'' [] (staff ''all of us'') description_change) =
       Inr (False, s') \<and>
     s' = enqueue ''add_or_mod'' q (found_group ''present'' [] (staff ''all of us'') description_change) \<and>
     r_method q = ''group_mod'' \<and> map_of (r_item q) ''description'' = Some (PStr ''new'')"
proof -
  let ?s = "found_group ''present'' [] (staff ''all of us'') description_change"
  obtain q where q: "add_or_mod_request GroupIPAClient_hooks ?s = Inr q"
    using description_request by blast
  have b: "build_item ?s \<noteq> []" "''description'' \<in> set (base_keys ?s)"
    by (simp_all add: build_item_def description_change_def in_base_def opt_dict_def
        found_group_def group_client_def)
  then have run: "add_or_mod GroupIPAClient_hooks ?s = Inr (False, enqueue ''add_or_mod'' q ?s)"
    using q by (simp add: add_or_mod_def)
  have m: "base_method Group ''mod'' = ''group_mod''" by (simp add: base_method_def class_defs)
  have "\<exists>q'. enqueue ''add_or_mod'' q ?s = enqueue ''add_or_mod'' q' ?s \<and>
      r_method q' = ''group_mod'' \<and> map_of (r_item q') = base_item ?s"
    using add_or_mod_request_content [where c = Group and s = ?s, OF run [folded hooks_of.simps(6)]] b(1) m
    by (auto simp: description_change_def staff_def)
  then obtain q' where "enqueue ''add_or_mod'' q ?s = enqueue ''add_or_mod'' q' ?s"
    "r_method q' = ''group_mod''" "map_of (r_item q') = base_item ?s" by blast
  with run b(2) show ?thesis
    by (intro exI [of _ q']) (simp add: base_item_def description_change_def)
qed

theorem absent_idle_witness:
  "queue_requests GroupIPAClient_hooks (found_group ''absent'' [] [] no_changes) =
     Inr (found_group ''absent'' [] [] no_changes)"
  using absent_idle [where c = Group and s = "found_group ''absent'' [] [] no_changes"]
  by (simp add: is_rem_param_request_def)

theorem absent_attributes_add_object_witness:
  "\<exists>q. queue_loop GroupIPAClient_hooks [''rem'', ''add_or_mod'']
       (found_group ''absent'' [(''description'', PStr ''new'')] [] description_change) =
       Inr (enqueue ''add_or_mod'' q
         (found_group ''absent'' [(''description'', PStr ''new'')] [] description_change)) \<and>
     r_method q = base_method Group ''add''"
proof -
  let ?s = "found_group ''absent'' [(''description'', PStr ''new'')] [] description_change"
  obtain q where "add_or_mod_request (hooks_of Group) ?s = Inr q"
    using description_request [of "''absent''" "[(''description'', PStr ''new'')]" "[]"] by auto
  from absent_attributes_add_object [OF _ _ _ _ _ this] show ?thesis
    by (auto simp: is_rem_param_request_def)
qed



text \<open>A zone client that disables a zone the server reports as active.\<close>

definition zone_client :: self where
  "zone_client = (new_self DNSZoneIPAClient_class)\<lparr>
     s_methods := method_table DNSZone,
     param_data := map (\<lambda>(k, sp). (k, sp_type sp)) (kw_args DNSZoneIPAClient_class),
     argument_spec := kw_args DNSZoneIPAClient_class,
     params := [(''idnsname'', PStr ''ex.org'')], state := PStr ''disabled'',
     requests := [find_entry None None (Some [(''idnszoneactive'', PBool True)])],
     diffs := \<lparr>scalars = [(''idnszoneactive'', PBool False)], list_add = [], list_del = []\<rparr>\<rparr>"

theorem toggle_requests_wanted_state_witness:
  "enable_or_disable (base_mod_request_params []) zone_client =
     Inr (False, enqueue ''enable_or_disable''
       \<lparr>r_method = ''dnszone_disable'', r_name = [PStr ''ex.org''], r_item = []\<rparr> zone_client)"
proof -
  have f: "klass zone_client = class_of DNSZone"
    "param_data zone_client = map (\<lambda>(k, sp). (k, sp_type sp)) (kw_args (class_of DNSZone))"
    "s_methods zone_client = method_table DNSZone"
    "state zone_client = PStr (if False then ''enabled'' else ''disabled'')"
    "\<not> is_absent zone_client" and mode: "\<not> check_mode zone_client"
    by (simp_all add: zone_client_def new_self_def is_absent_def response_cleaned_def find_entry_def)
  have k: "enable_key zone_client = ''idnszoneactive''" "sense zone_client False = False"
    "cname (class_of DNSZone) = ''dnszone''"
    by (simp_all add: enable_key_def sense_def zone_client_def class_defs new_self_def)
  have cn: "cname DNSZoneIPAClient_class = ''dnszone''"
    by (simp add: class_defs)
  have nm: "base_mod_request_params [] zone_client = Inr [PStr ''ex.org'']"
    by (simp add: base_mod_request_params_def zone_client_def class_defs new_self_def)
  have pd: "map_of (param_data zone_client) ''idnsname'' = Some ''str''"
    "params zone_client = [(''idnsname'', PStr ''ex.org'')]" "state zone_client = PStr ''disabled''"
    "param_keys (klass zone_client) = [''idnsname'']"
    by (simp_all add: zone_client_def class_defs kwarg_def new_self_def)
  have v: "clean_value ''str'' (PStr ''ex.org'') = Inr (Some (PStr ''ex.org''))"
    by (simp add: clean_value_def)
  have cp: "h_munge_module_params (hooks_of DNSZone) zone_client =
      Inr [(''idnszoneactive'', PBool False)]"
    by (simp add: hook_defs enablable_munge_module_params_def k munge_module_params_def clean_def
        clean_step_def v pd munge_pop_request_keys_def munge_state_exact_add_defaults_def)
  have df: "h_compute_changes (hooks_of DNSZone) zone_client [(''idnszoneactive'', PBool False)]
      [(''idnszoneactive'', PBool True)] = Inr (diffs zone_client)"
    by (simp add: hook_defs compute_changes_def scalar_changes_def scalar_keys_def get_slice_def
        is_list_param_def op_dict_def Let_def dget_def store_step_def spec_default_def
        zone_client_def class_defs kwarg_def dindex_def new_self_def)
  from toggle_requests_wanted_state [OF _ f(1,2,3) cp df f(4,5)] mode show ?thesis
    by (simp add: k nm cn)
qed


end
